(* ===== verification/Prelude.thy ===== *)
theory Prelude
  imports Main "HOL-Library.Sublist" "HOL-Library.AList" "HOL-Library.Word" "HOL-Library.Char_ord"
begin

text \<open>
  Shared vocabulary of the development: Rust's strings and byte vectors, the string operations
  of the standard library the daemon calls (splitting, prefix and suffix tests, UTF-8
  validation, lossy conversion, searching), association lists as hash maps, and the ordering
  wrapper \<open>std::cmp::Reverse\<close>.

  A Rust \<open>str\<close> is its UTF-8 byte sequence, so \<open>str\<close> and \<open>bytes\<close> are both \<open>string\<close>, whose
  characters are the 256 byte values.  A Rust \<open>Result<A, E>\<close> is \<open>'e + 'a\<close>: \<open>Inl\<close> for the
  error, \<open>Inr\<close> for the value.
\<close>

named_theorems rust_simps \<open>evaluation of the modelled standard-library string functions\<close>

type_synonym bytes = string
type_synonym str = string

section \<open>Splitting and searching strings\<close>

text \<open>\<open>str::split(c)\<close>: the pieces between the separators, at least one.\<close>

fun split_on :: "char \<Rightarrow> str \<Rightarrow> str list" where
  "split_on c [] = [[]]"
| "split_on c (x # xs) =
     (if x = c then [] # split_on c xs
      else (case split_on c xs of [] \<Rightarrow> [[x]] | y # ys \<Rightarrow> (x # y) # ys))"

fun join_with :: "char \<Rightarrow> str list \<Rightarrow> str" where
  "join_with c [] = []"
| "join_with c [x] = x"
| "join_with c (x # y # ys) = x @ c # join_with c (y # ys)"

lemma split_on_not_Nil [simp]: "split_on c s \<noteq> []"
  by (cases s) (auto split: list.splits)

lemma join_with_split_on [simp]: "join_with c (split_on c s) = s"
proof (induction s)
  case Nil
  show ?case by simp
next
  case (Cons x xs)
  show ?case
  proof (cases "split_on c xs")
    case Nil
    then show ?thesis by simp
  next
    case (Cons y ys)
    with Cons.IH show ?thesis by (cases ys) auto
  qed
qed

lemma split_on_no_sep: "p \<in> set (split_on c s) \<Longrightarrow> c \<notin> set p"
  by (induction s arbitrary: p) (auto split: if_splits list.splits)

lemma split_on_id: "c \<notin> set s \<Longrightarrow> split_on c s = [s]"
  by (induction s) auto

lemma split_on_append_sep: "c \<notin> set a \<Longrightarrow> split_on c (a @ c # s) = a # split_on c s"
  by (induction a) auto

lemma split_on_join_with:
  "ps \<noteq> [] \<Longrightarrow> (\<And>p. p \<in> set ps \<Longrightarrow> c \<notin> set p) \<Longrightarrow> split_on c (join_with c ps) = ps"
  by (induction c ps rule: join_with.induct) (auto simp: split_on_id split_on_append_sep)

text \<open>\<open>str::find(needle)\<close>: the byte index of the first occurrence.\<close>

fun find_sub :: "str \<Rightarrow> str \<Rightarrow> nat option" where
  "find_sub needle [] = (if needle = [] then Some 0 else None)"
| "find_sub needle (x # xs) =
     (if prefix needle (x # xs) then Some 0 else map_option Suc (find_sub needle xs))"

lemma find_sub_Some:
  "find_sub n s = Some i \<Longrightarrow> prefix n (drop i s) \<and> i \<le> length s"
  by (induction s arbitrary: i) (auto split: if_splits)

lemma find_sub_Some_length:
  "find_sub n s = Some i \<Longrightarrow> i + length n \<le> length s"
  by (induction s arbitrary: i) (auto split: if_splits dest: prefix_length_le)

lemma find_sub_first:
  "find_sub n s = Some i \<Longrightarrow> j < i \<Longrightarrow> \<not> prefix n (drop j s)"
proof (induction s arbitrary: i j)
  case Nil
  then show ?case by (auto split: if_splits)
next
  case (Cons x xs)
  then show ?case by (cases j) (auto split: if_splits)
qed

lemma find_sub_None_iff: "find_sub n s = None \<longleftrightarrow> \<not> sublist n s"
proof (induction s)
  case Nil
  then show ?case by (auto simp: sublist_def)
next
  case (Cons x xs)
  then show ?case by (auto simp: sublist_Cons_right)
qed

section \<open>UTF-8\<close>

definition is_cont :: "char \<Rightarrow> bool" where
  "is_cont c \<longleftrightarrow> (let b = (of_char c :: nat) in 128 \<le> b \<and> b \<le> 191)"

text \<open>
  The first scalar value of a byte sequence: \<open>Inr n\<close> when the first \<open>n\<close> bytes encode one,
  \<open>Inl n\<close> when the first \<open>n\<close> bytes are a maximal ill-formed prefix (the unit that
  \<open>to_string_lossy\<close> replaces by U+FFFD).
\<close>

definition second_ok :: "nat \<Rightarrow> nat \<Rightarrow> bool" where
  "second_ok b0 b1 \<longleftrightarrow>
     (if b0 = 224 then 160 \<le> b1 \<and> b1 \<le> 191
      else if b0 = 237 then 128 \<le> b1 \<and> b1 \<le> 159
      else if b0 = 240 then 144 \<le> b1 \<and> b1 \<le> 191
      else if b0 = 244 then 128 \<le> b1 \<and> b1 \<le> 143
      else 128 \<le> b1 \<and> b1 \<le> 191)"

definition utf8_multi :: "nat \<Rightarrow> bytes \<Rightarrow> nat + nat" where
  "utf8_multi b0 r0 =
     (if 194 \<le> b0 \<and> b0 \<le> 223 then
        (case r0 of c1 # _ \<Rightarrow> if is_cont c1 then Inr 2 else Inl 1 | [] \<Rightarrow> Inl 1)
      else if 224 \<le> b0 \<and> b0 \<le> 239 then
        (case r0 of
           c1 # r1 \<Rightarrow>
             if second_ok b0 (of_char c1) then
               (case r1 of c2 # _ \<Rightarrow> if is_cont c2 then Inr 3 else Inl 2 | [] \<Rightarrow> Inl 2)
             else Inl 1
         | [] \<Rightarrow> Inl 1)
      else if 240 \<le> b0 \<and> b0 \<le> 244 then
        (case r0 of
           c1 # r1 \<Rightarrow>
             if second_ok b0 (of_char c1) then
               (case r1 of
                  c2 # r2 \<Rightarrow>
                    if is_cont c2 then
                      (case r2 of c3 # _ \<Rightarrow> if is_cont c3 then Inr 4 else Inl 3 | [] \<Rightarrow> Inl 3)
                    else Inl 2
                | [] \<Rightarrow> Inl 2)
             else Inl 1
         | [] \<Rightarrow> Inl 1)
      else Inl 1)"

definition utf8_head :: "bytes \<Rightarrow> nat + nat" where
  "utf8_head s = (case s of
     [] \<Rightarrow> Inl 0
   | c0 # r0 \<Rightarrow> if (of_char c0 :: nat) < 128 then Inr 1 else utf8_multi (of_char c0) r0)"

text \<open>Evaluation looks at the bits of a character instead of counting to its code.\<close>

lemma of_char_ascii [code_unfold]: "(of_char c :: nat) < 128 \<longleftrightarrow> \<not> digit7 c"
  by (cases c) (simp add: of_char_def)

lemma utf8_head_bounds:
  "utf8_head (c # s) = Inr n \<Longrightarrow> 0 < n \<and> n \<le> length (c # s)"
  "utf8_head (c # s) = Inl n \<Longrightarrow> 0 < n \<and> n \<le> length (c # s)"
  by (auto simp: utf8_head_def utf8_multi_def split: if_splits list.splits)

text \<open>\<open>OsStr::to_str\<close> and \<open>str::from_utf8\<close> succeed exactly on these sequences.\<close>

function utf8_valid :: "bytes \<Rightarrow> bool" where
  "utf8_valid s =
     (if s = [] then True
      else (case utf8_head s of Inl _ \<Rightarrow> False | Inr n \<Rightarrow> utf8_valid (drop n s)))"
  by pat_completeness auto
termination
proof (relation "measure length", goal_cases)
  case 1
  show ?case by simp
next
  case (2 s n)
  then show ?case using utf8_head_bounds(1) by (cases s) auto
qed

text \<open>\<open>to_string_lossy\<close>: each ill-formed unit becomes U+FFFD (bytes EF BF BD).\<close>

function to_string_lossy :: "bytes \<Rightarrow> str" where
  "to_string_lossy s =
     (if s = [] then []
      else (case utf8_head s of
              Inr n \<Rightarrow> take n s @ to_string_lossy (drop n s)
            | Inl n \<Rightarrow> [char_of (239::nat), char_of (191::nat), char_of (189::nat)]
                        @ to_string_lossy (drop n s)))"
  by pat_completeness auto
termination
proof (relation "measure length", goal_cases)
  case 1
  show ?case by simp
next
  case (2 s n)
  then show ?case using utf8_head_bounds by (cases s) fastforce+
next
  case (3 s n)
  then show ?case using utf8_head_bounds by (cases s) fastforce+
qed

declare utf8_valid.simps [simp del] to_string_lossy.simps [simp del]

lemma utf8_valid_Nil [simp]: "utf8_valid []"
  by (simp add: utf8_valid.simps)

lemma to_string_lossy_Nil [simp]: "to_string_lossy [] = []"
  by (simp add: to_string_lossy.simps)

lemma utf8_valid_lossy: "utf8_valid s \<Longrightarrow> to_string_lossy s = s"
proof (induction s rule: utf8_valid.induct)
  case (1 s)
  show ?case
  proof (cases "s = []")
    case False
    with "1.prems" obtain n where n: "utf8_head s = Inr n" "utf8_valid (drop n s)"
      by (subst (asm) utf8_valid.simps) (auto split: sum.splits)
    with "1.IH" False have "to_string_lossy (drop n s) = drop n s" by blast
    with n False show ?thesis by (subst to_string_lossy.simps) simp
  qed simp
qed

lemma utf8_head_append:
  "utf8_head s = Inr n \<Longrightarrow> utf8_head (s @ t) = Inr n"
  by (auto simp: utf8_head_def utf8_multi_def split: if_splits list.splits)

lemma utf8_valid_append: "utf8_valid s \<Longrightarrow> utf8_valid t \<Longrightarrow> utf8_valid (s @ t)"
proof (induction s rule: utf8_valid.induct)
  case (1 s)
  show ?case
  proof (cases "s = []")
    case False
    with "1.prems" obtain n where n: "utf8_head s = Inr n" "utf8_valid (drop n s)"
      by (subst (asm) utf8_valid.simps) (auto split: sum.splits)
    with "1.IH" False "1.prems" have *: "utf8_valid (drop n s @ t)" by blast
    from False n have "n \<le> length s" using utf8_head_bounds(1) by (cases s) auto
    then show ?thesis
      using * n False utf8_head_append [of s n t] by (subst utf8_valid.simps) simp
  qed (use "1.prems" in simp)
qed

lemma utf8_valid_ascii: "(\<forall>c\<in>set s. (of_char c :: nat) < 128) \<Longrightarrow> utf8_valid s"
proof (induction s)
  case (Cons c s)
  then show ?case by (subst utf8_valid.simps) (auto simp: utf8_head_def)
qed simp

text \<open>\<open>s.chars().take(n).collect()\<close> on a valid string: the bytes of its first \<open>n\<close> scalar values.\<close>

fun take_chars :: "nat \<Rightarrow> str \<Rightarrow> str" where
  "take_chars 0 s = []"
| "take_chars (Suc n) s =
     (if s = [] then []
      else (case utf8_head s of
              Inr k \<Rightarrow> take k s @ take_chars n (drop k s)
            | Inl _ \<Rightarrow> []))"

lemma take_chars_ascii:
  "\<forall>c\<in>set s. (of_char c :: nat) < 128 \<Longrightarrow> take_chars n s = take n s"
proof (induction n arbitrary: s)
  case (Suc n)
  then show ?case by (cases s) (auto simp: utf8_head_def)
qed simp

section \<open>ASCII helpers\<close>

definition to_ascii_upper :: "char \<Rightarrow> char" where
  "to_ascii_upper c = (let b = (of_char c :: nat) in if 97 \<le> b \<and> b \<le> 122 then char_of (b - 32) else c)"

definition to_ascii_lower :: "char \<Rightarrow> char" where
  "to_ascii_lower c = (let b = (of_char c :: nat) in if 65 \<le> b \<and> b \<le> 90 then char_of (b + 32) else c)"

definition to_ascii_uppercase :: "str \<Rightarrow> str" where
  "to_ascii_uppercase s = map to_ascii_upper s"

definition to_ascii_lowercase :: "str \<Rightarrow> str" where
  "to_ascii_lowercase s = map to_ascii_lower s"

definition is_ascii_hexdigit :: "char \<Rightarrow> bool" where
  "is_ascii_hexdigit c \<longleftrightarrow>
     (let b = (of_char c :: nat) in
      (48 \<le> b \<and> b \<le> 57) \<or> (65 \<le> b \<and> b \<le> 70) \<or> (97 \<le> b \<and> b \<le> 102))"

lemma to_ascii_upper_code [code]:
  "to_ascii_upper (Char b0 b1 b2 b3 b4 b5 b6 b7) =
     Char b0 b1 b2 b3 b4
       (b5 \<and> \<not> (b6 \<and> \<not> b7 \<and> (b0 \<or> b1 \<or> b2 \<or> b3 \<or> b4) \<and> \<not> (b3 \<and> b4 \<and> (b2 \<or> (b0 \<and> b1))))) b6 b7"
  by (cases b0; cases b1; cases b2; cases b3; cases b4; cases b5; cases b6; cases b7) (simp_all add: to_ascii_upper_def char_of_def bit_Suc_0_iff)

lemma to_ascii_lower_code [code]:
  "to_ascii_lower (Char b0 b1 b2 b3 b4 b5 b6 b7) =
     Char b0 b1 b2 b3 b4
       (b5 \<or> (b6 \<and> \<not> b7 \<and> (b0 \<or> b1 \<or> b2 \<or> b3 \<or> b4) \<and> \<not> (b3 \<and> b4 \<and> (b2 \<or> (b0 \<and> b1))))) b6 b7"
  by (cases b0; cases b1; cases b2; cases b3; cases b4; cases b5; cases b6; cases b7) (simp_all add: to_ascii_lower_def char_of_def bit_Suc_0_iff)

lemma is_ascii_hexdigit_code [code]:
  "is_ascii_hexdigit (Char b0 b1 b2 b3 b4 b5 b6 b7) \<longleftrightarrow>
     \<not> b7 \<and> (if b6 then \<not> b4 \<and> \<not> b3 \<and> (b2 \<or> b1 \<or> b0) \<and> \<not> (b2 \<and> b1 \<and> b0) else b5 \<and> b4 \<and> \<not> (b3 \<and> (b1 \<or> b2)))"
  by (cases b0; cases b1; cases b2; cases b3; cases b4; cases b5; cases b6; cases b7) (simp_all add: is_ascii_hexdigit_def)

lemma to_ascii_upper_lower:
  "\<not> (97 \<le> (of_char c :: nat) \<and> (of_char c :: nat) \<le> 122) \<Longrightarrow> to_ascii_upper (to_ascii_lower c) = c"
  by (auto simp: to_ascii_upper_def to_ascii_lower_def Let_def)

lemma to_ascii_upper_id:
  "\<not> (97 \<le> (of_char c :: nat) \<and> (of_char c :: nat) \<le> 122) \<Longrightarrow> to_ascii_upper c = c"
  by (auto simp: to_ascii_upper_def Let_def)

text \<open>Decimal rendering (\<open>{}\<close>), zero-padded rendering (\<open>{:09}\<close>) and hexadecimal bytes (\<open>{:02x}\<close>).\<close>

definition digit :: "nat \<Rightarrow> char" where
  "digit d = (if d < 10 then char_of (48 + d) else char_of (87 + d))"

fun show_nat :: "nat \<Rightarrow> str" where
  "show_nat n = (if n < 10 then [digit n] else show_nat (n div 10) @ [digit (n mod 10)])"

declare show_nat.simps [simp del]

definition show_int :: "int \<Rightarrow> str" where
  "show_int i = (if i < 0 then CHR ''-'' # show_nat (nat (- i)) else show_nat (nat i))"

definition pad_zero :: "nat \<Rightarrow> str \<Rightarrow> str" where
  "pad_zero n s = replicate (n - length s) (CHR ''0'') @ s"

definition hex_byte :: "char \<Rightarrow> str" where
  "hex_byte c = (let b = (of_char c :: nat) in [digit (b div 16), digit (b mod 16)])"

section \<open>Reverse ordering\<close>

text \<open>\<open>std::cmp::Reverse\<close>: the wrapper whose order is the reverse of the wrapped one.\<close>

datatype 'a reverse = Reverse (unreverse: 'a)

instantiation reverse :: (linorder) linorder
begin

definition less_eq_reverse :: "'a reverse \<Rightarrow> 'a reverse \<Rightarrow> bool" where
  "less_eq_reverse x y \<longleftrightarrow> unreverse y \<le> unreverse x"

definition less_reverse :: "'a reverse \<Rightarrow> 'a reverse \<Rightarrow> bool" where
  "less_reverse x y \<longleftrightarrow> unreverse y < unreverse x"

instance
  by standard (auto simp: less_eq_reverse_def less_reverse_def reverse.expand)

end

lemma Reverse_le [simp]: "Reverse x \<le> Reverse y \<longleftrightarrow> y \<le> x"
  by (simp add: less_eq_reverse_def)

section \<open>Hash maps as association lists\<close>

text \<open>
  A \<open>HashMap\<close> whose iteration order or size matters is an association list with distinct keys
  (\<open>insert\<close> is \<open>AList.update\<close>, \<open>remove\<close> is \<open>AList.delete\<close>, \<open>get\<close> is \<open>map_of\<close>); the list order
  stands for the unspecified iteration order.
\<close>

definition keys_distinct :: "('k \<times> 'v) list \<Rightarrow> bool" where
  "keys_distinct m \<longleftrightarrow> distinct (map fst m)"

lemma keys_distinct_Nil [simp]: "keys_distinct []"
  by (simp add: keys_distinct_def)

lemma keys_distinct_update [simp, intro]: "keys_distinct m \<Longrightarrow> keys_distinct (AList.update k v m)"
  by (simp add: keys_distinct_def distinct_update)

lemma keys_distinct_delete [simp, intro]: "keys_distinct m \<Longrightarrow> keys_distinct (AList.delete k m)"
  by (simp add: keys_distinct_def distinct_delete)

lemma alist_lookup_update [simp]: "map_of (AList.update k v m) = (map_of m)(k \<mapsto> v)"
  by (simp add: update_conv')

lemma alist_lookup_delete [simp]: "map_of (AList.delete k m) = (map_of m)(k := None)"
  by (simp add: delete_conv')

end
