(* ===== verification/Std_Fs.thy ===== *)
theory Std_Fs
  imports Prelude
begin

unbundle bit_operations_syntax

text \<open>
  The part of \<open>std::path\<close> and \<open>std::fs\<close> that the daemon uses, over an explicit Unix file system.

  An absolute path is the list of its components (\<open>path\<close>); components \<open>''.''\<close> and the empty
  ones are dropped, \<open>''..''\<close> is kept and resolved by the kernel.  A relative \<open>PathBuf\<close> (the keys
  of the registries) is a component list as well.  A file system \<open>fs\<close> maps canonical locations
  to nodes; \<open>walk\<close> is the kernel's name resolution with symbolic links.  The host state
  \<open>world\<close> adds the clocks, the umask, and \<open>faults\<close>, a script of injected I/O errors: the head
  of the list says whether the next system call fails with an error that is none of the kinds
  the program distinguishes.  What a system refuses beyond the rules here (a missing permission, a full
  disk, a name that is too long or contains a zero byte) is such a fault.
\<close>

section \<open>Paths\<close>

type_synonym path = "str list"

definition normal :: "str \<Rightarrow> bool" where
  "normal c \<longleftrightarrow> c \<noteq> '''' \<and> c \<noteq> ''.'' \<and> c \<noteq> ''..''"

text \<open>\<open>PathBuf::from\<close> up to the equality of \<open>PathBuf\<close>s, on a path that does not start with \<open>./\<close>.\<close>

definition path_comps :: "str \<Rightarrow> path" where
  "path_comps s = filter (\<lambda>c. c \<noteq> '''' \<and> c \<noteq> ''.'') (split_on (CHR ''/'') s)"

text \<open>\<open>Path::join\<close> with a string: an absolute argument replaces the path.\<close>

definition path_join :: "path \<Rightarrow> str \<Rightarrow> path" where
  "path_join p s = (if prefix ''/'' s then path_comps s else p @ path_comps s)"

definition path_parent :: "path \<Rightarrow> path option" where
  "path_parent p = (if p = [] then None else Some (butlast p))"

definition file_name :: "path \<Rightarrow> str option" where
  "file_name p = (if p = [] \<or> last p = ''..'' then None else Some (last p))"

definition with_file_name :: "path \<Rightarrow> str \<Rightarrow> path" where
  "with_file_name p n = (if file_name p = None then p @ [n] else butlast p @ [n])"

text \<open>\<open>Path::extension\<close> of a file name: what follows the last dot, unless that dot is the first byte.\<close>

definition extension :: "str \<Rightarrow> str option" where
  "extension n = (let ps = split_on (CHR ''.'') n in
     if n = ''..'' \<or> length ps < 2 \<or> (length ps = 2 \<and> hd ps = '''') then None else Some (last ps))"

section \<open>Nodes and the kernel's name resolution\<close>

type_synonym mode = "32 word"

datatype node =
    File (node_content: bytes) (node_mode: mode)
  | Dir (node_mode: mode)
  | Symlink (node_target: str)
  | Socket (node_mode: mode)

datatype io_kind =
    NotFound | NotADirectory | IsADirectory | AlreadyExists | FilesystemLoop | OtherIo

type_synonym fs = "(path \<times> node) list"

fun is_dir :: "node \<Rightarrow> bool" where
  "is_dir (Dir m) = True"
| "is_dir _ = False"

fun is_symlink :: "node \<Rightarrow> bool" where
  "is_symlink (Symlink t) = True"
| "is_symlink _ = False"

fun is_file :: "node \<Rightarrow> bool" where
  "is_file (File b m) = True"
| "is_file _ = False"

text \<open>The root always exists.\<close>

definition node_at :: "fs \<Rightarrow> path \<Rightarrow> node option" where
  "node_at f p = (if p = [] then Some (Dir 493) else map_of f p)"

text \<open>
  \<open>walk n follow f cur cs\<close> resolves the components \<open>cs\<close> from the location \<open>cur\<close>.  At most
  \<open>n\<close> symbolic links are followed (the kernel's limit is 40); the last component is followed
  only when \<open>follow\<close> holds, and it need not exist.
\<close>

fun walk :: "nat \<Rightarrow> bool \<Rightarrow> fs \<Rightarrow> path \<Rightarrow> str list \<Rightarrow> io_kind + path" where
  "walk n follow f cur [] = Inr cur"
| "walk n follow f cur (c # cs) =
     (case node_at f cur of
        None \<Rightarrow> Inl NotFound
      | Some nd \<Rightarrow>
          if \<not> is_dir nd then Inl NotADirectory
          else if c = '''' \<or> c = ''.'' then walk n follow f cur cs
          else if c = ''..'' then walk n follow f (butlast cur) cs
          else
            (case node_at f (cur @ [c]) of
               None \<Rightarrow> if cs = [] then Inr (cur @ [c]) else Inl NotFound
             | Some nd' \<Rightarrow>
                 if is_symlink nd' then
                   if cs = [] \<and> \<not> follow then Inr (cur @ [c])
                   else (case n of
                           0 \<Rightarrow> Inl FilesystemLoop
                         | Suc m \<Rightarrow>
                             walk m follow f
                               (if prefix ''/'' (node_target nd') then [] else cur)
                               (path_comps (node_target nd') @ cs))
                 else walk n follow f (cur @ [c]) cs))"

definition max_symlinks :: nat where
  "max_symlinks = 40"

definition locate :: "bool \<Rightarrow> fs \<Rightarrow> path \<Rightarrow> io_kind + path" where
  "locate follow f p = walk max_symlinks follow f [] p"

section \<open>Kernel calls\<close>

definition k_stat :: "bool \<Rightarrow> path \<Rightarrow> fs \<Rightarrow> (io_kind + node) \<times> fs" where
  "k_stat follow p f =
     ((case locate follow f p of
         Inl e \<Rightarrow> Inl e
       | Inr q \<Rightarrow> (case node_at f q of None \<Rightarrow> Inl NotFound | Some nd \<Rightarrow> Inr nd)), f)"

definition k_read :: "path \<Rightarrow> fs \<Rightarrow> (io_kind + bytes) \<times> fs" where
  "k_read p f =
     ((case locate True f p of
         Inl e \<Rightarrow> Inl e
       | Inr q \<Rightarrow>
           (case node_at f q of
              None \<Rightarrow> Inl NotFound
            | Some (File b m) \<Rightarrow> Inr b
            | Some (Dir m) \<Rightarrow> Inl IsADirectory
            | Some _ \<Rightarrow> Inl OtherIo)), f)"

definition k_mkdir :: "mode \<Rightarrow> path \<Rightarrow> fs \<Rightarrow> (io_kind + unit) \<times> fs" where
  "k_mkdir m p f =
     (case locate False f p of
        Inl e \<Rightarrow> (Inl e, f)
      | Inr q \<Rightarrow>
          (case node_at f q of
             Some _ \<Rightarrow> (Inl AlreadyExists, f)
           | None \<Rightarrow> (Inr (), AList.update q (Dir m) f)))"

text \<open>Writing through an open handle of the file at location \<open>q\<close>, and \<open>fchmod\<close> on it.\<close>

definition k_write :: "path \<Rightarrow> bytes \<Rightarrow> fs \<Rightarrow> (io_kind + unit) \<times> fs" where
  "k_write q b f =
     (case node_at f q of
        Some (File _ m) \<Rightarrow> (Inr (), AList.update q (File b m) f)
      | _ \<Rightarrow> (Inl OtherIo, f))"

fun set_mode :: "mode \<Rightarrow> node \<Rightarrow> node" where
  "set_mode m (File b _) = File b m"
| "set_mode m (Dir _) = Dir m"
| "set_mode m (Socket _) = Socket m"
| "set_mode m (Symlink t) = Symlink t"

definition k_chmod :: "path \<Rightarrow> mode \<Rightarrow> fs \<Rightarrow> (io_kind + unit) \<times> fs" where
  "k_chmod p m f =
     (case locate True f p of
        Inl e \<Rightarrow> (Inl e, f)
      | Inr q \<Rightarrow>
          (case node_at f q of
             None \<Rightarrow> (Inl NotFound, f)
           | Some nd \<Rightarrow> (Inr (), if q = [] then f else AList.update q (set_mode m nd) f)))"

definition k_fstat :: "path \<Rightarrow> fs \<Rightarrow> (io_kind + node) \<times> fs" where
  "k_fstat q f = ((case node_at f q of None \<Rightarrow> Inl OtherIo | Some nd \<Rightarrow> Inr nd), f)"

definition k_fchmod :: "path \<Rightarrow> mode \<Rightarrow> fs \<Rightarrow> (io_kind + unit) \<times> fs" where
  "k_fchmod q m f =
     (case node_at f q of
        Some (File b _) \<Rightarrow> (Inr (), AList.update q (File b m) f)
      | _ \<Rightarrow> (Inl OtherIo, f))"

text \<open>
  \<open>rename(2)\<close> of a non-directory: the target is replaced atomically.  The program renames
  regular files only.
\<close>

definition k_rename :: "path \<Rightarrow> path \<Rightarrow> fs \<Rightarrow> (io_kind + unit) \<times> fs" where
  "k_rename a b f =
     (case locate False f a of
        Inl e \<Rightarrow> (Inl e, f)
      | Inr qa \<Rightarrow>
          (case node_at f qa of
             None \<Rightarrow> (Inl NotFound, f)
           | Some nd \<Rightarrow>
               if is_dir nd then (Inl IsADirectory, f)
               else (case locate False f b of
                       Inl e \<Rightarrow> (Inl e, f)
                     | Inr qb \<Rightarrow>
                         (case node_at f qb of
                            Some (Dir m) \<Rightarrow> (Inl IsADirectory, f)
                          | _ \<Rightarrow> (Inr (), AList.update qb nd (AList.delete qa f))))))"

definition k_remove_file :: "path \<Rightarrow> fs \<Rightarrow> (io_kind + unit) \<times> fs" where
  "k_remove_file p f =
     (case locate False f p of
        Inl e \<Rightarrow> (Inl e, f)
      | Inr q \<Rightarrow>
          (case node_at f q of
             None \<Rightarrow> (Inl NotFound, f)
           | Some nd \<Rightarrow> if is_dir nd then (Inl IsADirectory, f) else (Inr (), AList.delete q f)))"

text \<open>\<open>open(O_RDWR|O_CREAT)\<close> without truncation: the location of the opened file.\<close>

definition k_open_create :: "mode \<Rightarrow> path \<Rightarrow> fs \<Rightarrow> (io_kind + path) \<times> fs" where
  "k_open_create m p f =
     (case locate True f p of
        Inl e \<Rightarrow> (Inl e, f)
      | Inr q \<Rightarrow>
          (case node_at f q of
             None \<Rightarrow> (Inr q, AList.update q (File '''' m) f)
           | Some (File b m') \<Rightarrow> (Inr q, f)
           | Some (Dir m') \<Rightarrow> (Inl IsADirectory, f)
           | Some _ \<Rightarrow> (Inl OtherIo, f)))"

definition k_read_dir :: "path \<Rightarrow> fs \<Rightarrow> (io_kind + str list) \<times> fs" where
  "k_read_dir p f =
     ((case locate True f p of
         Inl e \<Rightarrow> Inl e
       | Inr q \<Rightarrow>
           (case node_at f q of
              None \<Rightarrow> Inl NotFound
            | Some nd \<Rightarrow>
                if is_dir nd
                then Inr (map last (filter (\<lambda>r. r \<noteq> [] \<and> butlast r = q) (map fst f)))
                else Inl NotADirectory)), f)"

definition k_canonicalize :: "path \<Rightarrow> fs \<Rightarrow> (io_kind + path) \<times> fs" where
  "k_canonicalize p f =
     ((case locate True f p of
         Inl e \<Rightarrow> Inl e
       | Inr q \<Rightarrow> (case node_at f q of None \<Rightarrow> Inl NotFound | Some _ \<Rightarrow> Inr q)), f)"

section \<open>The host state and system calls with faults\<close>

record world =
  fs :: fs
  faults :: "bool list"
  umask :: mode
  mono_ms :: nat                       \<comment> \<open>\<open>Instant\<close>, in milliseconds\<close>
  sys_time :: "(nat \<times> nat) option"     \<comment> \<open>seconds and nanoseconds since the epoch; \<open>None\<close>: before it\<close>

definition syscall ::
  "(fs \<Rightarrow> (io_kind + 'a) \<times> fs) \<Rightarrow> 'z world_scheme \<Rightarrow> (io_kind + 'a) \<times> 'z world_scheme" where
  "syscall op w =
     (case faults w of
        True # rest \<Rightarrow> (Inl OtherIo, w\<lparr>faults := rest\<rparr>)
      | _ \<Rightarrow> (case op (fs w) of (r, f') \<Rightarrow> (r, w\<lparr>fs := f', faults := tl (faults w)\<rparr>)))"

definition symlink_metadata :: "path \<Rightarrow> 'z world_scheme \<Rightarrow> (io_kind + node) \<times> 'z world_scheme" where
  "symlink_metadata p = syscall (k_stat False p)"

definition metadata :: "path \<Rightarrow> 'z world_scheme \<Rightarrow> (io_kind + node) \<times> 'z world_scheme" where
  "metadata p = syscall (k_stat True p)"

text \<open>\<open>Path::exists\<close> and \<open>Path::is_dir\<close>: any error counts as false.\<close>

definition path_exists :: "path \<Rightarrow> 'z world_scheme \<Rightarrow> bool \<times> 'z world_scheme" where
  "path_exists p w = (case metadata p w of (Inl _, w') \<Rightarrow> (False, w') | (Inr _, w') \<Rightarrow> (True, w'))"

definition path_is_dir :: "path \<Rightarrow> 'z world_scheme \<Rightarrow> bool \<times> 'z world_scheme" where
  "path_is_dir p w = (case metadata p w of (Inl _, w') \<Rightarrow> (False, w') | (Inr nd, w') \<Rightarrow> (is_dir nd, w'))"

definition fs_read :: "path \<Rightarrow> 'z world_scheme \<Rightarrow> (io_kind + bytes) \<times> 'z world_scheme" where
  "fs_read p = syscall (k_read p)"

definition fs_mkdir :: "path \<Rightarrow> 'z world_scheme \<Rightarrow> (io_kind + unit) \<times> 'z world_scheme" where
  "fs_mkdir p w = syscall (k_mkdir (511 AND NOT (umask w)) p) w"

definition fs_write :: "path \<Rightarrow> bytes \<Rightarrow> 'z world_scheme \<Rightarrow> (io_kind + unit) \<times> 'z world_scheme" where
  "fs_write q b = syscall (k_write q b)"

definition set_permissions :: "path \<Rightarrow> mode \<Rightarrow> 'z world_scheme \<Rightarrow> (io_kind + unit) \<times> 'z world_scheme" where
  "set_permissions p m = syscall (k_chmod p m)"

definition fs_fstat :: "path \<Rightarrow> 'z world_scheme \<Rightarrow> (io_kind + node) \<times> 'z world_scheme" where
  "fs_fstat q = syscall (k_fstat q)"

definition fs_fchmod :: "path \<Rightarrow> mode \<Rightarrow> 'z world_scheme \<Rightarrow> (io_kind + unit) \<times> 'z world_scheme" where
  "fs_fchmod q m = syscall (k_fchmod q m)"

definition fs_rename :: "path \<Rightarrow> path \<Rightarrow> 'z world_scheme \<Rightarrow> (io_kind + unit) \<times> 'z world_scheme" where
  "fs_rename a b = syscall (k_rename a b)"

definition remove_file :: "path \<Rightarrow> 'z world_scheme \<Rightarrow> (io_kind + unit) \<times> 'z world_scheme" where
  "remove_file p = syscall (k_remove_file p)"

definition read_dir :: "path \<Rightarrow> 'z world_scheme \<Rightarrow> (io_kind + str list) \<times> 'z world_scheme" where
  "read_dir p = syscall (k_read_dir p)"

definition canonicalize :: "path \<Rightarrow> 'z world_scheme \<Rightarrow> (io_kind + path) \<times> 'z world_scheme" where
  "canonicalize p = syscall (k_canonicalize p)"

text \<open>
  \<open>std::fs::create_dir_all\<close>: try to make the directory; on \<open>NotFound\<close> make the parent first and
  retry; a failure on a path that is already a directory is a success.  The path is given
  reversed, so that the recursion on the parent is structural.
\<close>

definition mkdir_or_dir :: "path \<Rightarrow> 'z world_scheme \<Rightarrow> (io_kind + unit) \<times> 'z world_scheme" where
  "mkdir_or_dir p w =
     (case fs_mkdir p w of
        (Inr u, w1) \<Rightarrow> (Inr u, w1)
      | (Inl e, w1) \<Rightarrow>
          (case path_is_dir p w1 of (True, w2) \<Rightarrow> (Inr (), w2) | (False, w2) \<Rightarrow> (Inl e, w2)))"

fun create_dir_all_rev :: "str list \<Rightarrow> 'z world_scheme \<Rightarrow> (io_kind + unit) \<times> 'z world_scheme" where
  "create_dir_all_rev [] w = mkdir_or_dir [] w"
| "create_dir_all_rev (c # rc) w =
     (case fs_mkdir (rev (c # rc)) w of
        (Inr u, w1) \<Rightarrow> (Inr u, w1)
      | (Inl e, w1) \<Rightarrow>
          if e = NotFound then
            (case create_dir_all_rev rc w1 of
               (Inl e', w2) \<Rightarrow> (Inl e', w2)
             | (Inr u, w2) \<Rightarrow> mkdir_or_dir (rev (c # rc)) w2)
          else
            (case path_is_dir (rev (c # rc)) w1 of
               (True, w2) \<Rightarrow> (Inr (), w2)
             | (False, w2) \<Rightarrow> (Inl e, w2)))"

definition create_dir_all :: "path \<Rightarrow> 'z world_scheme \<Rightarrow> (io_kind + unit) \<times> 'z world_scheme" where
  "create_dir_all p = create_dir_all_rev (rev p)"

text \<open>\<open>SystemTime::now().duration_since(UNIX_EPOCH)\<close> as \<open>i64\<close> seconds, 0 before the epoch.\<close>

definition epoch_secs :: "'z world_scheme \<Rightarrow> int" where
  "epoch_secs w = (case sys_time w of None \<Rightarrow> 0 | Some (s, ns) \<Rightarrow> sint (word_of_nat s :: 64 word))"

definition subsec_nanos :: "'z world_scheme \<Rightarrow> nat" where
  "subsec_nanos w = (case sys_time w of None \<Rightarrow> 0 | Some (s, ns) \<Rightarrow> ns)"

end
