(* ===== verification/Fs_Laws.thy ===== *)
theory Fs_Laws
  imports Std_Fs
begin

text \<open>
  The laws of the file-system model that the component proofs share: well-formed file systems
  and their preservation, name resolution on paths without symbolic links (\<open>plain\<close>), and the
  effect of each system call on such paths, faults included.
\<close>

named_theorems sys_elims \<open>inversion of the system calls on a result\<close>

section \<open>Elementary facts\<close>

lemma node_at_Nil [simp]: "node_at f [] = Some (Dir 493)"
  by (simp add: node_at_def)

lemma node_at_update [simp]:
  "q \<noteq> [] \<Longrightarrow> node_at (AList.update q n f) p = (if p = q then Some n else node_at f p)"
  by (simp add: node_at_def)

lemma node_at_delete [simp]:
  "q \<noteq> [] \<Longrightarrow> node_at (AList.delete q f) p = (if p = q then None else node_at f p)"
  by (simp add: node_at_def)

lemma node_at_empty: "node_at [] p = (if p = [] then Some (Dir 493) else None)"
  by (simp add: node_at_def)

definition dir_at :: "fs \<Rightarrow> path \<Rightarrow> bool" where
  "dir_at f p \<longleftrightarrow> (\<exists>m. node_at f p = Some (Dir m))"

lemma is_dir_iff: "is_dir nd \<longleftrightarrow> (\<exists>m. nd = Dir m)"
  by (cases nd) auto

lemma is_symlink_iff: "is_symlink nd \<longleftrightarrow> (\<exists>t. nd = Symlink t)"
  by (cases nd) auto

text \<open>Evaluation does not search for the mode.\<close>

lemma dir_at_code [code]: "dir_at f p = (case node_at f p of Some nd \<Rightarrow> is_dir nd | None \<Rightarrow> False)"
  by (auto simp: dir_at_def is_dir_iff split: option.split)

lemma dir_at_Nil [simp]: "dir_at f []"
  by (simp add: dir_at_def)

text \<open>
  A well-formed file system: the locations are pairwise distinct, and the parent of every node
  is a directory.
\<close>

definition wf_fs :: "fs \<Rightarrow> bool" where
  "wf_fs f \<longleftrightarrow> distinct (map fst f) \<and> (\<forall>p. p \<noteq> [] \<longrightarrow> node_at f p \<noteq> None \<longrightarrow> dir_at f (butlast p))"

lemma wf_fs_parent: "wf_fs f \<Longrightarrow> p \<noteq> [] \<Longrightarrow> node_at f p \<noteq> None \<Longrightarrow> dir_at f (butlast p)"
  by (simp add: wf_fs_def)

lemma wf_fs_empty [simp]: "wf_fs []"
  by (simp add: wf_fs_def node_at_empty)

lemma wf_fs_update:
  assumes "wf_fs f" "q \<noteq> []" "dir_at f (butlast q)" "dir_at f q \<longrightarrow> is_dir nd"
  shows "wf_fs (AList.update q nd f)"
proof -
  have "dir_at (AList.update q nd f) (butlast p)"
    if "p \<noteq> []" "node_at (AList.update q nd f) p \<noteq> None" for p
  proof (cases "p = q")
    case True
    moreover have "butlast q \<noteq> q" using assms(2) by (metis append_butlast_last_id not_Cons_self2 self_append_conv)
    ultimately show ?thesis using assms by (auto simp: dir_at_def)
  next
    case False
    then have "dir_at f (butlast p)" using assms that by (auto simp: wf_fs_def)
    then show ?thesis using assms(2,4) by (cases "butlast p = q") (auto simp: dir_at_def is_dir_iff)
  qed
  then show ?thesis using assms(1) by (simp add: wf_fs_def distinct_update)
qed

lemma wf_fs_delete:
  assumes "wf_fs f" "q \<noteq> []" "\<not> dir_at f q"
  shows "wf_fs (AList.delete q f)"
  using assms by (auto simp: wf_fs_def distinct_delete dir_at_def)

text \<open>In a well-formed file system every proper prefix of an existing location is a directory.\<close>

lemma wf_fs_prefix_dir:
  "wf_fs f \<Longrightarrow> node_at f (p @ q) \<noteq> None \<Longrightarrow> q \<noteq> [] \<Longrightarrow> dir_at f p"
proof (induction q rule: rev_induct)
  case (snoc x xs)
  then have d: "dir_at f (p @ xs)" using wf_fs_parent [of f "p @ xs @ [x]"] by (simp add: butlast_append)
  show ?case
  proof (cases "xs = []")
    case False
    then show ?thesis using snoc.IH [OF snoc.prems(1) _ False] d by (auto simp: dir_at_def)
  qed (use d in simp)
qed simp

lemma wf_fs_missing_below:
  "wf_fs f \<Longrightarrow> node_at f p = None \<Longrightarrow> node_at f (p @ q) = None"
  using wf_fs_prefix_dir [of f p q]
  by (cases "q = []"; cases "node_at f (p @ q)") (auto simp: dir_at_def)

section \<open>Resolution without symbolic links\<close>

text \<open>A location that is reached through directories only: a canonical directory path.\<close>

definition real_dir :: "fs \<Rightarrow> path \<Rightarrow> bool" where
  "real_dir f p \<longleftrightarrow> dir_at f p \<and> (\<forall>c\<in>set p. normal c)"

text \<open>
  \<open>plain f p\<close>: every component is ordinary, the proper prefixes that exist are directories and
  the last component, if it exists, is no symbolic link.
\<close>

definition plain :: "fs \<Rightarrow> path \<Rightarrow> bool" where
  "plain f p \<longleftrightarrow>
     (\<forall>c\<in>set p. normal c)
     \<and> (\<forall>q r. p = q @ r \<longrightarrow> r \<noteq> [] \<longrightarrow> node_at f q \<noteq> None \<longrightarrow> dir_at f q)
     \<and> (\<forall>t. node_at f p \<noteq> Some (Symlink t))"

lemma plain_Nil [simp]: "plain f []"
  by (simp add: plain_def)

lemma plain_dirD: "plain f (q @ r) \<Longrightarrow> r \<noteq> [] \<Longrightarrow> node_at f q = Some nd \<Longrightarrow> dir_at f q"
  by (simp add: plain_def)

lemma plain_prefix:
  assumes "plain f (p @ q)"
  shows "plain f p"
proof (cases "q = []")
  case False
  have "node_at f p \<noteq> Some (Symlink t)" for t
    using plain_dirD [OF assms False] by (auto simp: dir_at_def)
  moreover have "dir_at f a" if "p = a @ b" "b \<noteq> []" "node_at f a \<noteq> None" for a b
    using plain_dirD [of f a "b @ q"] assms that by auto
  ultimately show ?thesis using assms by (auto simp: plain_def)
qed (use assms in simp)

lemma real_dir_plain:
  assumes "wf_fs f" "real_dir f p"
  shows "plain f p"
proof -
  have d: "dir_at f p" using assms(2) by (simp add: real_dir_def)
  have "dir_at f a" if "p = a @ b" "b \<noteq> []" for a b
    using wf_fs_prefix_dir [OF assms(1), of a b] d that by (auto simp: dir_at_def)
  then show ?thesis using assms(2) d by (auto simp: plain_def real_dir_def dir_at_def)
qed

lemma walk_plain_step:
  assumes "normal c" "dir_at f cur" "\<forall>t. node_at f (cur @ [c]) \<noteq> Some (Symlink t)"
  shows "walk n fl f cur (c # cs) =
           (if node_at f (cur @ [c]) = None then (if cs = [] then Inr (cur @ [c]) else Inl NotFound)
            else walk n fl f (cur @ [c]) cs)"
  using assms by (auto simp: normal_def dir_at_def is_symlink_iff split: option.splits)

lemma walk_plain:
  assumes wf: "wf_fs f"
  shows "plain f (cur @ cs) \<Longrightarrow> dir_at f cur \<Longrightarrow> cs \<noteq> [] \<Longrightarrow>
           walk n fl f cur cs =
             (if dir_at f (cur @ butlast cs) then Inr (cur @ cs) else Inl NotFound)"
proof (induction cs arbitrary: cur)
  case (Cons c cs)
  have pl: "plain f (cur @ [c])" using Cons.prems(1) plain_prefix [of f "cur @ [c]" cs] by simp
  have nc: "normal c" using Cons.prems(1) by (simp add: plain_def)
  have ns: "\<forall>t. node_at f (cur @ [c]) \<noteq> Some (Symlink t)" using pl by (simp add: plain_def)
  note step = walk_plain_step [OF nc Cons.prems(2) ns, of n fl cs]
  show ?case
  proof (cases "cs = []")
    case True
    then show ?thesis using step Cons.prems(2) by (cases "node_at f (cur @ [c])") auto
  next
    case False
    show ?thesis
    proof (cases "node_at f (cur @ [c])")
      case None
      then have "\<not> dir_at f (cur @ butlast (c # cs))"
        using wf_fs_missing_below [OF wf None, of "butlast cs"] False by (simp add: dir_at_def)
      then show ?thesis using step None False by simp
    next
      case (Some nd)
      then have "dir_at f (cur @ [c])"
        using plain_dirD [of f "cur @ [c]" cs] Cons.prems(1) False by simp
      then show ?thesis using step Some False Cons.IH [of "cur @ [c]"] Cons.prems(1) by simp
    qed
  qed
qed simp

lemma locate_plain:
  "wf_fs f \<Longrightarrow> plain f p \<Longrightarrow> p \<noteq> [] \<Longrightarrow>
     locate fl f p = (if dir_at f (butlast p) then Inr p else Inl NotFound)"
  using walk_plain [of f "[]" p max_symlinks fl] by (simp add: locate_def)

lemma locate_Nil [simp]: "locate fl f [] = Inr []"
  by (simp add: locate_def)

lemma locate_plain_dir:
  "wf_fs f \<Longrightarrow> real_dir f p \<Longrightarrow> locate fl f p = Inr p"
  using locate_plain [of f p fl] real_dir_plain [of f p] wf_fs_parent [of f p]
  by (cases "p = []") (auto simp: real_dir_def dir_at_def)

lemma plain_parent_dir:
  "wf_fs f \<Longrightarrow> plain f p \<Longrightarrow> node_at f p \<noteq> None \<Longrightarrow> p \<noteq> [] \<Longrightarrow> dir_at f (butlast p)"
  by (rule wf_fs_parent)

text \<open>Statting, reading and unlinking a plain path act on that very location.\<close>

lemma k_stat_plain:
  assumes "wf_fs f" "plain f p"
  shows "k_stat fl p f = ((case node_at f p of None \<Rightarrow> Inl NotFound | Some nd \<Rightarrow> Inr nd), f)"
proof (cases "p = []")
  case False
  then show ?thesis
    using locate_plain [OF assms False, of fl] wf_fs_parent [OF assms(1) False]
    by (auto simp: k_stat_def split: option.splits)
qed (simp add: k_stat_def)

lemma k_read_plain:
  assumes "wf_fs f" "plain f p"
  shows "k_read p f =
     ((case node_at f p of
         None \<Rightarrow> Inl NotFound | Some (File b m) \<Rightarrow> Inr b
       | Some (Dir m) \<Rightarrow> Inl IsADirectory | Some _ \<Rightarrow> Inl OtherIo), f)"
proof (cases "p = []")
  case False
  then show ?thesis
    using locate_plain [OF assms False, of True] wf_fs_parent [OF assms(1) False]
    by (auto simp: k_read_def split: option.splits node.splits)
qed (simp add: k_read_def)

lemma k_remove_file_plain:
  assumes "wf_fs f" "plain f p"
  shows "k_remove_file p f =
     (case node_at f p of
        None \<Rightarrow> (Inl NotFound, f)
      | Some nd \<Rightarrow> if is_dir nd then (Inl IsADirectory, f) else (Inr (), AList.delete p f))"
proof (cases "p = []")
  case False
  then show ?thesis
    using locate_plain [OF assms False, of False] wf_fs_parent [OF assms(1) False]
    by (auto simp: k_remove_file_def split: option.splits)
qed (simp add: k_remove_file_def)

lemma k_mkdir_plain:
  assumes "wf_fs f" "plain f p"
  shows "k_mkdir m p f =
     (case node_at f p of
        Some _ \<Rightarrow> (Inl AlreadyExists, f)
      | None \<Rightarrow> if dir_at f (butlast p) then (Inr (), AList.update p (Dir m) f) else (Inl NotFound, f))"
proof (cases "p = []")
  case False
  then show ?thesis
    using locate_plain [OF assms False, of False] wf_fs_parent [OF assms(1) False]
    by (auto simp: k_mkdir_def split: option.splits)
qed (simp add: k_mkdir_def)

section \<open>System calls\<close>

text \<open>
  A sequence of system calls touches only the file system and the fault script, and a script without
  faults stays so.
\<close>

definition fs_step :: "'z world_scheme \<Rightarrow> 'z world_scheme \<Rightarrow> bool" where
  "fs_step w w' \<longleftrightarrow> w' = w\<lparr>fs := fs w', faults := faults w'\<rparr> \<and> (faults w = [] \<longrightarrow> faults w' = [])"

lemma fs_step_refl [simp]: "fs_step w w"
  by (simp add: fs_step_def)

lemma fs_step_quiet: "fs_step w w' \<Longrightarrow> faults w = [] \<Longrightarrow> faults w' = []"
  by (simp add: fs_step_def)

lemma fs_step_trans [trans]: "fs_step w1 w2 \<Longrightarrow> fs_step w2 w3 \<Longrightarrow> fs_step w1 w3"
  unfolding fs_step_def by (metis (no_types, lifting) world.surjective world.update_convs(1,2))

lemma fs_step_fields:
  "fs_step w w' \<Longrightarrow> umask w' = umask w \<and> mono_ms w' = mono_ms w \<and> sys_time w' = sys_time w
     \<and> world.more w' = world.more w"
  unfolding fs_step_def
  by (metis world.select_convs(3,4,5,6) world.surjective world.update_convs(1,2))

lemma syscall_inv:
  "syscall op w = (r, w') \<Longrightarrow>
     fs_step w w' \<and> ((r = Inl OtherIo \<and> fs w' = fs w) \<or> op (fs w) = (r, fs w'))"
  by (auto simp: syscall_def fs_step_def split: list.splits bool.splits prod.splits)

lemma syscall_no_fault:
  "faults w = [] \<Longrightarrow> syscall op w = (fst (op (fs w)), w\<lparr>fs := snd (op (fs w))\<rparr>)"
  by (simp add: syscall_def split_beta)

lemma syscall_readonly:
  assumes "syscall op w = (r, w')" "\<And>f. snd (op f) = f"
  shows "fs_step w w'" "fs w' = fs w" "r = Inl OtherIo \<or> r = fst (op (fs w))"
proof -
  show "fs_step w w'" using syscall_inv [OF assms(1)] by simp
  show "fs w' = fs w" using syscall_inv [OF assms(1)] assms(2) [of "fs w"] by (metis snd_conv)
  show "r = Inl OtherIo \<or> r = fst (op (fs w))" using syscall_inv [OF assms(1)] by (metis fst_conv)
qed

lemma k_stat_readonly [simp]: "snd (k_stat b p f) = f"
  and k_read_readonly [simp]: "snd (k_read p f) = f"
  and k_fstat_readonly [simp]: "snd (k_fstat p f) = f"
  and k_read_dir_readonly [simp]: "snd (k_read_dir p f) = f"
  and k_canonicalize_readonly [simp]: "snd (k_canonicalize p f) = f"
  by (simp_all add: k_stat_def k_read_def k_fstat_def k_read_dir_def k_canonicalize_def)

lemma symlink_metadata_inv:
  assumes "symlink_metadata p w = (r, w')"
  shows "fs_step w w' \<and> fs w' = fs w \<and> (r = Inl OtherIo \<or> r = fst (k_stat False p (fs w)))"
  using syscall_readonly [of "k_stat False p" w r w'] assms by (simp add: symlink_metadata_def)

lemma metadata_inv:
  assumes "metadata p w = (r, w')"
  shows "fs_step w w' \<and> fs w' = fs w \<and> (r = Inl OtherIo \<or> r = fst (k_stat True p (fs w)))"
  using syscall_readonly [of "k_stat True p" w r w'] assms by (simp add: metadata_def)

lemma path_exists_inv:
  assumes "path_exists p w = (b, w')"
  shows "fs_step w w' \<and> fs w' = fs w \<and> (b \<longrightarrow> (\<exists>nd. fst (k_stat True p (fs w)) = Inr nd))"
proof -
  obtain r w1 where m: "metadata p w = (r, w1)" by fastforce
  then show ?thesis using assms metadata_inv [OF m]
    by (cases r) (auto simp: path_exists_def intro: sym)
qed

lemma path_is_dir_inv:
  assumes "path_is_dir p w = (b, w')"
  shows "fs_step w w' \<and> fs w' = fs w \<and> (b \<longrightarrow> (\<exists>m. fst (k_stat True p (fs w)) = Inr (Dir m)))"
proof -
  obtain r w1 where m: "metadata p w = (r, w1)" by fastforce
  then show ?thesis using assms metadata_inv [OF m]
    by (cases r) (auto simp: path_is_dir_def is_dir_iff intro: sym)
qed

lemma fs_read_inv:
  assumes "fs_read p w = (r, w')"
  shows "fs_step w w' \<and> fs w' = fs w \<and> (r = Inl OtherIo \<or> r = fst (k_read p (fs w)))"
  using syscall_readonly [of "k_read p" w r w'] assms by (simp add: fs_read_def)

lemma remove_file_inv:
  assumes "remove_file p w = (r, w')" "wf_fs (fs w)" "plain (fs w) p"
  shows "fs_step w w' \<and>
     ((\<exists>e. r = Inl e \<and> fs w' = fs w \<and> (e = NotFound \<longleftrightarrow> node_at (fs w) p = None \<and> e \<noteq> OtherIo))
      \<or> (\<exists>nd. r = Inr () \<and> node_at (fs w) p = Some nd \<and> \<not> is_dir nd \<and> fs w' = AList.delete p (fs w)))"
  using assms syscall_inv [of "k_remove_file p" w r w'] k_remove_file_plain [OF assms(2,3)]
  by (auto simp: remove_file_def split: option.splits if_splits)

section \<open>Making directories\<close>

definition dir_path :: "fs \<Rightarrow> path \<Rightarrow> bool" where
  "dir_path f p \<longleftrightarrow> (\<forall>c\<in>set p. normal c) \<and> (\<forall>q. prefix q p \<longrightarrow> node_at f q \<noteq> None \<longrightarrow> dir_at f q)"

definition dirs_added :: "path \<Rightarrow> fs \<Rightarrow> fs \<Rightarrow> bool" where
  "dirs_added p f f' \<longleftrightarrow>
     (\<forall>q. node_at f' q = node_at f q \<or> (node_at f q = None \<and> prefix q p \<and> dir_at f' q))"

lemma dirs_added_refl [simp]: "dirs_added p f f"
  by (simp add: dirs_added_def)

lemma dirs_added_trans: "dirs_added p f f' \<Longrightarrow> dirs_added p f' f'' \<Longrightarrow> dirs_added p f f''"
  unfolding dirs_added_def dir_at_def by metis

lemma dirs_added_mono: "dirs_added p f f' \<Longrightarrow> prefix p q \<Longrightarrow> dirs_added q f f'"
  unfolding dirs_added_def using prefix_order.trans by blast

lemma dirs_added_keeps: "dirs_added p f f' \<Longrightarrow> node_at f q = Some nd \<Longrightarrow> node_at f' q = Some nd"
  unfolding dirs_added_def by (metis option.discI)

lemma dir_path_plain: "dir_path f p \<Longrightarrow> plain f p"
proof -
  assume d: "dir_path f p"
  have "dir_at f q" if "p = q @ r" "node_at f q \<noteq> None" for q r
    using d that by (simp add: dir_path_def)
  moreover have "node_at f p \<noteq> Some (Symlink t)" for t
    using d unfolding dir_path_def dir_at_def by (metis node.distinct(7) option.discI option.inject prefix_order.refl)
  ultimately show ?thesis using d by (auto simp: plain_def dir_path_def)
qed

lemma dir_path_prefix: "dir_path f p \<Longrightarrow> prefix q p \<Longrightarrow> dir_path f q"
  unfolding dir_path_def by (meson prefix_order.trans set_mono_prefix subsetD)

lemma dir_path_dirs_added: "dir_path f p \<Longrightarrow> dirs_added q f f' \<Longrightarrow> dir_path f' p"
  unfolding dir_path_def dirs_added_def dir_at_def by metis

lemma fs_mkdir_plain:
  assumes "fs_mkdir p w = (r, w')" "wf_fs (fs w)" "plain (fs w) p"
  shows "fs_step w w' \<and> wf_fs (fs w') \<and>
     ((r = Inr () \<and> dirs_added p (fs w) (fs w') \<and> dir_at (fs w') p)
      \<or> (\<exists>e. r = Inl e \<and> fs w' = fs w))"
proof -
  let ?m = "511 AND NOT (umask w)"
  have inv: "fs_step w w'"
    "(r = Inl OtherIo \<and> fs w' = fs w) \<or> k_mkdir ?m p (fs w) = (r, fs w')"
    using syscall_inv [of "k_mkdir ?m p" w r w'] assms(1) by (simp_all add: fs_mkdir_def)
  show ?thesis
  proof (cases "node_at (fs w) p = None \<and> dir_at (fs w) (butlast p)")
    case True
    then have p: "p \<noteq> []" by auto
    have "wf_fs (AList.update p (Dir ?m) (fs w))"
      using wf_fs_update [OF assms(2) p] True by auto
    moreover have "dirs_added p (fs w) (AList.update p (Dir ?m) (fs w))"
      using True p by (auto simp: dirs_added_def dir_at_def)
    moreover have "dir_at (AList.update p (Dir ?m) (fs w)) p"
      using p by (simp add: dir_at_def)
    ultimately show ?thesis
      using inv k_mkdir_plain [OF assms(2,3), of ?m] True assms(2) by auto
  next
    case False
    then show ?thesis
      using inv k_mkdir_plain [OF assms(2,3), of ?m] assms(2) by (auto split: option.splits if_splits)
  qed
qed

lemma path_is_dir_plain:
  assumes "path_is_dir p w = (b, w')" "wf_fs (fs w)" "plain (fs w) p"
  shows "fs_step w w' \<and> fs w' = fs w \<and> (b \<longrightarrow> dir_at (fs w) p)"
  using path_is_dir_inv [OF assms(1)] k_stat_plain [OF assms(2,3), of True]
  by (auto simp: dir_at_def split: option.splits)

text \<open>The contract of \<open>create_dir_all\<close>: it adds missing directories on its path and nothing else.\<close>

definition mkdirs_post :: "path \<Rightarrow> 'z world_scheme \<Rightarrow> (io_kind + unit) \<times> 'z world_scheme \<Rightarrow> bool" where
  "mkdirs_post p w res \<longleftrightarrow>
     fs_step w (snd res) \<and> wf_fs (fs (snd res)) \<and> dirs_added p (fs w) (fs (snd res))
     \<and> (fst res = Inr () \<longrightarrow> dir_at (fs (snd res)) p)"

lemma mkdir_or_dir_post:
  assumes "wf_fs (fs w)" "plain (fs w) p"
  shows "mkdirs_post p w (mkdir_or_dir p w)"
proof -
  obtain r1 w1 where 1: "fs_mkdir p w = (r1, w1)" by fastforce
  note m = fs_mkdir_plain [OF 1 assms]
  show ?thesis
  proof (cases r1)
    case (Inr u)
    then show ?thesis using m 1 by (auto simp: mkdir_or_dir_def mkdirs_post_def)
  next
    case (Inl e)
    obtain b w2 where 2: "path_is_dir p w1 = (b, w2)" by fastforce
    from m Inl have s: "fs w1 = fs w" "fs_step w w1" by auto
    have "fs_step w1 w2 \<and> fs w2 = fs w1 \<and> (b \<longrightarrow> dir_at (fs w1) p)"
      by (rule path_is_dir_plain [OF 2]) (use s assms in auto)
    then show ?thesis using 1 2 Inl s assms fs_step_trans
      by (cases b) (auto simp: mkdir_or_dir_def mkdirs_post_def)
  qed
qed

lemma create_dir_all_rev_post:
  "wf_fs (fs w) \<Longrightarrow> dir_path (fs w) (rev rc) \<Longrightarrow> mkdirs_post (rev rc) w (create_dir_all_rev rc w)"
proof (induction rc arbitrary: w)
  case Nil
  then show ?case using mkdir_or_dir_post [of w "[]"] by simp
next
  case (Cons c rc)
  let ?p = "rev (c # rc)"
  have pl: "plain (fs w) ?p" by (rule dir_path_plain [OF Cons.prems(2)])
  have dp: "dir_path (fs w) (rev rc)" using dir_path_prefix [OF Cons.prems(2), of "rev rc"] by simp
  obtain r1 w1 where 1: "fs_mkdir ?p w = (r1, w1)" by fastforce
  note m = fs_mkdir_plain [OF 1 Cons.prems(1) pl]
  show ?case
  proof (cases r1)
    case (Inr u)
    then show ?thesis using m 1 by (auto simp: mkdirs_post_def)
  next
    case (Inl e)
    from m Inl have s: "fs w1 = fs w" "fs_step w w1" by auto
    show ?thesis
    proof (cases "e = NotFound")
      case True
      obtain r2 w2 where 2: "create_dir_all_rev rc w1 = (r2, w2)" by fastforce
      have "mkdirs_post (rev rc) w1 (create_dir_all_rev rc w1)"
        by (rule Cons.IH) (use s Cons.prems dp in auto)
      then have ih: "fs_step w1 w2" "wf_fs (fs w2)" "dirs_added (rev rc) (fs w) (fs w2)"
        using 2 s by (auto simp: mkdirs_post_def)
      have da: "dirs_added ?p (fs w) (fs w2)" by (rule dirs_added_mono [OF ih(3)]) simp
      have st: "fs_step w w2" using s(2) ih(1) by (rule fs_step_trans)
      show ?thesis
      proof (cases r2)
        case (Inl e')
        then show ?thesis using 1 2 \<open>r1 = Inl e\<close> True da st ih by (auto simp: mkdirs_post_def)
      next
        case (Inr u)
        have pl2: "plain (fs w2) ?p"
          by (rule dir_path_plain [OF dir_path_dirs_added [OF Cons.prems(2) da]])
        note fin = mkdir_or_dir_post [OF ih(2) pl2]
        then show ?thesis using 1 2 \<open>r1 = Inl e\<close> Inr True da st
            dirs_added_trans [of ?p "fs w" "fs w2"] fs_step_trans [of w w2]
          by (auto simp: mkdirs_post_def)
      qed
    next
      case False
      obtain b w2 where 2: "path_is_dir ?p w1 = (b, w2)" by fastforce
      have "fs_step w1 w2 \<and> fs w2 = fs w1 \<and> (b \<longrightarrow> dir_at (fs w1) ?p)"
        by (rule path_is_dir_plain [OF 2]) (use s Cons.prems pl in auto)
      then show ?thesis using 1 2 Inl s False Cons.prems fs_step_trans
        by (cases b) (auto simp: mkdirs_post_def)
    qed
  qed
qed

lemma create_dir_all_post:
  assumes "wf_fs (fs w)" "dir_path (fs w) p"
  shows "mkdirs_post p w (create_dir_all p w)"
  using create_dir_all_rev_post [of w "rev p"] assms by (simp add: create_dir_all_def)

lemma create_dir_all_inv:
  assumes "create_dir_all p w = (r, w')" "wf_fs (fs w)" "dir_path (fs w) p"
  shows "fs_step w w'" "wf_fs (fs w')" "dirs_added p (fs w) (fs w')" "dir_path (fs w') p"
    "r = Inr () \<Longrightarrow> real_dir (fs w') p"
  using create_dir_all_post [OF assms(2,3)] assms(1,3)
    dir_path_dirs_added [OF assms(3), of p "fs w'"]
  by (auto simp: mkdirs_post_def real_dir_def dir_path_def)

end
