(* ===== verification/Externals.thy ===== *)
theory Externals
  imports Fs_Laws
begin

text \<open>
  What the daemon uses of code that is not in the repository.  Each foreign crate is a record of
  functions, an argument of the definitions that call it; what the code relies on is a named
  predicate over that record, which states the crate's documented behaviour and is a hypothesis
  of the properties that need it.  Errors of the program (\<open>anyhow::Error\<close>) are values of
  \<open>err\<close>: a message, an I/O error kind, or a context around another error.  A message that ends in
  the text of another error, \<open>anyhow!("t: {e}")\<close>, is a context as well: the program shows its errors
  with \<open>{:#}\<close>, where the two read the same.
\<close>

section \<open>Errors\<close>

datatype err =
    Msg str
  | Io io_kind
  | Ctx str err

definition display :: "path \<Rightarrow> str" where
  "display p = (if p = [] then ''/'' else concat (map (\<lambda>c. CHR ''/'' # c) p))"

text \<open>\<open>Result::context\<close> on the result of a call.\<close>

definition with_context :: "str \<Rightarrow> (err + 'a) \<times> 'w \<Rightarrow> (err + 'a) \<times> 'w" where
  "with_context c res = (case res of (Inl e, w) \<Rightarrow> (Inl (Ctx c e), w) | (Inr x, w) \<Rightarrow> (Inr x, w))"

text \<open>The operator \<open>?\<close>: stop at an error, otherwise go on with the value.\<close>

definition and_then :: "(err + 'a) \<times> 'w \<Rightarrow> ('a \<Rightarrow> 'w \<Rightarrow> (err + 'b) \<times> 'w) \<Rightarrow> (err + 'b) \<times> 'w" where
  "and_then res k = (case res of (Inl e, w) \<Rightarrow> (Inl e, w) | (Inr x, w) \<Rightarrow> k x w)"

definition io_err :: "str \<Rightarrow> (io_kind + 'a) \<times> 'w \<Rightarrow> (err + 'a) \<times> 'w" where
  "io_err c res = (case res of (Inl e, w) \<Rightarrow> (Inl (Ctx c (Io e)), w) | (Inr x, w) \<Rightarrow> (Inr x, w))"

lemma and_then_simps [simp]:
  "and_then (Inl e, w) k = (Inl e, w)" "and_then (Inr x, w) k = k x w"
  by (simp_all add: and_then_def)

lemma io_err_simps [simp]:
  "io_err c (Inl e, w) = (Inl (Ctx c (Io e)), w)" "io_err c (Inr x, w) = (Inr x, w)"
  by (simp_all add: io_err_def)

lemma with_context_simps [simp]:
  "with_context c (Inl e, w) = (Inl (Ctx c e), w)" "with_context c (Inr x, w) = (Inr x, w)"
  by (simp_all add: with_context_def)

lemma and_then_Inr_iff:
  "and_then res k = (Inr y, w') \<longleftrightarrow> (\<exists>x w. res = (Inr x, w) \<and> k x w = (Inr y, w'))"
  by (auto simp: and_then_def split: prod.splits sum.splits)

lemma io_err_Inr_iff: "io_err c res = (Inr x, w) \<longleftrightarrow> res = (Inr x, w)"
  by (auto simp: io_err_def split: prod.splits sum.splits)

lemma io_err_Inl_iff: "io_err c res = (Inl e, w) \<longleftrightarrow> (\<exists>k. res = (Inl k, w) \<and> e = Ctx c (Io k))"
  by (auto simp: io_err_def split: prod.splits sum.splits)

text \<open>The same for fallible code without effects, and for the error texts of foreign crates.\<close>

definition res_bind :: "'e + 'a \<Rightarrow> ('a \<Rightarrow> 'e + 'b) \<Rightarrow> 'e + 'b" where
  "res_bind r k = (case r of Inl e \<Rightarrow> Inl e | Inr x \<Rightarrow> k x)"

definition ctx :: "str \<Rightarrow> str + 'a \<Rightarrow> err + 'a" where
  "ctx c r = (case r of Inl e \<Rightarrow> Inl (Ctx c (Msg e)) | Inr x \<Rightarrow> Inr x)"

definition ok_or :: "err \<Rightarrow> 'a option \<Rightarrow> err + 'a" where
  "ok_or e r = (case r of None \<Rightarrow> Inl e | Some x \<Rightarrow> Inr x)"

lemma res_bind_simps [simp]: "res_bind (Inl e) k = Inl e" "res_bind (Inr x) k = k x"
  by (simp_all add: res_bind_def)

lemma res_bind_Inr_iff: "res_bind r k = Inr y \<longleftrightarrow> (\<exists>x. r = Inr x \<and> k x = Inr y)"
  by (cases r) auto

lemma ctx_simps [simp]: "ctx c (Inl e) = Inl (Ctx c (Msg e))" "ctx c (Inr x) = Inr x"
  by (simp_all add: ctx_def)

lemma ctx_Inr_iff [simp]: "ctx c r = Inr x \<longleftrightarrow> r = Inr x"
  by (cases r) auto

lemma ok_or_simps [simp]: "ok_or e None = Inl e" "ok_or e (Some x) = Inr x"
  by (simp_all add: ok_or_def)

lemma ok_or_Inr_iff [simp]: "ok_or e r = Inr x \<longleftrightarrow> r = Some x"
  by (cases r) auto

section \<open>Identities\<close>

text \<open>
  \<open>iroh::EndpointId\<close> (32 bytes), \<open>iroh_blobs::Hash\<close> and \<open>iroh_blobs::BlobFormat\<close>.
\<close>

datatype endpoint_id = EndpointId "256 word"
datatype blob_hash = BlobHash bytes
datatype blob_format = Raw | HashSeq

text \<open>\<open>iroh::EndpointAddr\<close>: the id and the (opaque) relay and direct addresses.\<close>

record endpoint_addr =
  addr_id :: endpoint_id
  addr_info :: bytes

text \<open>\<open>iroh_tickets::endpoint::EndpointTicket\<close> wraps such an address.\<close>

type_synonym endpoint_ticket = endpoint_addr

record id_api =
  id_to_string :: "endpoint_id \<Rightarrow> str"
  id_from_str :: "str \<Rightarrow> str + endpoint_id"
  hash_to_string :: "blob_hash \<Rightarrow> str"
  id_fmt_short :: "endpoint_id \<Rightarrow> str"

definition id_ok :: "id_api \<Rightarrow> bool" where
  "id_ok a \<longleftrightarrow>
     (\<forall>i. id_from_str a (id_to_string a i) = Inr i)
     \<and> (\<forall>i. \<forall>c\<in>set (id_to_string a i). is_ascii_hexdigit c)
     \<and> (\<forall>i. length (id_to_string a i) = 64)"

section \<open>The crate tempfile\<close>

text \<open>
  \<open>tf_create\<close> is \<open>Builder::prefix(..).suffix(..).tempfile_in(dir)\<close>: the path of the handle and the
  location of the created file; \<open>tf_persist\<close> is \<open>NamedTempFile::persist\<close>; \<open>tf_drop\<close> is the drop
  of a handle that was not persisted.
\<close>

record tempfile_api =
  tf_create :: "path \<Rightarrow> str \<Rightarrow> str \<Rightarrow> fs \<Rightarrow> io_kind + (path \<times> path) \<times> fs"
  tf_persist :: "path \<Rightarrow> path \<Rightarrow> fs \<Rightarrow> (io_kind + unit) \<times> fs"
  tf_drop :: "path \<Rightarrow> fs \<Rightarrow> fs"

text \<open>
  Documented behaviour: a new file of mode 0600 with a name that does not exist yet, between the
  given prefix and suffix; persisting renames it; dropping unlinks it.
\<close>

definition tempfile_ok :: "tempfile_api \<Rightarrow> bool" where
  "tempfile_ok tf \<longleftrightarrow>
     (\<forall>d pre suf f p q f'. tf_create tf d pre suf f = Inr ((p, q), f') \<longrightarrow>
        (\<exists>mid l. p = d @ [pre @ mid @ suf] \<and> locate True f d = Inr l \<and> dir_at f l
           \<and> q = l @ [pre @ mid @ suf] \<and> node_at f q = None
           \<and> f' = AList.update q (File '''' 384) f))
     \<and> (\<forall>p t f. tf_persist tf p t f = k_rename p t f)
     \<and> (\<forall>p f. tf_drop tf p f = snd (k_remove_file p f))"

definition tempfile_in ::
  "tempfile_api \<Rightarrow> path \<Rightarrow> str \<Rightarrow> str \<Rightarrow> 'z world_scheme \<Rightarrow> (io_kind + path \<times> path) \<times> 'z world_scheme" where
  "tempfile_in tf d pre suf =
     syscall (\<lambda>f. case tf_create tf d pre suf f of Inl e \<Rightarrow> (Inl e, f) | Inr (h, f') \<Rightarrow> (Inr h, f'))"

definition tempfile_persist ::
  "tempfile_api \<Rightarrow> path \<Rightarrow> path \<Rightarrow> 'z world_scheme \<Rightarrow> (io_kind + unit) \<times> 'z world_scheme" where
  "tempfile_persist tf p t = syscall (tf_persist tf p t)"

definition tempfile_drop :: "tempfile_api \<Rightarrow> path \<Rightarrow> 'z world_scheme \<Rightarrow> 'z world_scheme" where
  "tempfile_drop tf p w = snd (syscall (\<lambda>f. (Inr (), tf_drop tf p f)) w)"

text \<open>
  The sequence the four writers of the program share: a temporary sibling, its content, an
  optional \<open>chmod\<close> and the rename onto the target; the handle is dropped on every error.  The
  error says at which of the steps the sequence stopped.
\<close>

datatype write_step = AtCreate | AtWrite | AtMetadata | AtChmod | AtPersist

definition tempfile_chmod ::
  "path \<Rightarrow> mode \<Rightarrow> 'z world_scheme \<Rightarrow> ((write_step \<times> io_kind) + unit) \<times> 'z world_scheme" where
  "tempfile_chmod q m w =
     (case fs_fstat q w of
        (Inl e, w1) \<Rightarrow> (Inl (AtMetadata, e), w1)
      | (Inr _, w1) \<Rightarrow>
          (case fs_fchmod q m w1 of
             (Inl e, w2) \<Rightarrow> (Inl (AtChmod, e), w2)
           | (Inr _, w2) \<Rightarrow> (Inr (), w2)))"

definition write_via_tempfile ::
  "tempfile_api \<Rightarrow> path \<Rightarrow> str \<Rightarrow> mode option \<Rightarrow> bytes \<Rightarrow> path \<Rightarrow> 'z world_scheme
     \<Rightarrow> ((write_step \<times> io_kind) + unit) \<times> 'z world_scheme" where
  "write_via_tempfile tf d pre md b target w =
     (case tempfile_in tf d pre ''.tmp'' w of
        (Inl e, w1) \<Rightarrow> (Inl (AtCreate, e), w1)
      | (Inr (p, q), w1) \<Rightarrow>
          (case fs_write q b w1 of
             (Inl e, w2) \<Rightarrow> (Inl (AtWrite, e), tempfile_drop tf p w2)
           | (Inr _, w2) \<Rightarrow>
               (case (case md of None \<Rightarrow> (Inr (), w2) | Some m \<Rightarrow> tempfile_chmod q m w2) of
                  (Inl e, w3) \<Rightarrow> (Inl e, tempfile_drop tf p w3)
                | (Inr _, w3) \<Rightarrow>
                    (case tempfile_persist tf p target w3 of
                       (Inl e, w4) \<Rightarrow> (Inl (AtPersist, e), tempfile_drop tf p w4)
                     | (Inr _, w4) \<Rightarrow> (Inr (), w4)))))"

section \<open>The blob store and the gossip layer\<close>

text \<open>
  \<open>'b\<close> is the state of the iroh stack (blob store and network).  \<open>bl_add\<close> is \<open>add_bytes\<close>,
  \<open>bl_local_complete\<close> is \<open>remote().local(content)\<close> with \<open>is_complete\<close>, \<open>bl_connect\<close> and \<open>bl_fetch\<close>
  are \<open>Endpoint::connect\<close> and \<open>remote().fetch\<close>, \<open>bl_size\<close> is the size \<open>observe(hash)\<close> reports,
  \<open>bl_read\<close> reads a whole blob, \<open>hash_new\<close> is \<open>iroh_blobs::Hash::new\<close>.
\<close>

record 'b blob_api =
  bl_add :: "bytes \<Rightarrow> 'b \<Rightarrow> (str + blob_hash) \<times> 'b"
  bl_local_complete :: "blob_hash \<Rightarrow> blob_format \<Rightarrow> 'b \<Rightarrow> str + bool"
  bl_connect :: "endpoint_id \<Rightarrow> 'b \<Rightarrow> (str + unit) \<times> 'b"
  bl_fetch :: "endpoint_id \<Rightarrow> blob_hash \<Rightarrow> blob_format \<Rightarrow> 'b \<Rightarrow> (str + unit) \<times> 'b"
  bl_size :: "blob_hash \<Rightarrow> 'b \<Rightarrow> str + nat"
  bl_read :: "blob_hash \<Rightarrow> 'b \<Rightarrow> str + bytes"
  hash_new :: "bytes \<Rightarrow> blob_hash"

text \<open>
  Documented behaviour of iroh-blobs: a blob that is read has been verified against its hash,
  its observed size is its length, and an added blob is stored under the hash of its bytes.
\<close>

definition blob_ok :: "'b blob_api \<Rightarrow> bool" where
  "blob_ok a \<longleftrightarrow>
     (\<forall>h s b. bl_read a h s = Inr b \<longrightarrow> hash_new a b = h)
     \<and> (\<forall>h s b n. bl_read a h s = Inr b \<longrightarrow> bl_size a h s = Inr n \<longrightarrow> n = length b)
     \<and> (\<forall>b s h s'. bl_add a b s = (Inr h, s') \<longrightarrow> h = hash_new a b \<and> bl_read a h s' = Inr b)"

text \<open>
  \<open>GossipSender::broadcast\<close>: the message is handed to the gossip layer, or the call fails.
\<close>

type_synonym 'b gossip_api = "bytes \<Rightarrow> 'b \<Rightarrow> (str + unit) \<times> 'b"

end
