(* ===== verification/Tempfile.thy ===== *)
theory Tempfile
  imports Externals
begin

text \<open>
  The contract of the write sequence over a temporary file: on success the target holds exactly the
  new content with the requested mode and nothing else has changed; on an error the target keeps its
  old content, and at most one new file with the temporary prefix and suffix stays behind (when
  unlinking it failed too).
\<close>

lemma walk_real_dirs:
  assumes wf: "wf_fs f"
  shows "real_dir f (cur @ cs) \<Longrightarrow> walk n fl f cur (cs @ rest) = walk n fl f (cur @ cs) rest"
proof (induction cs arbitrary: cur)
  case (Cons c cs)
  have d: "dir_at f (cur @ c # cs)" using Cons.prems by (simp add: real_dir_def)
  have dc: "dir_at f cur" using wf_fs_prefix_dir [OF wf, of cur "c # cs"] d by (auto simp: dir_at_def)
  have dcc: "dir_at f (cur @ [c])"
    using wf_fs_prefix_dir [OF wf, of "cur @ [c]" cs] d by (cases "cs = []") (auto simp: dir_at_def)
  have "normal c" using Cons.prems by (simp add: real_dir_def)
  then have "walk n fl f cur (c # (cs @ rest)) = walk n fl f (cur @ [c]) (cs @ rest)"
    using dcc walk_plain_step [of c f cur n fl "cs @ rest"] dc by (auto simp: dir_at_def)
  then show ?case using Cons.IH [of "cur @ [c]"] Cons.prems by simp
qed simp

lemma locate_child:
  assumes "wf_fs f" "real_dir f d" "normal n"
  shows "locate False f (d @ [n]) = Inr (d @ [n])"
proof -
  have "locate False f (d @ [n]) = walk max_symlinks False f d [n]"
    using walk_real_dirs [OF assms(1), of "[]" d max_symlinks False "[n]"] assms(2)
    by (simp add: locate_def)
  moreover have "walk max_symlinks False f d [n] = Inr (d @ [n])"
  proof -
    obtain m where "node_at f d = Some (Dir m)" using assms(2) by (auto simp: real_dir_def dir_at_def)
    then show ?thesis using assms(3)
      by (cases "node_at f (d @ [n])") (simp_all add: normal_def)
  qed
  ultimately show ?thesis by simp
qed

text \<open>What is left behind when a write stops half-way: at most one new file with a temporary name.\<close>

definition leftover :: "path \<Rightarrow> str \<Rightarrow> fs \<Rightarrow> fs \<Rightarrow> bool" where
  "leftover d pre f f' \<longleftrightarrow>
     node_at f' = node_at f
     \<or> (\<exists>mid b m. node_at f (d @ [pre @ mid @ ''.tmp'']) = None
           \<and> node_at f' = (node_at f)(d @ [pre @ mid @ ''.tmp''] \<mapsto> File b m))"

definition write_post ::
  "path \<Rightarrow> str \<Rightarrow> mode option \<Rightarrow> bytes \<Rightarrow> path \<Rightarrow> 'z world_scheme \<Rightarrow> ('e + unit) \<times> 'z world_scheme \<Rightarrow> bool" where
  "write_post d pre md b target w res \<longleftrightarrow>
     fs_step w (snd res) \<and> wf_fs (fs (snd res))
     \<and> (case fst res of
          Inr _ \<Rightarrow> node_at (fs (snd res)) = (node_at (fs w))(target \<mapsto> File b (case md of None \<Rightarrow> 384 | Some m \<Rightarrow> m))
                   \<and> \<not> dir_at (fs w) target
        | Inl _ \<Rightarrow> leftover d pre (fs w) (fs (snd res)))"

lemma temp_normal: "normal (pre @ mid @ ''.tmp'')"
proof -
  have "3 < length (pre @ mid @ ''.tmp'')" by simp
  then show ?thesis unfolding normal_def by force
qed

lemma tempfile_in_inv:
  assumes "tempfile_in tf d pre suf w = (r, w')"
  shows "fs_step w w' \<and>
    ((\<exists>e. r = Inl e \<and> fs w' = fs w)
     \<or> (\<exists>p q. r = Inr (p, q) \<and> tf_create tf d pre suf (fs w) = Inr ((p, q), fs w')))"
  using syscall_inv [OF assms [unfolded tempfile_in_def]] by (auto split: sum.splits)

lemma real_dir_cong: "dir_at f' d = dir_at f d \<Longrightarrow> real_dir f' d = real_dir f d"
  by (simp add: real_dir_def)

text \<open>The file system while a temporary file \<open>t\<close> with content \<open>b\<close> and mode \<open>m\<close> exists beside \<open>f\<close>.\<close>

definition with_temp :: "fs \<Rightarrow> path \<Rightarrow> bytes \<Rightarrow> mode \<Rightarrow> fs \<Rightarrow> bool" where
  "with_temp f t b m f' \<longleftrightarrow> wf_fs f' \<and> node_at f t = None \<and> node_at f' = (node_at f)(t \<mapsto> File b m)"

lemma with_temp_update:
  assumes "wf_fs f" "real_dir f d" "node_at f (d @ [n]) = None"
  shows "with_temp f (d @ [n]) b m (AList.update (d @ [n]) (File b m) f)"
  using assms wf_fs_update [of f "d @ [n]" "File b m"]
  by (auto simp: with_temp_def real_dir_def dir_at_def fun_eq_iff)

lemma with_temp_again:
  assumes "wf_fs f" "with_temp f (d @ [n]) b m f'"
  shows "with_temp f (d @ [n]) b' m' (AList.update (d @ [n]) (File b' m') f')"
proof -
  have "dir_at f' d" "\<not> dir_at f' (d @ [n])"
    using assms wf_fs_parent [of f' "d @ [n]"] by (auto simp: with_temp_def dir_at_def)
  then show ?thesis using assms wf_fs_update [of f' "d @ [n]" "File b' m'"]
    by (auto simp: with_temp_def fun_eq_iff)
qed

lemma with_temp_dir: "with_temp f (d @ [n]) b m f' \<Longrightarrow> real_dir f d \<Longrightarrow> real_dir f' d"
  by (auto simp: with_temp_def real_dir_def dir_at_def)

lemma with_temp_drop:
  assumes "with_temp f (d @ [n]) b m f'" "real_dir f d" "normal n"
  shows "wf_fs (snd (k_remove_file (d @ [n]) f'))"
    "node_at (snd (k_remove_file (d @ [n]) f')) = node_at f"
proof -
  have l: "locate False f' (d @ [n]) = Inr (d @ [n])"
    using assms by (intro locate_child with_temp_dir [OF assms(1,2)]) (auto simp: with_temp_def)
  have e: "k_remove_file (d @ [n]) f' = (Inr (), AList.delete (d @ [n]) f')"
    using assms(1) l by (simp add: k_remove_file_def with_temp_def)
  show "wf_fs (snd (k_remove_file (d @ [n]) f'))"
    using assms(1) e by (simp add: with_temp_def wf_fs_delete dir_at_def)
  show "node_at (snd (k_remove_file (d @ [n]) f')) = node_at f"
    using assms(1) e by (auto simp: with_temp_def fun_eq_iff)
qed

lemma k_rename_temp:
  assumes "with_temp f (d @ [n]) b m f'" "real_dir f d" "normal n" "normal n'"
    and "k_rename (d @ [n]) (d @ [n']) f' = (r, f'')"
  shows "wf_fs f'' \<and>
    (if r = Inr () then node_at f'' = (node_at f)(d @ [n'] \<mapsto> File b m) \<and> \<not> dir_at f (d @ [n']) else f'' = f')"
proof -
  have rd: "real_dir f' d" by (rule with_temp_dir [OF assms(1,2)])
  have wf: "wf_fs f'" using assms(1) by (simp add: with_temp_def)
  have l: "locate False f' (d @ [n]) = Inr (d @ [n])" "locate False f' (d @ [n']) = Inr (d @ [n'])"
    using wf rd assms(3,4) by (auto intro: locate_child)
  have t: "node_at f' (d @ [n]) = Some (File b m)" using assms(1) by (simp add: with_temp_def)
  show ?thesis
  proof (cases "dir_at f' (d @ [n'])")
    case True
    then show ?thesis using assms(5) l t wf by (auto simp: k_rename_def dir_at_def)
  next
    case False
    let ?g = "AList.delete (d @ [n]) f'"
    have e: "r = Inr ()" "f'' = AList.update (d @ [n']) (File b m) ?g"
      using assms(5) l t False by (auto simp: k_rename_def dir_at_def split: option.splits node.splits)
    have wg: "wf_fs ?g" using wf t by (intro wf_fs_delete) (auto simp: dir_at_def)
    have "dir_at ?g d" "\<not> dir_at ?g (d @ [n'])" using rd False by (auto simp: real_dir_def dir_at_def)
    then have "wf_fs f''" using e wf_fs_update [OF wg, of "d @ [n']" "File b m"] by simp
    moreover have "node_at f'' = (node_at f)(d @ [n'] \<mapsto> File b m)"
      using e assms(1) by (auto simp: with_temp_def fun_eq_iff)
    moreover have "\<not> dir_at f (d @ [n'])"
      using False assms(1) by (auto simp: with_temp_def dir_at_def split: if_splits)
    ultimately show ?thesis using e by simp
  qed
qed

lemma tempfile_okD:
  assumes "tempfile_ok tf" "tf_create tf d pre suf f = Inr ((p, q), f')"
  obtains mid l where "p = d @ [pre @ mid @ suf]" "locate True f d = Inr l"
    "q = l @ [pre @ mid @ suf]" "node_at f q = None" "f' = AList.update q (File '''' 384) f"
proof -
  have "\<exists>mid l. p = d @ [pre @ mid @ suf] \<and> locate True f d = Inr l \<and> dir_at f l
           \<and> q = l @ [pre @ mid @ suf] \<and> node_at f q = None \<and> f' = AList.update q (File '''' 384) f"
    using assms(1) assms(2) unfolding tempfile_ok_def by (elim conjE allE impE)
  then show ?thesis using that by blast
qed

lemma tempfile_in_ok:
  assumes "tempfile_ok tf" "wf_fs (fs w)" "real_dir (fs w) d"
    and "tempfile_in tf d pre ''.tmp'' w = (r, w')"
  shows "fs_step w w' \<and>
    (case r of
       Inl e \<Rightarrow> fs w' = fs w
     | Inr (p, q) \<Rightarrow> \<exists>mid. p = d @ [pre @ mid @ ''.tmp''] \<and> q = p \<and> with_temp (fs w) p '''' 384 (fs w'))"
proof (cases r)
  case (Inl e)
  then show ?thesis using tempfile_in_inv [OF assms(4)] by auto
next
  case (Inr h)
  obtain p q where h: "h = (p, q)" by (cases h)
  then have "tf_create tf d pre ''.tmp'' (fs w) = Inr ((p, q), fs w')" "fs_step w w'"
    using tempfile_in_inv [OF assms(4)] Inr by auto
  then obtain mid l where p: "p = d @ [pre @ mid @ ''.tmp'']" "locate True (fs w) d = Inr l"
      "q = l @ [pre @ mid @ ''.tmp'']" "node_at (fs w) q = None" "fs w' = AList.update q (File '''' 384) (fs w)"
    using tempfile_okD [OF assms(1)] by blast
  then have "l = d" using locate_plain_dir [OF assms(2,3), of True] by simp
  then show ?thesis using p Inr h with_temp_update [OF assms(2,3)] \<open>fs_step w w'\<close> by auto
qed

lemma tempfile_drop_ok:
  assumes "tempfile_ok tf" "with_temp f (d @ [n]) b m (fs w)" "real_dir f d" "normal n"
  shows "fs_step w (tempfile_drop tf (d @ [n]) w) \<and> wf_fs (fs (tempfile_drop tf (d @ [n]) w))
    \<and> (node_at (fs (tempfile_drop tf (d @ [n]) w)) = node_at f
       \<or> with_temp f (d @ [n]) b m (fs (tempfile_drop tf (d @ [n]) w)))"
proof -
  let ?op = "\<lambda>f. (Inr (), tf_drop tf (d @ [n]) f) :: (io_kind + unit) \<times> fs"
  obtain r w' where s: "syscall ?op w = (r, w')" by fastforce
  have td: "tf_drop tf (d @ [n]) (fs w) = snd (k_remove_file (d @ [n]) (fs w))"
    using assms(1) by (simp add: tempfile_ok_def)
  show ?thesis
    using syscall_inv [OF s] with_temp_drop [OF assms(2-4)] td assms(2) s
    by (auto simp: tempfile_drop_def with_temp_def)
qed

lemma tempfile_chmod_inv:
  assumes "tempfile_chmod q m w = (r, w')" "node_at (fs w) q = Some (File b m0)"
  shows "fs_step w w' \<and>
    (if r = Inr () then fs w' = AList.update q (File b m) (fs w) else fs w' = fs w)"
proof -
  obtain r1 w1 where 1: "fs_fstat q w = (r1, w1)" by fastforce
  have i1: "fs_step w w1 \<and> fs w1 = fs w"
    using syscall_readonly [OF 1 [unfolded fs_fstat_def]] by simp
  show ?thesis
  proof (cases r1)
    case (Inl e)
    then show ?thesis using i1 1 assms(1) by (auto simp: tempfile_chmod_def)
  next
    case (Inr nd)
    obtain r2 w2 where 2: "fs_fchmod q m w1 = (r2, w2)" by fastforce
    have "fs_step w w2 \<and> (if r2 = Inr () then fs w2 = AList.update q (File b m) (fs w) else fs w2 = fs w)"
      using syscall_inv [OF 2 [unfolded fs_fchmod_def]] i1 assms(2) fs_step_trans [of w w1]
      by (auto simp: k_fchmod_def)
    then show ?thesis using assms(1) 1 2 Inr by (cases r2) (auto simp: tempfile_chmod_def)
  qed
qed

lemma write_via_tempfile_post:
  assumes tf: "tempfile_ok tf" and wf: "wf_fs (fs w)" and rd: "real_dir (fs w) d" and n: "normal n"
  shows "write_post d pre md b (d @ [n]) w (write_via_tempfile tf d pre md b (d @ [n]) w)"
proof -
  let ?f = "fs w"
  obtain r1 w1 where 1: "tempfile_in tf d pre ''.tmp'' w = (r1, w1)" by fastforce
  note c1 = tempfile_in_ok [OF tf wf rd 1]
  show ?thesis
  proof (cases r1)
    case (Inl e)
    then show ?thesis using c1 1 wf by (simp add: write_via_tempfile_def write_post_def leftover_def)
  next
    case (Inr h)
    then obtain mid where h: "h = (d @ [pre @ mid @ ''.tmp''], d @ [pre @ mid @ ''.tmp''])"
        and t1: "with_temp ?f (d @ [pre @ mid @ ''.tmp'']) '''' 384 (fs w1)" and s1: "fs_step w w1"
      using c1 by (cases h) auto
    define nm where "nm = pre @ mid @ ''.tmp''"
    note h = h [folded nm_def]
    have nn: "normal nm" by (simp add: nm_def temp_normal)
    have fail: "write_post d pre md b (d @ [n]) w (Inl e, tempfile_drop tf (d @ [nm]) w')"
      if "with_temp ?f (d @ [nm]) b' m' (fs w')" "fs_step w w'" for e :: "write_step \<times> io_kind" and b' m' and w' 
      using tempfile_drop_ok [OF tf that(1) rd nn] fs_step_trans [OF that(2)] that(1)
      by (auto simp: write_post_def leftover_def with_temp_def nm_def)
    obtain r2 w2 where 2: "fs_write (d @ [nm]) b w1 = (r2, w2)" by fastforce
    have n1: "node_at (fs w1) (d @ [nm]) = Some (File '''' 384)"
      using t1 by (simp add: with_temp_def nm_def)
    have "r2 = Inr () \<and> fs w2 = AList.update (d @ [nm]) (File b 384) (fs w1) \<or> r2 = Inl OtherIo \<and> fs w2 = fs w1"
      using syscall_inv [OF 2 [unfolded fs_write_def]] n1 by (auto simp: k_write_def)
    moreover have s2: "fs_step w w2"
      using syscall_inv [OF 2 [unfolded fs_write_def]] fs_step_trans [OF s1] by blast
    ultimately have c2: "fs_step w w2 \<and> (\<exists>b'. with_temp ?f (d @ [nm]) b' 384 (fs w2) \<and> (r2 = Inr () \<longrightarrow> b' = b))"
      using t1 with_temp_again [OF wf t1 [folded nm_def]] by (auto simp: nm_def)
    then obtain b' where t2: "with_temp ?f (d @ [nm]) b' 384 (fs w2)" and b': "r2 = Inr () \<longrightarrow> b' = b" by blast
    show ?thesis
    proof (cases r2)
      case (Inl e)
      then show ?thesis using 1 2 Inr h fail [OF t2] c2 by (simp add: write_via_tempfile_def)
    next
      case r2: (Inr u)
      let ?m = "case md of None \<Rightarrow> 384 | Some m \<Rightarrow> m"
      obtain r3 w3 where 3: "(case md of None \<Rightarrow> (Inr (), w2) | Some m \<Rightarrow> tempfile_chmod (d @ [nm]) m w2) = (r3, w3)"
        by fastforce
      have c3: "fs_step w w3 \<and> (\<exists>m'. with_temp ?f (d @ [nm]) b m' (fs w3) \<and> (r3 = Inr () \<longrightarrow> m' = ?m))"
      proof (cases md)
        case None
        then show ?thesis using 3 t2 b' r2 c2 by auto
      next
        case (Some m)
        have n2: "node_at (fs w2) (d @ [nm]) = Some (File b 384)"
          using t2 b' r2 by (simp add: with_temp_def)
        have i: "tempfile_chmod (d @ [nm]) m w2 = (r3, w3)" using 3 Some by simp
        note tempfile_chmod_inv [OF i n2]
        then show ?thesis
          using t2 b' r2 c2 Some with_temp_again [OF wf t2] fs_step_trans [of w w2]
          by (cases "r3 = Inr ()") auto
      qed
      then obtain m' where t3: "with_temp ?f (d @ [nm]) b m' (fs w3)" and m': "r3 = Inr () \<longrightarrow> m' = ?m" by blast
      show ?thesis
      proof (cases r3)
        case (Inl e)
        then show ?thesis using 1 2 3 Inr r2 h fail [OF t3] c3 by (simp add: write_via_tempfile_def)
      next
        case r3: (Inr u)
        obtain r4 w4 where 4: "tempfile_persist tf (d @ [nm]) (d @ [n]) w3 = (r4, w4)" by fastforce
        have p: "tf_persist tf (d @ [nm]) (d @ [n]) (fs w3) = k_rename (d @ [nm]) (d @ [n]) (fs w3)"
          using tf by (simp add: tempfile_ok_def)
        have s4: "fs_step w w4"
          using syscall_inv [OF 4 [unfolded tempfile_persist_def]] c3 fs_step_trans by blast
        have c4: "(\<exists>e. r4 = Inl e \<and> with_temp ?f (d @ [nm]) b ?m (fs w4)) \<or>
            (r4 = Inr () \<and> wf_fs (fs w4) \<and> node_at (fs w4) = (node_at ?f)(d @ [n] \<mapsto> File b ?m)
             \<and> \<not> dir_at ?f (d @ [n]))"
          using syscall_inv [OF 4 [unfolded tempfile_persist_def]] p t3 m' r3
            k_rename_temp [OF t3 rd nn n, of r4 "fs w4"]
          by (cases r4) auto
        show ?thesis
        proof (cases r4)
          case (Inl e)
          then have t4: "with_temp ?f (d @ [nm]) b ?m (fs w4)" using c4 by simp
          show ?thesis using 1 2 3 4 Inr r2 r3 h fail [OF t4 s4] Inl
            by (simp add: write_via_tempfile_def)
        next
          case r4: (Inr u)
          then show ?thesis using 1 2 3 4 Inr r2 r3 h s4 c4
            by (simp add: write_via_tempfile_def write_post_def)
        qed
      qed
    qed
  qed
qed

end
