(* ===== verification/Message.thy ===== *)
theory Message
  imports Tempfile
begin

text \<open>
  The wire formats of \<open>src/src/message.rs\<close>: \<open>SyncUpdate\<close>, the change message on gossip, with its
  constructors, its codec and the path validation; \<open>InviteTicket\<close>, the \<open>dirhive1-\<close> envelope.
  The crates serde_json, base32 and iroh-tickets are the fields of \<open>codec_api\<close>.
\<close>

section \<open>SyncUpdate\<close>

definition SYNC_UPDATE_VERSION :: "32 word" where
  "SYNC_UPDATE_VERSION = 2"

definition INVITE_PREFIX :: str where
  "INVITE_PREFIX = ''dirhive1-''"

record peer_ref =
  peer_id :: endpoint_id

datatype sync_update_body =
    Upsert str blob_hash blob_format peer_ref
  | Tombstone str peer_ref

record sync_update =
  su_version :: "32 word"
  su_body :: sync_update_body

text \<open>\<open>InviteTicketJson\<close> and \<open>InviteTicket\<close>.\<close>

record invite_ticket_json =
  tj_endpoint_ticket :: str
  tj_folder_secret :: str

record invite_ticket =
  it_endpoint :: endpoint_ticket
  it_folder_secret :: bytes

text \<open>
  \<open>to_vec\<close>/\<open>from_slice\<close> at the two types, \<open>base32::encode\<close>/\<open>decode\<close> at \<open>TICKET_ALPHABET\<close> (RFC 4648
  without padding), \<open>Ticket::encode_string\<close> and \<open>EndpointTicket::from_str\<close>.
\<close>

record codec_api =
  su_ser :: "sync_update \<Rightarrow> str + bytes"
  su_de :: "bytes \<Rightarrow> str + sync_update"
  tj_ser :: "invite_ticket_json \<Rightarrow> str + bytes"
  tj_de :: "bytes \<Rightarrow> str + invite_ticket_json"
  b32_encode :: "bytes \<Rightarrow> str"
  b32_decode :: "str \<Rightarrow> bytes option"
  ticket_encode :: "endpoint_ticket \<Rightarrow> str"
  ticket_parse :: "str \<Rightarrow> str + endpoint_ticket"

definition from_addr :: "endpoint_addr \<Rightarrow> peer_ref" where
  "from_addr a = \<lparr>peer_id = addr_id a\<rparr>"

text \<open>The loop over the components of \<open>validate_relative_path\<close>.\<close>

fun check_components :: "str \<Rightarrow> str list \<Rightarrow> err + unit" where
  "check_components p [] = Inr ()"
| "check_components p (c # cs) =
     (if c = '''' then Inl (Msg (''empty path component in: '' @ p))
      else if c = ''..'' \<or> c = ''.'' then Inl (Msg (''`..` / `.` not allowed in rel_path: '' @ p))
      else check_components p cs)"

definition validate_relative_path :: "str \<Rightarrow> err + unit" where
  "validate_relative_path p =
     (if p = '''' then Inl (Msg ''rel_path is empty'')
      else if prefix ''/'' p then Inl (Msg (''absolute path not allowed: '' @ p))
      else if CHR 0x5C \<in> set p then Inl (Msg (''backslash not allowed in rel_path: '' @ p))
      else check_components p (split_on (CHR ''/'') p))"

definition upsert :: "str \<Rightarrow> blob_hash \<Rightarrow> blob_format \<Rightarrow> peer_ref \<Rightarrow> err + sync_update" where
  "upsert path hash fmt from =
     res_bind (validate_relative_path path) (\<lambda>_.
       Inr \<lparr>su_version = SYNC_UPDATE_VERSION, su_body = Upsert path hash fmt from\<rparr>)"

definition tombstone :: "str \<Rightarrow> peer_ref \<Rightarrow> err + sync_update" where
  "tombstone path from =
     res_bind (validate_relative_path path) (\<lambda>_.
       Inr \<lparr>su_version = SYNC_UPDATE_VERSION, su_body = Tombstone path from\<rparr>)"

definition su_path :: "sync_update \<Rightarrow> str" where
  "su_path u = (case su_body u of Upsert path _ _ _ \<Rightarrow> path | Tombstone path _ \<Rightarrow> path)"

definition su_from :: "sync_update \<Rightarrow> peer_ref" where
  "su_from u = (case su_body u of Upsert _ _ _ from \<Rightarrow> from | Tombstone _ from \<Rightarrow> from)"

definition to_bytes :: "codec_api \<Rightarrow> sync_update \<Rightarrow> err + bytes" where
  "to_bytes a u = ctx ''serialize SyncUpdate'' (su_ser a u)"

definition from_bytes :: "codec_api \<Rightarrow> bytes \<Rightarrow> err + sync_update" where
  "from_bytes a b =
     res_bind (ctx ''deserialize SyncUpdate'' (su_de a b)) (\<lambda>v.
       if su_version v \<noteq> SYNC_UPDATE_VERSION then
         Inl (Msg (''SyncUpdate version mismatch: expected '' @ show_nat (unat SYNC_UPDATE_VERSION)
                   @ '', got '' @ show_nat (unat (su_version v))))
       else res_bind (validate_relative_path (su_path v)) (\<lambda>_. Inr v))"

section \<open>InviteTicket\<close>

definition ticket_new :: "endpoint_ticket \<Rightarrow> bytes \<Rightarrow> invite_ticket" where
  "ticket_new e s = \<lparr>it_endpoint = e, it_folder_secret = s\<rparr>"

definition encode :: "codec_api \<Rightarrow> invite_ticket \<Rightarrow> err + str" where
  "encode a t =
     (let json = \<lparr>tj_endpoint_ticket = ticket_encode a (it_endpoint t),
                  tj_folder_secret = b32_encode a (it_folder_secret t)\<rparr> in
      res_bind (ctx ''serialize InviteTicket'' (tj_ser a json)) (\<lambda>bytes.
        Inr (INVITE_PREFIX @ b32_encode a bytes)))"

definition strip_prefix :: "str \<Rightarrow> str \<Rightarrow> str option" where
  "strip_prefix p s = (if prefix p s then Some (drop (length p) s) else None)"

definition decode :: "codec_api \<Rightarrow> str \<Rightarrow> err + invite_ticket" where
  "decode a s =
     res_bind (ok_or (Msg (''missing `'' @ INVITE_PREFIX @ ''` prefix'')) (strip_prefix INVITE_PREFIX s)) (\<lambda>payload_raw.
     let payload = to_ascii_uppercase payload_raw in
     res_bind (ok_or (Msg ''base32 decode failed for InviteTicket envelope'') (b32_decode a payload)) (\<lambda>bytes.
     res_bind (ctx ''deserialize InviteTicket json'' (tj_de a bytes)) (\<lambda>json.
     res_bind (case ticket_parse a (tj_endpoint_ticket json) of
                 Inl e \<Rightarrow> Inl (Msg (''invalid endpoint_ticket: '' @ e)) | Inr t \<Rightarrow> Inr t) (\<lambda>endpoint.
     res_bind (ok_or (Msg ''base32 decode failed for folder_secret'')
                 (b32_decode a (to_ascii_uppercase (tj_folder_secret json)))) (\<lambda>secret_bytes.
     if length secret_bytes \<noteq> 16 then
       Inl (Msg (''folder_secret must be 16 bytes, got '' @ show_nat (length secret_bytes)))
     else Inr \<lparr>it_endpoint = endpoint, it_folder_secret = secret_bytes\<rparr>)))))"

section \<open>Laws of the codecs\<close>

text \<open>
  Documented behaviour: derived serializers succeed and deserializers invert them; base32
  decoding inverts encoding, whose output is in the upper-case alphabet; a ticket string parses back.
\<close>

definition base32_char :: "char \<Rightarrow> bool" where
  "base32_char c \<longleftrightarrow>
     (let b = (of_char c :: nat) in (65 \<le> b \<and> b \<le> 90) \<or> (50 \<le> b \<and> b \<le> 55))"

definition codec_ok :: "codec_api \<Rightarrow> bool" where
  "codec_ok a \<longleftrightarrow>
     (\<forall>u. \<exists>b. su_ser a u = Inr b \<and> su_de a b = Inr u)
     \<and> (\<forall>j. \<exists>b. tj_ser a j = Inr b \<and> tj_de a b = Inr j)
     \<and> (\<forall>b. b32_decode a (b32_encode a b) = Some b \<and> (\<forall>c\<in>set (b32_encode a b). base32_char c))
     \<and> (\<forall>t. ticket_parse a (ticket_encode a t) = Inr t)"

lemma codec_okD:
  assumes "codec_ok a"
  shows "\<exists>b. su_ser a u = Inr b \<and> su_de a b = Inr u"
    and "\<exists>b. tj_ser a j = Inr b \<and> tj_de a b = Inr j"
    and "b32_decode a (b32_encode a b) = Some b"
    and "\<forall>c\<in>set (b32_encode a b). base32_char c"
    and "ticket_parse a (ticket_encode a t) = Inr t"
  using assms by (auto simp: codec_ok_def)

lemma base32_upper: "\<forall>c\<in>set s. base32_char c \<Longrightarrow> to_ascii_uppercase s = s"
  unfolding to_ascii_uppercase_def
  by (rule map_idI) (auto intro!: to_ascii_upper_id simp: base32_char_def Let_def)

section \<open>Properties of validation and of the message codec\<close>

text \<open>The paths that may travel: non-empty sequences of ordinary components without backslashes.\<close>

definition rel_path_ok :: "str \<Rightarrow> bool" where
  "rel_path_ok p \<longleftrightarrow>
     (\<exists>cs. cs \<noteq> [] \<and> p = join_with (CHR ''/'') cs
        \<and> (\<forall>c\<in>set cs. normal c \<and> CHR ''/'' \<notin> set c \<and> CHR 0x5C \<notin> set c))"

lemma check_components_ok: "check_components p cs = Inr () \<longleftrightarrow> (\<forall>c\<in>set cs. normal c)"
  by (induction cs) (auto simp: normal_def)

lemma join_with_chars: "set (join_with x cs) \<subseteq> insert x (\<Union>(set ` set cs))"
  by (induction x cs rule: join_with.induct) auto

lemma join_with_members: "c \<in> set cs \<Longrightarrow> set c \<subseteq> set (join_with x cs)"
  by (induction x cs rule: join_with.induct) auto

lemma validate_iff: "validate_relative_path p = Inr () \<longleftrightarrow> rel_path_ok p"
proof
  assume v: "validate_relative_path p = Inr ()"
  then have c: "\<forall>c\<in>set (split_on (CHR ''/'') p). normal c" and bs: "CHR 0x5C \<notin> set p"
    by (auto simp: validate_relative_path_def check_components_ok split: if_splits)
  have "CHR ''/'' \<notin> set c \<and> CHR 0x5C \<notin> set c" if "c \<in> set (split_on (CHR ''/'') p)" for c
    using split_on_no_sep [OF that] join_with_members [OF that, of "CHR ''/''"] bs by auto
  then show "rel_path_ok p"
    unfolding rel_path_ok_def using c by (intro exI [of _ "split_on (CHR ''/'') p"]) auto
next
  assume "rel_path_ok p"
  then obtain cs where cs: "cs \<noteq> []" "p = join_with (CHR ''/'') cs"
    "\<forall>c\<in>set cs. normal c \<and> CHR ''/'' \<notin> set c \<and> CHR 0x5C \<notin> set c" by (auto simp: rel_path_ok_def)
  then have sp: "split_on (CHR ''/'') p = cs" by (simp add: split_on_join_with)
  have "CHR 0x5C \<notin> set p" using join_with_chars [of "CHR ''/''" cs] cs by auto
  moreover have "p \<noteq> ''''"
  proof
    assume "p = ''''"
    then have "[] \<in> set cs" using sp by (metis list.set_intros(1) split_on.simps(1))
    then show False using cs(3) by (auto simp: normal_def)
  qed
  moreover have "\<not> prefix ''/'' p"
  proof
    assume "prefix ''/'' p"
    then have "[] \<in> set (split_on (CHR ''/'') p)" by (auto simp: prefix_def)
    then have "[] \<in> set cs" by (simp only: sp)
    then show False using cs(3) by (auto simp: normal_def)
  qed
  ultimately show "validate_relative_path p = Inr ()"
    using sp cs(3) by (simp add: validate_relative_path_def check_components_ok)
qed

text \<open>For a validated path the component list of \<open>PathBuf::from\<close> is the split one.\<close>

lemma rel_path_comps:
  assumes "validate_relative_path p = Inr ()"
  shows "path_comps p = split_on (CHR ''/'') p" "path_comps p \<noteq> []"
    "\<forall>c\<in>set (path_comps p). normal c" "path_join r p = r @ path_comps p"
proof -
  have c: "\<forall>c\<in>set (split_on (CHR ''/'') p). normal c" "\<not> prefix ''/'' p"
    using assms by (auto simp: validate_relative_path_def check_components_ok split: if_splits)
  show 1: "path_comps p = split_on (CHR ''/'') p"
    unfolding path_comps_def using c by (intro filter_True) (auto simp: normal_def)
  show "path_comps p \<noteq> []" "\<forall>c\<in>set (path_comps p). normal c" using 1 c by auto
  show "path_join r p = r @ path_comps p" using c(2) by (simp add: path_join_def)
qed

lemma upsert_iff:
  "upsert p h f r = Inr u \<longleftrightarrow>
     validate_relative_path p = Inr () \<and> u = \<lparr>su_version = 2, su_body = Upsert p h f r\<rparr>"
  by (auto simp: upsert_def res_bind_Inr_iff SYNC_UPDATE_VERSION_def)

lemma tombstone_iff:
  "tombstone p r = Inr u \<longleftrightarrow>
     validate_relative_path p = Inr () \<and> u = \<lparr>su_version = 2, su_body = Tombstone p r\<rparr>"
  by (auto simp: tombstone_def res_bind_Inr_iff SYNC_UPDATE_VERSION_def)

lemma from_bytes_iff:
  "from_bytes a b = Inr v \<longleftrightarrow>
     su_de a b = Inr v \<and> su_version v = 2 \<and> validate_relative_path (su_path v) = Inr ()"
  by (auto simp: from_bytes_def res_bind_Inr_iff SYNC_UPDATE_VERSION_def)

lemma to_bytes_from_bytes:
  assumes "codec_ok a" "su_version u = 2" "validate_relative_path (su_path u) = Inr ()"
  shows "\<exists>b. to_bytes a u = Inr b \<and> from_bytes a b = Inr u"
  using codec_okD(1) [OF assms(1), of u] assms(2,3) by (auto simp: to_bytes_def from_bytes_iff)

text \<open>The ticket round trip, for every casing of the payload.\<close>

lemma decode_encode:
  assumes "codec_ok a" "length (it_folder_secret t) = 16"
  shows "\<exists>p. encode a t = Inr (INVITE_PREFIX @ p)
           \<and> (\<forall>p'. to_ascii_uppercase p' = p \<longrightarrow> decode a (INVITE_PREFIX @ p') = Inr t)
           \<and> to_ascii_uppercase p = p"
proof -
  let ?j = "\<lparr>tj_endpoint_ticket = ticket_encode a (it_endpoint t),
             tj_folder_secret = b32_encode a (it_folder_secret t)\<rparr>"
  obtain b where b: "tj_ser a ?j = Inr b" "tj_de a b = Inr ?j" using codec_okD(2) [OF assms(1)] by blast
  let ?p = "b32_encode a b"
  have up: "to_ascii_uppercase (b32_encode a x) = b32_encode a x" for x
    using base32_upper codec_okD(4) [OF assms(1)] by blast
  have "decode a (INVITE_PREFIX @ p') = Inr t" if "to_ascii_uppercase p' = ?p" for p'
    using that b up assms(2) codec_okD(3,5) [OF assms(1)] by (simp add: decode_def strip_prefix_def Let_def)
  then show ?thesis using b up [of b] by (auto simp: encode_def Let_def)
qed

lemma decode_secret_length: "decode a s = Inr t \<Longrightarrow> length (it_folder_secret t) = 16 \<and> prefix INVITE_PREFIX s"
  by (auto simp: decode_def res_bind_Inr_iff Let_def strip_prefix_def split: if_splits)

end
