(* ===== verification/Paths.thy ===== *)
theory Paths
  imports Message
begin

text \<open>
  \<open>src/src/paths.rs\<close>: where the daemon keeps its files, from the environment, and
  \<open>ensure_dir_700\<close>.  The lemmas give the contract of \<open>ensure_dir_700\<close> and, with it, of the sequence
  the secure stores share (make the private directory, then write through a temporary file).
\<close>

type_synonym env = "str \<rightharpoonup> str"

definition STATE_DIR_ENV :: str where
  "STATE_DIR_ENV = ''DIRHIVE_STATE_DIR''"

definition CONFIG_DIR_ENV :: str where
  "CONFIG_DIR_ENV = ''DIRHIVE_CONFIG_DIR''"

definition LOG_DIR_ENV :: str where
  "LOG_DIR_ENV = ''DIRHIVE_LOG_DIR''"

definition home_dir :: "env \<Rightarrow> err + path" where
  "home_dir env = ok_or (Msg ''HOME env var not set'') (map_option path_comps (env ''HOME''))"

definition state_dir :: "env \<Rightarrow> err + path" where
  "state_dir env =
     (case env STATE_DIR_ENV of
        Some v \<Rightarrow> Inr (path_comps v)
      | None \<Rightarrow> res_bind (home_dir env) (\<lambda>h. Inr (path_join h ''.local/share/dirhive'')))"

definition config_dir :: "env \<Rightarrow> err + path" where
  "config_dir env =
     (case env CONFIG_DIR_ENV of
        Some v \<Rightarrow> Inr (path_comps v)
      | None \<Rightarrow> res_bind (home_dir env) (\<lambda>h. Inr (path_join h ''.config/dirhive'')))"

definition log_dir :: "env \<Rightarrow> err + path" where
  "log_dir env =
     (case env LOG_DIR_ENV of
        Some v \<Rightarrow> Inr (path_comps v)
      | None \<Rightarrow> res_bind (home_dir env) (\<lambda>h. Inr (path_join h ''Library/Logs'')))"

definition default_socket_path :: "env \<Rightarrow> err + path" where
  "default_socket_path env = res_bind (state_dir env) (\<lambda>d. Inr (path_join d ''daemon.sock''))"

definition default_lock_path :: "env \<Rightarrow> err + path" where
  "default_lock_path env = res_bind (state_dir env) (\<lambda>d. Inr (path_join d ''daemon.lock''))"

definition default_folder_secret_path :: "env \<Rightarrow> err + path" where
  "default_folder_secret_path env = res_bind (state_dir env) (\<lambda>d. Inr (path_join d ''folder-secret.bin''))"

definition default_blobs_dir :: "env \<Rightarrow> err + path" where
  "default_blobs_dir env = res_bind (state_dir env) (\<lambda>d. Inr (path_join d ''blobs''))"

definition default_pending_dir :: "env \<Rightarrow> err + path" where
  "default_pending_dir env = res_bind (state_dir env) (\<lambda>d. Inr (path_join d ''pending''))"

definition default_allowlist_path :: "env \<Rightarrow> err + path" where
  "default_allowlist_path env = res_bind (state_dir env) (\<lambda>d. Inr (path_join d ''allowlist.json''))"

definition default_bootstrap_peers_path :: "env \<Rightarrow> err + path" where
  "default_bootstrap_peers_path env = res_bind (state_dir env) (\<lambda>d. Inr (path_join d ''bootstrap-peers.json''))"

definition default_key_path :: "env \<Rightarrow> err + path" where
  "default_key_path env = res_bind (config_dir env) (\<lambda>d. Inr (path_join d ''endpoint.key''))"

definition default_log_path :: "env \<Rightarrow> err + path" where
  "default_log_path env = res_bind (log_dir env) (\<lambda>d. Inr (path_join d ''dirhive.log''))"

definition ensure_dir_700 :: "path \<Rightarrow> 'z world_scheme \<Rightarrow> (err + unit) \<times> 'z world_scheme" where
  "ensure_dir_700 dir w =
     and_then (io_err (''create_dir_all '' @ display dir) (create_dir_all dir w)) (\<lambda>_ w1.
     and_then (io_err (''metadata '' @ display dir) (metadata dir w1)) (\<lambda>_ w2.
       io_err (''set_permissions 0o700 '' @ display dir) (set_permissions dir 448 w2)))"

section \<open>The contract of \<open>ensure_dir_700\<close>\<close>

text \<open>Directories on the way to \<open>p\<close> are added and the mode of \<open>p\<close> itself may change; nothing else.\<close>

definition dirs_secured :: "path \<Rightarrow> fs \<Rightarrow> fs \<Rightarrow> bool" where
  "dirs_secured p f f' \<longleftrightarrow>
     (\<forall>q. node_at f' q = node_at f q
        \<or> (prefix q p \<and> dir_at f' q \<and> (node_at f q = None \<or> dir_at f q)))"

lemma dirs_secured_refl [simp]: "dirs_secured p f f"
  by (simp add: dirs_secured_def)

lemma dirs_added_secured: "dirs_added p f f' \<Longrightarrow> dirs_secured p f f'"
  by (auto simp: dirs_added_def dirs_secured_def)

lemma dirs_secured_keeps:
  "dirs_secured p f f' \<Longrightarrow> node_at f q = Some nd \<Longrightarrow> \<not> is_dir nd \<Longrightarrow> node_at f' q = Some nd"
  "dirs_secured p f f' \<Longrightarrow> \<not> prefix q p \<Longrightarrow> node_at f' q = node_at f q"
  unfolding dirs_secured_def dir_at_def is_dir_iff by (metis option.distinct(1) option.inject)+

lemma ensure_dir_700_post:
  assumes "ensure_dir_700 p w = (r, w')" "wf_fs (fs w)" "dir_path (fs w) p"
  shows "fs_step w w'" "wf_fs (fs w')" "dirs_secured p (fs w) (fs w')"
    "r = Inr () \<Longrightarrow> real_dir (fs w') p"
    "r = Inr () \<Longrightarrow> p \<noteq> [] \<Longrightarrow> node_at (fs w') p = Some (Dir 448)"
proof -
  obtain r1 w1 where 1: "create_dir_all p w = (r1, w1)" by fastforce
  note c = create_dir_all_inv [OF 1 assms(2,3)]
  have "fs_step w w' \<and> wf_fs (fs w') \<and> dirs_secured p (fs w) (fs w')
    \<and> (r = Inr () \<longrightarrow> real_dir (fs w') p) \<and> (r = Inr () \<and> p \<noteq> [] \<longrightarrow> node_at (fs w') p = Some (Dir 448))"
  proof (cases r1)
    case (Inl e)
    then show ?thesis using c 1 assms(1) dirs_added_secured
      by (auto simp: ensure_dir_700_def)
  next
    case (Inr u)
    obtain r2 w2 where 2: "metadata p w1 = (r2, w2)" by fastforce
    note m = metadata_inv [OF 2]
    have s2: "fs_step w w2" "fs w2 = fs w1" using m c(1) fs_step_trans by auto
    have rd: "real_dir (fs w1) p" using c(5) Inr by simp
    show ?thesis
    proof (cases r2)
      case r2: (Inl e)
      then show ?thesis using c 1 2 s2 Inr assms(1) dirs_added_secured by (auto simp: ensure_dir_700_def)
    next
      case r2: (Inr nd)
      obtain r3 w3 where 3: "set_permissions p 448 w2 = (r3, w3)" by fastforce
      have w3: "w' = w3" "r = Inr () \<longleftrightarrow> r3 = Inr ()"
        using 1 2 3 Inr r2 assms(1) by (auto simp: ensure_dir_700_def io_err_def split: sum.splits)
      obtain m0 where m0: "node_at (fs w1) p = Some (Dir m0)" using rd by (auto simp: real_dir_def dir_at_def)
      have ch: "k_chmod p 448 (fs w1) = (Inr (), if p = [] then fs w1 else AList.update p (Dir 448) (fs w1))"
        using locate_plain_dir [OF c(2) rd, of True] m0 by (simp add: k_chmod_def)
      have i: "fs_step w2 w3" "(r3 = Inl OtherIo \<and> fs w3 = fs w1) \<or>
          (r3 = Inr () \<and> fs w3 = (if p = [] then fs w1 else AList.update p (Dir 448) (fs w1)))"
        using syscall_inv [OF 3 [unfolded set_permissions_def]] ch s2 by auto
      have st: "fs_step w w3" using s2(1) i(1) by (rule fs_step_trans)
      have sec: "dirs_secured p (fs w) (fs w1)" by (rule dirs_added_secured [OF c(3)])
      show ?thesis
      proof (cases "r3 = Inr () \<and> p \<noteq> []")
        case True
        then have e: "fs w3 = AList.update p (Dir 448) (fs w1)" "p \<noteq> []" using i by auto
        have "wf_fs (fs w3)"
          using e wf_fs_update [OF c(2) e(2), of "Dir 448"] wf_fs_parent [OF c(2) e(2)] m0 by simp
        moreover have "dirs_secured p (fs w) (fs w3)"
          using sec e m0 c(3) unfolding dirs_secured_def dirs_added_def dir_at_def
          by (metis node_at_update prefix_order.refl)
        moreover have "real_dir (fs w3) p" using rd e by (simp add: real_dir_def dir_at_def)
        ultimately show ?thesis using st e w3 by simp
      next
        case False
        then have "fs w3 = fs w1" using i by auto
        then show ?thesis using st sec rd w3 c(2) False by auto
      qed
    qed
  qed
  then show "fs_step w w'" "wf_fs (fs w')" "dirs_secured p (fs w) (fs w')"
    "r = Inr () \<Longrightarrow> real_dir (fs w') p"
    "r = Inr () \<Longrightarrow> p \<noteq> [] \<Longrightarrow> node_at (fs w') p = Some (Dir 448)" by auto
qed

end
