(* ===== verification/Secure_Store.thy ===== *)
theory Secure_Store
  imports Paths
begin

text \<open>
  The contract that the three private files of the daemon share (the keys, the allowlist, the
  bootstrap peers): a save makes the private directory and replaces the file atomically with mode
  0600; a load reads it back.  \<open>secure_post\<close> is the contract of one write; the locale \<open>secure_store\<close>
  states what the clients of such a file rely on, and is interpreted by each of the modules.
\<close>

text \<open>What a save of \<open>p\<close> may change beside \<open>p\<close>: directories above it and a stray temporary file.\<close>

definition store_frame :: "path \<Rightarrow> fs \<Rightarrow> fs \<Rightarrow> bool" where
  "store_frame p f f' \<longleftrightarrow>
     (\<forall>q. q \<noteq> p \<longrightarrow> node_at f' q = node_at f q
        \<or> (prefix q (butlast p) \<and> dir_at f' q \<and> (node_at f q = None \<or> dir_at f q))
        \<or> (node_at f q = None \<and> butlast q = butlast p \<and> suffix ''.tmp'' (last q)))"

definition store_path :: "fs \<Rightarrow> path \<Rightarrow> bool" where
  "store_path f p \<longleftrightarrow> p \<noteq> [] \<and> dir_path f (butlast p) \<and> normal (last p) \<and> \<not> suffix ''.tmp'' (last p)"

definition secure_post ::
  "path \<Rightarrow> bytes \<Rightarrow> 'z world_scheme \<Rightarrow> (err + unit) \<times> 'z world_scheme \<Rightarrow> bool" where
  "secure_post p b w res \<longleftrightarrow>
     fs_step w (snd res) \<and> wf_fs (fs (snd res)) \<and> store_frame p (fs w) (fs (snd res))
     \<and> (case fst res of
          Inr _ \<Rightarrow> node_at (fs (snd res)) p = Some (File b 384)
                   \<and> (butlast p \<noteq> [] \<longrightarrow> node_at (fs (snd res)) (butlast p) = Some (Dir 448))
        | Inl _ \<Rightarrow> node_at (fs (snd res)) p = node_at (fs w) p)"

lemma not_prefix_butlast: "p \<noteq> [] \<Longrightarrow> \<not> prefix p (butlast p)"
  by (metis append_butlast_last_id not_Cons_self2 prefix_order.antisym prefixI same_append_eq self_append_conv)

lemma store_frame_refl [simp]: "store_frame p f f"
  by (simp add: store_frame_def)

lemma dirs_secured_store_frame: "dirs_secured (butlast p) f f' \<Longrightarrow> store_frame p f f'"
  by (auto simp: dirs_secured_def store_frame_def)

text \<open>A file elsewhere, and a missing entry that is no temporary file, survive a save.\<close>

lemma store_frame_file:
  "store_frame p f f' \<Longrightarrow> q \<noteq> p \<Longrightarrow> node_at f q = Some (File b m) \<Longrightarrow> node_at f' q = Some (File b m)"
  unfolding store_frame_def dir_at_def by fastforce

lemma ensure_then_write_post:
  assumes 1: "ensure_dir_700 (butlast p) w = (Inr (), w1)"
    and 2: "write_via_tempfile tf (butlast p) pre (Some 384) b p w1 = (r2, w2)"
    and tf: "tempfile_ok tf" and wf: "wf_fs (fs w)" and sp: "store_path (fs w) p"
  shows "secure_post p b w (case r2 of Inl e \<Rightarrow> Inl (g e) | Inr _ \<Rightarrow> Inr (), w2)"
proof -
  have p: "p \<noteq> []" and dp: "dir_path (fs w) (butlast p)" and n: "normal (last p)"
    and nt: "\<not> suffix ''.tmp'' (last p)" using sp by (auto simp: store_path_def)
  note e = ensure_dir_700_post [OF 1 wf dp]
  have pe: "butlast p @ [last p] = p" using p by simp
  have "write_post (butlast p) pre (Some 384) b p w1 (r2, w2)"
    using write_via_tempfile_post [OF tf e(2) e(4) n, of pre "Some 384" b] 2 unfolding pe by simp
  then have wp: "fs_step w1 w2" "wf_fs (fs w2)"
    "case r2 of Inr _ \<Rightarrow> node_at (fs w2) = (node_at (fs w1))(p \<mapsto> File b 384) \<and> \<not> dir_at (fs w1) p
     | Inl _ \<Rightarrow> leftover (butlast p) pre (fs w1) (fs w2)"
    by (auto simp: write_post_def split: sum.splits)
  have st: "fs_step w w2" using e(1) wp(1) by (rule fs_step_trans)
  have sec: "dirs_secured (butlast p) (fs w) (fs w1)" by (rule e(3))
  have pp: "node_at (fs w1) p = node_at (fs w) p"
    by (rule dirs_secured_keeps(2) [OF sec not_prefix_butlast [OF p]])
  show ?thesis
  proof (cases r2)
    case (Inl x)
    have "leftover (butlast p) pre (fs w1) (fs w2)" using wp(3) Inl by simp
    then have "store_frame p (fs w) (fs w2) \<and> node_at (fs w2) p = node_at (fs w1) p"
      unfolding leftover_def
    proof
      assume "node_at (fs w2) = node_at (fs w1)"
      then show ?thesis using dirs_secured_store_frame [OF sec] by (simp add: store_frame_def dir_at_def)
    next
      assume "\<exists>mid b m. node_at (fs w1) (butlast p @ [pre @ mid @ ''.tmp'']) = None
           \<and> node_at (fs w2) = (node_at (fs w1))(butlast p @ [pre @ mid @ ''.tmp''] \<mapsto> File b m)"
      then obtain mid b' m where t: "node_at (fs w1) (butlast p @ [pre @ mid @ ''.tmp'']) = None"
        "node_at (fs w2) = (node_at (fs w1))(butlast p @ [pre @ mid @ ''.tmp''] \<mapsto> File b' m)" by blast
      let ?t = "butlast p @ [pre @ mid @ ''.tmp'']"
      have np: "\<not> prefix ?t (butlast p)" by (metis not_prefix_butlast butlast_snoc snoc_eq_iff_butlast)
      have nt0: "node_at (fs w) ?t = None" using dirs_secured_keeps(2) [OF sec np] t(1) by simp
      have "?t \<noteq> p"
      proof
        assume "?t = p"
        then have "last p = pre @ mid @ ''.tmp''" by (metis last_snoc)
        then show False using nt by (simp add: suffix_def)
      qed
      moreover have "store_frame p (fs w) (fs w2)"
        unfolding store_frame_def
      proof (intro allI impI)
        fix q assume "q \<noteq> p"
        show "node_at (fs w2) q = node_at (fs w) q \<or>
          prefix q (butlast p) \<and> dir_at (fs w2) q \<and> (node_at (fs w) q = None \<or> dir_at (fs w) q) \<or>
          node_at (fs w) q = None \<and> butlast q = butlast p \<and> suffix ''.tmp'' (last q)"
        proof (cases "q = ?t")
          case True
          then show ?thesis using nt0 by (simp add: suffix_def)
        next
          case False
          then have "node_at (fs w2) q = node_at (fs w1) q" using t(2) by simp
          then show ?thesis using sec by (auto simp: dirs_secured_def dir_at_def)
        qed
      qed
      ultimately show ?thesis using t(2) by simp
    qed
    then show ?thesis using Inl st wp(2) pp by (simp add: secure_post_def)
  next
    case (Inr u)
    then have o: "node_at (fs w2) = (node_at (fs w1))(p \<mapsto> File b 384)" using wp(3) by simp
    then have "store_frame p (fs w) (fs w2)"
      using sec by (auto simp: store_frame_def dirs_secured_def dir_at_def)
    moreover have "butlast p \<noteq> p" using p by (metis not_prefix_butlast prefix_order.refl)
    ultimately show ?thesis using Inr st wp(2) o e(5) by (simp add: secure_post_def)
  qed
qed

lemma ensure_error_post:
  assumes "ensure_dir_700 (butlast p) w = (Inl e, w1)" "wf_fs (fs w)" "store_path (fs w) p"
  shows "secure_post p b w (Inl e, w1)"
proof -
  have dp: "p \<noteq> []" "dir_path (fs w) (butlast p)" using assms(3) by (auto simp: store_path_def)
  note e = ensure_dir_700_post [OF assms(1,2) dp(2)]
  show ?thesis
    using e(1,2) dirs_secured_store_frame [OF e(3)] dirs_secured_keeps(2) [OF e(3) not_prefix_butlast [OF dp(1)]]
    by (simp add: secure_post_def)
qed

lemma file_plain:
  assumes "wf_fs f" "\<forall>c\<in>set p. normal c" "node_at f p = Some (File b m)"
  shows "plain f p"
proof -
  have "dir_at f q" if "p = q @ r" "r \<noteq> []" for q r
    using wf_fs_prefix_dir [OF assms(1), of q r] assms(3) that by simp
  then show ?thesis using assms(2,3) by (simp add: plain_def)
qed

lemma fs_read_file:
  assumes "wf_fs (fs w)" "\<forall>c\<in>set p. normal c" "node_at (fs w) p = Some (File b m)" "faults w = []"
  shows "fs_read p w = (Inr b, w)"
  using syscall_no_fault [OF assms(4), of "k_read p"] k_read_plain [OF assms(1) file_plain [OF assms(1-3)]] assms(3)
  by (simp add: fs_read_def)

lemma store_path_normal: "store_path f p \<Longrightarrow> \<forall>c\<in>set p. normal c"
  unfolding store_path_def dir_path_def
  by (metis append_butlast_last_id in_set_butlastD in_set_conv_decomp rotate1.simps(2) set_ConsD set_rotate1)

section \<open>The interface of a stored value\<close>

text \<open>
  \<open>save\<close> and \<open>load\<close> are the client's operations on the file; \<open>dec\<close> is what a load makes of the
  bytes of the file, and \<open>view v\<close> is what a load returns after \<open>v\<close> was saved.
\<close>

locale secure_store =
  fixes save :: "'v \<Rightarrow> path \<Rightarrow> 'z world_scheme \<Rightarrow> (err + unit) \<times> 'z world_scheme"
    and load :: "path \<Rightarrow> 'z world_scheme \<Rightarrow> (err + 'r) \<times> 'z world_scheme"
    and dec :: "path \<Rightarrow> bytes \<Rightarrow> err + 'r"
    and view :: "'v \<Rightarrow> 'r"
    and good :: "'v \<Rightarrow> bool"
  assumes save_contract:
      "wf_fs (fs w) \<Longrightarrow> store_path (fs w) p \<Longrightarrow> good v \<Longrightarrow>
         \<exists>b. secure_post p b w (save v p w) \<and> (fst (save v p w) = Inr () \<longrightarrow> dec p b = Inr (view v))"
    and load_file:
      "wf_fs (fs w) \<Longrightarrow> \<forall>c\<in>set p. normal c \<Longrightarrow> node_at (fs w) p = Some (File b m) \<Longrightarrow> faults w = [] \<Longrightarrow>
         load p w = (dec p b, w)"
begin

definition holds :: "fs \<Rightarrow> path \<Rightarrow> 'r \<Rightarrow> bool" where
  "holds f p x \<longleftrightarrow> (\<exists>b m. node_at f p = Some (File b m) \<and> dec p b = Inr x)"

lemma load_holds:
  "wf_fs (fs w) \<Longrightarrow> \<forall>c\<in>set p. normal c \<Longrightarrow> holds (fs w) p x \<Longrightarrow> faults w = [] \<Longrightarrow> load p w = (Inr x, w)"
  unfolding holds_def using load_file by metis

lemma save_holds:
  assumes "wf_fs (fs w)" "store_path (fs w) p" "good v" "save v p w = (Inr (), w')"
  shows "holds (fs w') p (view v)" "wf_fs (fs w')" "fs_step w w'"
  using save_contract [OF assms(1-3)] assms(4) by (auto simp: secure_post_def holds_def)

lemma save_error_keeps:
  assumes "wf_fs (fs w)" "store_path (fs w) p" "good v" "save v p w = (Inl e, w')"
  shows "node_at (fs w') p = node_at (fs w) p" "holds (fs w') p x = holds (fs w) p x"
  using save_contract [OF assms(1-3)] assms(4) by (auto simp: secure_post_def holds_def)

lemma save_elsewhere:
  assumes "wf_fs (fs w)" "store_path (fs w) p" "good v" "node_at (fs w) q = Some (File b m)" "q \<noteq> p"
  shows "node_at (fs (snd (save v p w))) q = Some (File b m)"
  using save_contract [OF assms(1-3)] store_frame_file [OF _ assms(5,4)] by (auto simp: secure_post_def)

lemma save_wf:
  assumes "wf_fs (fs w)" "store_path (fs w) p" "good v"
  shows "wf_fs (fs (snd (save v p w)))" "fs_step w (snd (save v p w))"
    "store_frame p (fs w) (fs (snd (save v p w)))"
  using save_contract [OF assms] by (auto simp: secure_post_def)

lemma load_after_save:
  assumes "wf_fs (fs w)" "store_path (fs w) p" "good v" "save v p w = (Inr (), w')" "faults w' = []"
  shows "load p w' = (Inr (view v), w')"
  using load_holds [OF save_holds(2) [OF assms(1-4)] store_path_normal [OF assms(2)] save_holds(1) [OF assms(1-4)] assms(5)] .

lemma save_private:
  assumes "wf_fs (fs w)" "store_path (fs w) p" "good v" "save v p w = (Inr (), w')"
  shows "\<exists>b. node_at (fs w') p = Some (File b 384) \<and> dec p b = Inr (view v)"
    "butlast p \<noteq> [] \<Longrightarrow> node_at (fs w') (butlast p) = Some (Dir 448)"
  using save_contract [OF assms(1-3)] assms(4) by (auto simp: secure_post_def)

end

end
