(* ===== verification/Keystore.thy ===== *)
theory Keystore
  imports Secure_Store
begin

text \<open>
  \<open>src/src/keystore.rs\<close>: the endpoint key (generated on the first start) and the folder secret
  (generated lazily by an invite, or adopted from one).  The bytes of the random generator are an
  argument.  The folder secret is a \<open>secure_store\<close>.
\<close>

datatype secret_key = SecretKey bytes

definition KEY_BYTES :: nat where
  "KEY_BYTES = 32"

definition FOLDER_SECRET_BYTES :: nat where
  "FOLDER_SECRET_BYTES = 16"

fun atomic_write_err :: "path \<Rightarrow> write_step \<times> io_kind \<Rightarrow> err" where
  "atomic_write_err p (AtCreate, e) = Ctx (''tempfile_in '' @ display (butlast p)) (Io e)"
| "atomic_write_err p (AtWrite, e) = Ctx ''write tempfile'' (Io e)"
| "atomic_write_err p (AtMetadata, e) = Ctx ''tempfile metadata'' (Io e)"
| "atomic_write_err p (AtChmod, e) = Ctx ''chmod 0o600'' (Io e)"
| "atomic_write_err p (AtPersist, e) = Ctx (''persist '' @ display p) (Io e)"

definition atomic_write_0o600 ::
  "tempfile_api \<Rightarrow> path \<Rightarrow> bytes \<Rightarrow> 'z world_scheme \<Rightarrow> (err + unit) \<times> 'z world_scheme" where
  "atomic_write_0o600 tf target content w =
     (case path_parent target of
        None \<Rightarrow> (Inl (Msg (''target '' @ display target @ '' has no parent'')), w)
      | Some parent \<Rightarrow>
          (case write_via_tempfile tf parent ''.secret.'' (Some 384) content target w of
             (Inl e, w1) \<Rightarrow> (Inl (atomic_write_err target e), w1)
           | (Inr _, w1) \<Rightarrow> (Inr (), w1)))"

text \<open>\<open>if let Some(parent) = path.parent() { ensure_dir_700(parent)?; }\<close>\<close>

definition ensure_parent_700 :: "path \<Rightarrow> 'z world_scheme \<Rightarrow> (err + unit) \<times> 'z world_scheme" where
  "ensure_parent_700 p w =
     (case path_parent p of None \<Rightarrow> (Inr (), w) | Some parent \<Rightarrow> ensure_dir_700 parent w)"

definition generate_and_persist_key ::
  "bytes \<Rightarrow> tempfile_api \<Rightarrow> path \<Rightarrow> 'z world_scheme \<Rightarrow> (err + secret_key) \<times> 'z world_scheme" where
  "generate_and_persist_key rnd tf key_path w =
     and_then (ensure_parent_700 key_path w) (\<lambda>_ w1.
     and_then (atomic_write_0o600 tf key_path rnd w1) (\<lambda>_ w2.
       (Inr (SecretKey rnd), w2)))"

definition load_or_create_endpoint_key ::
  "bytes \<Rightarrow> tempfile_api \<Rightarrow> path \<Rightarrow> 'z world_scheme \<Rightarrow> (err + secret_key) \<times> 'z world_scheme" where
  "load_or_create_endpoint_key rnd tf key_path w =
     (case fs_read key_path w of
        (Inr b, w1) \<Rightarrow>
          if length b \<noteq> KEY_BYTES then
            (Inl (Msg (display key_path @ '' has invalid size: '' @ show_nat (length b)
               @ '' bytes (expected '' @ show_nat KEY_BYTES @ '')'')), w1)
          else (Inr (SecretKey b), w1)
      | (Inl e, w1) \<Rightarrow>
          if e = NotFound then generate_and_persist_key rnd tf key_path w1
          else (Inl (Ctx (''read '' @ display key_path) (Io e)), w1))"

definition try_load_folder_secret ::
  "path \<Rightarrow> 'z world_scheme \<Rightarrow> (err + bytes option) \<times> 'z world_scheme" where
  "try_load_folder_secret p w =
     (case fs_read p w of
        (Inr b, w1) \<Rightarrow>
          if length b \<noteq> FOLDER_SECRET_BYTES then
            (Inl (Msg (display p @ '' has invalid size: '' @ show_nat (length b)
               @ '' bytes (expected '' @ show_nat FOLDER_SECRET_BYTES @ '')'')), w1)
          else (Inr (Some b), w1)
      | (Inl e, w1) \<Rightarrow>
          if e = NotFound then (Inr None, w1)
          else (Inl (Ctx (''read '' @ display p) (Io e)), w1))"

definition generate_and_persist_folder_secret ::
  "bytes \<Rightarrow> tempfile_api \<Rightarrow> path \<Rightarrow> 'z world_scheme \<Rightarrow> (err + bytes) \<times> 'z world_scheme" where
  "generate_and_persist_folder_secret rnd tf p w =
     and_then (ensure_parent_700 p w) (\<lambda>_ w1.
     and_then (atomic_write_0o600 tf p rnd w1) (\<lambda>_ w2.
       (Inr rnd, w2)))"

definition persist_folder_secret ::
  "tempfile_api \<Rightarrow> path \<Rightarrow> bytes \<Rightarrow> 'z world_scheme \<Rightarrow> (err + unit) \<times> 'z world_scheme" where
  "persist_folder_secret tf p secret w =
     and_then (ensure_parent_700 p w) (\<lambda>_ w1. atomic_write_0o600 tf p secret w1)"

section \<open>The stores\<close>

text \<open>The shared shape of the two writers.\<close>

lemma persist_contract:
  assumes "wf_fs (fs w)" "store_path (fs w) p" "tempfile_ok tf"
  shows "secure_post p s w (persist_folder_secret tf p s w)"
proof -
  have p: "p \<noteq> []" using assms(2) by (simp add: store_path_def)
  obtain r1 w1 where 1: "ensure_dir_700 (butlast p) w = (r1, w1)" by fastforce
  show ?thesis
  proof (cases r1)
    case (Inl e)
    then show ?thesis using 1 p ensure_error_post [of p w e w1 s] assms
      by (simp add: persist_folder_secret_def ensure_parent_700_def path_parent_def)
  next
    case (Inr u)
    obtain r2 w2 where 2: "write_via_tempfile tf (butlast p) ''.secret.'' (Some 384) s p w1 = (r2, w2)" by fastforce
    show ?thesis
      using 1 2 p Inr ensure_then_write_post [of p w w1 tf "''.secret.''" s r2 w2 "atomic_write_err p"] assms
      by (cases r2) (simp_all add: persist_folder_secret_def ensure_parent_700_def path_parent_def atomic_write_0o600_def)
  qed
qed

lemma generate_eq:
  "generate_and_persist_key rnd tf p w =
     and_then (persist_folder_secret tf p rnd w) (\<lambda>_ w'. (Inr (SecretKey rnd), w'))"
  "generate_and_persist_folder_secret rnd tf p w =
     and_then (persist_folder_secret tf p rnd w) (\<lambda>_ w'. (Inr rnd, w'))"
  by (auto simp: generate_and_persist_key_def generate_and_persist_folder_secret_def
      persist_folder_secret_def and_then_def split: prod.splits sum.splits)

definition dec_folder_secret :: "path \<Rightarrow> bytes \<Rightarrow> err + bytes option" where
  "dec_folder_secret p b =
     (if length b \<noteq> FOLDER_SECRET_BYTES then
        Inl (Msg (display p @ '' has invalid size: '' @ show_nat (length b)
               @ '' bytes (expected '' @ show_nat FOLDER_SECRET_BYTES @ '')''))
      else Inr (Some b))"

interpretation folder_secret: secure_store
  "\<lambda>s p. persist_folder_secret tf p s" try_load_folder_secret dec_folder_secret Some
  "\<lambda>s. tempfile_ok tf \<and> length s = 16" for tf
proof
  fix w :: "'z world_scheme" and p and s :: bytes
  assume a: "wf_fs (fs w)" "store_path (fs w) p" "tempfile_ok tf \<and> length s = 16"
  then show "\<exists>b. secure_post p b w (persist_folder_secret tf p s w)
    \<and> (fst (persist_folder_secret tf p s w) = Inr () \<longrightarrow> dec_folder_secret p b = Inr (Some s))"
    using persist_contract [of w p tf s] by (auto simp: dec_folder_secret_def FOLDER_SECRET_BYTES_def)
next
  fix w :: "'z world_scheme" and p b m
  assume "wf_fs (fs w)" "\<forall>c\<in>set p. normal c" "node_at (fs w) p = Some (File b m)" "faults w = []"
  then have "fs_read p w = (Inr b, w)" by (rule fs_read_file)
  then show "try_load_folder_secret p w = (dec_folder_secret p b, w)"
    by (simp add: try_load_folder_secret_def dec_folder_secret_def)
qed

definition dec_key :: "path \<Rightarrow> bytes \<Rightarrow> err + secret_key" where
  "dec_key p b =
     (if length b \<noteq> KEY_BYTES then
        Inl (Msg (display p @ '' has invalid size: '' @ show_nat (length b)
               @ '' bytes (expected '' @ show_nat KEY_BYTES @ '')''))
      else Inr (SecretKey b))"

lemma load_key_file:
  assumes "wf_fs (fs w)" "\<forall>c\<in>set p. normal c" "node_at (fs w) p = Some (File b m)" "faults w = []"
  shows "load_or_create_endpoint_key rnd tf p w = (dec_key p b, w)"
  using fs_read_file [OF assms] by (simp add: load_or_create_endpoint_key_def dec_key_def)

lemma generate_key_contract:
  assumes "wf_fs (fs w)" "store_path (fs w) p" "tempfile_ok tf"
    and "generate_and_persist_key rnd tf p w = (Inr k, w')"
  shows "k = SecretKey rnd" "node_at (fs w') p = Some (File rnd 384)" "wf_fs (fs w')" "fs_step w w'"
    "butlast p \<noteq> [] \<Longrightarrow> node_at (fs w') (butlast p) = Some (Dir 448)"
  using persist_contract [OF assms(1-3), of rnd] assms(4)
  by (auto simp: generate_eq and_then_Inr_iff secure_post_def)

text \<open>A key that was created is the key every later start loads, whatever the generator yields then.\<close>

lemma created_key_reloaded:
  assumes "wf_fs (fs w)" "store_path (fs w) p" "tempfile_ok tf" "length rnd = 32"
    and "node_at (fs w) p = None" "faults w' = []"
    and "load_or_create_endpoint_key rnd tf p w = (Inr k, w')"
  shows "k = SecretKey rnd \<and> node_at (fs w') p = Some (File rnd 384)
    \<and> load_or_create_endpoint_key rnd' tf p w' = (Inr k, w')"
proof -
  obtain r w1 where 1: "fs_read p w = (r, w1)" by fastforce
  have i: "fs_step w w1" "fs w1 = fs w" using fs_read_inv [OF 1] by auto
  have "\<not> (\<exists>b. r = Inr b)"
  proof
    assume "\<exists>b. r = Inr b"
    then obtain q where q: "locate True (fs w) p = Inr q" "node_at (fs w) q \<noteq> None"
      using fs_read_inv [OF 1] by (auto simp: k_read_def split: sum.splits option.splits)
    have p: "p \<noteq> []" "plain (fs w) p"
    proof -
      show "p \<noteq> []" using assms(2) by (simp add: store_path_def)
      show "plain (fs w) p"
        using assms(2,5) store_path_normal [OF assms(2)] unfolding plain_def store_path_def dir_path_def
        by (metis butlast_append option.discI prefix_def)
    qed
    then have "q = p" using locate_plain [OF assms(1) p(2,1), of True] q(1) by (simp split: if_splits)
    then show False using q(2) assms(5) by simp
  qed
  then have g: "generate_and_persist_key rnd tf p w1 = (Inr k, w')"
    using assms(7) 1 by (cases r) (auto simp: load_or_create_endpoint_key_def split: if_splits)
  have "k = SecretKey rnd" "node_at (fs w') p = Some (File rnd 384)" "wf_fs (fs w')"
    using generate_key_contract [OF _ _ assms(3) g] assms(1,2) i by auto
  then show ?thesis
    using load_key_file [of w' p rnd 384 rnd' tf] store_path_normal [OF assms(2)] assms(4,6)
    by (simp add: dec_key_def KEY_BYTES_def)
qed

end
