(* ===== verification/Bootstrap_Peers.thy ===== *)
theory Bootstrap_Peers
  imports Keystore
begin

text \<open>
  \<open>src/src/bootstrap_peers.rs\<close>: the list of peer addresses given to gossip at start-up, stored as
  JSON.  The file is a \<open>secure_store\<close>; \<open>add_or_replace\<close> updates it.
\<close>

definition BOOTSTRAP_SCHEMA_VERSION :: "32 word" where
  "BOOTSTRAP_SCHEMA_VERSION = 1"

record bootstrap_peers_json =
  bp_version :: "32 word"
  bp_peers :: "endpoint_addr list"

record bootstrap_codec =
  bp_ser :: "bootstrap_peers_json \<Rightarrow> str + bytes"
  bp_de :: "bytes \<Rightarrow> str + bootstrap_peers_json"

definition bootstrap_codec_ok :: "bootstrap_codec \<Rightarrow> bool" where
  "bootstrap_codec_ok a \<longleftrightarrow> (\<forall>j. \<exists>b. bp_ser a j = Inr b \<and> bp_de a b = Inr j)"

definition parse_bootstrap_peers :: "bootstrap_codec \<Rightarrow> path \<Rightarrow> bytes \<Rightarrow> err + endpoint_addr list" where
  "parse_bootstrap_peers a p b =
     res_bind (ctx (''parse '' @ display p) (bp_de a b)) (\<lambda>j.
       if bp_version j \<noteq> BOOTSTRAP_SCHEMA_VERSION then
         Inl (Msg (''bootstrap-peers schema version mismatch: expected ''
           @ show_nat (unat BOOTSTRAP_SCHEMA_VERSION) @ '', got '' @ show_nat (unat (bp_version j))))
       else Inr (bp_peers j))"

definition load_bootstrap_peers ::
  "bootstrap_codec \<Rightarrow> path \<Rightarrow> 'z world_scheme \<Rightarrow> (err + endpoint_addr list) \<times> 'z world_scheme" where
  "load_bootstrap_peers a p w =
     (case fs_read p w of
        (Inr b, w1) \<Rightarrow> (parse_bootstrap_peers a p b, w1)
      | (Inl e, w1) \<Rightarrow>
          if e = NotFound then (Inr [], w1) else (Inl (Ctx (''read '' @ display p) (Io e)), w1))"

fun plain_write_err :: "path \<Rightarrow> write_step \<times> io_kind \<Rightarrow> err" where
  "plain_write_err p (AtCreate, e) = Ctx (''tempfile_in '' @ display (butlast p)) (Io e)"
| "plain_write_err p (AtWrite, e) = Ctx ''write tempfile'' (Io e)"
| "plain_write_err p (AtMetadata, e) = Io e"
| "plain_write_err p (AtChmod, e) = Io e"
| "plain_write_err p (AtPersist, e) = Ctx (''persist '' @ display p) (Io e)"

definition save_bootstrap_peers ::
  "bootstrap_codec \<Rightarrow> tempfile_api \<Rightarrow> path \<Rightarrow> endpoint_addr list \<Rightarrow> 'z world_scheme
     \<Rightarrow> (err + unit) \<times> 'z world_scheme" where
  "save_bootstrap_peers a tf p peers w =
     and_then (ensure_parent_700 p w) (\<lambda>_ w1.
       case path_parent p of
         None \<Rightarrow> (Inl (Msg ''no parent''), w1)
       | Some parent \<Rightarrow>
           (case bp_ser a \<lparr>bp_version = BOOTSTRAP_SCHEMA_VERSION, bp_peers = peers\<rparr> of
              Inl e \<Rightarrow> (Inl (Ctx ''serialize bootstrap-peers json'' (Msg e)), w1)
            | Inr b \<Rightarrow>
                (case write_via_tempfile tf parent ''.bootstrap-peers.'' (Some 384) b p w1 of
                   (Inl e, w2) \<Rightarrow> (Inl (plain_write_err p e), w2)
                 | (Inr _, w2) \<Rightarrow> (Inr (), w2))))"

text \<open>\<open>iter_mut().find(same id)\<close> replaced by the new address, or the new address pushed.\<close>

fun replace_or_push :: "endpoint_addr \<Rightarrow> endpoint_addr list \<Rightarrow> endpoint_addr list" where
  "replace_or_push new [] = [new]"
| "replace_or_push new (p # ps) =
     (if addr_id p = addr_id new then new # ps else p # replace_or_push new ps)"

definition add_or_replace ::
  "bootstrap_codec \<Rightarrow> tempfile_api \<Rightarrow> path \<Rightarrow> endpoint_addr \<Rightarrow> 'z world_scheme
     \<Rightarrow> (err + unit) \<times> 'z world_scheme" where
  "add_or_replace a tf p new_addr w =
     and_then (load_bootstrap_peers a p w) (\<lambda>peers w1.
       save_bootstrap_peers a tf p (replace_or_push new_addr peers) w1)"

section \<open>The store\<close>

lemma save_bootstrap_contract:
  assumes "wf_fs (fs w)" "store_path (fs w) p" "tempfile_ok tf" "bootstrap_codec_ok a"
  shows "\<exists>b. secure_post p b w (save_bootstrap_peers a tf p peers w) \<and> parse_bootstrap_peers a p b = Inr peers"
proof -
  have p: "p \<noteq> []" using assms(2) by (simp add: store_path_def)
  obtain b where b: "bp_ser a \<lparr>bp_version = 1, bp_peers = peers\<rparr> = Inr b"
    "bp_de a b = Inr \<lparr>bp_version = 1, bp_peers = peers\<rparr>"
    using assms(4) unfolding bootstrap_codec_ok_def by blast
  obtain r1 w1 where 1: "ensure_dir_700 (butlast p) w = (r1, w1)" by fastforce
  have "secure_post p b w (save_bootstrap_peers a tf p peers w)"
  proof (cases r1)
    case (Inl e)
    then show ?thesis using 1 p ensure_error_post [of p w e w1 b] assms
      by (simp add: save_bootstrap_peers_def ensure_parent_700_def path_parent_def)
  next
    case (Inr u)
    obtain r2 w2 where 2: "write_via_tempfile tf (butlast p) ''.bootstrap-peers.'' (Some 384) b p w1 = (r2, w2)"
      by fastforce
    show ?thesis
      using 1 2 p Inr b ensure_then_write_post [of p w w1 tf "''.bootstrap-peers.''" b r2 w2 "plain_write_err p"] assms
      by (cases r2)
        (simp_all add: save_bootstrap_peers_def ensure_parent_700_def path_parent_def BOOTSTRAP_SCHEMA_VERSION_def)
  qed
  moreover have "parse_bootstrap_peers a p b = Inr peers"
    using b by (simp add: parse_bootstrap_peers_def BOOTSTRAP_SCHEMA_VERSION_def)
  ultimately show ?thesis by blast
qed

interpretation bootstrap: secure_store
  "\<lambda>ps p. save_bootstrap_peers a tf p ps" "load_bootstrap_peers a" "parse_bootstrap_peers a" "\<lambda>ps. ps"
  "\<lambda>ps. tempfile_ok tf \<and> bootstrap_codec_ok a" for a tf
proof
  fix w :: "'z world_scheme" and p and v :: "endpoint_addr list"
  assume "wf_fs (fs w)" "store_path (fs w) p" "tempfile_ok tf \<and> bootstrap_codec_ok a"
  then show "\<exists>b. secure_post p b w (save_bootstrap_peers a tf p v w)
    \<and> (fst (save_bootstrap_peers a tf p v w) = Inr () \<longrightarrow> parse_bootstrap_peers a p b = Inr v)"
    using save_bootstrap_contract by blast
next
  fix w :: "'z world_scheme" and p b m
  assume "wf_fs (fs w)" "\<forall>c\<in>set p. normal c" "node_at (fs w) p = Some (File b m)" "faults w = []"
  then have "fs_read p w = (Inr b, w)" by (rule fs_read_file)
  then show "load_bootstrap_peers a p w = (parse_bootstrap_peers a p b, w)"
    by (simp add: load_bootstrap_peers_def)
qed

section \<open>Adding an address\<close>

lemma replace_or_push_ids:
  "set (map addr_id (replace_or_push new ps)) = insert (addr_id new) (set (map addr_id ps))"
  by (induction ps) auto

lemma replace_or_push_distinct:
  "distinct (map addr_id ps) \<Longrightarrow> distinct (map addr_id (replace_or_push new ps))"
proof (induction ps)
  case (Cons p ps)
  then show ?case using replace_or_push_ids [of new ps] by auto
qed simp

lemma replace_or_push_find:
  "find (\<lambda>q. addr_id q = i) (replace_or_push new ps) =
     (if i = addr_id new then Some new else find (\<lambda>q. addr_id q = i) ps)"
  by (induction ps) auto

lemma load_bootstrap_inv:
  assumes "load_bootstrap_peers a p w = (r, w')"
  shows "fs_step w w'" "fs w' = fs w"
proof -
  obtain r1 w1 where 1: "fs_read p w = (r1, w1)" by fastforce
  then show "fs_step w w'" "fs w' = fs w" using fs_read_inv [OF 1] assms
    by (auto simp: load_bootstrap_peers_def split: sum.splits if_splits)
qed

lemma add_or_replace_spec:
  assumes "wf_fs (fs w)" "store_path (fs w) p" "tempfile_ok tf" "bootstrap_codec_ok a"
    and "add_or_replace a tf p new w = (Inr (), w')" "faults w' = []"
  shows "\<exists>ps w1. load_bootstrap_peers a p w = (Inr ps, w1)
    \<and> load_bootstrap_peers a p w' = (Inr (replace_or_push new ps), w')"
proof -
  obtain ps w1 where 1: "load_bootstrap_peers a p w = (Inr ps, w1)"
    "save_bootstrap_peers a tf p (replace_or_push new ps) w1 = (Inr (), w')"
    using assms(5) by (auto simp: add_or_replace_def and_then_Inr_iff)
  have "fs w1 = fs w" using load_bootstrap_inv [OF 1(1)] by simp
  then have "load_bootstrap_peers a p w' = (Inr (replace_or_push new ps), w')"
    using bootstrap.load_after_save [of w1 p tf a, OF _ _ _ 1(2) assms(6)] assms(1-4) by simp
  then show ?thesis using 1(1) by blast
qed

text \<open>When the update fails at any step, the stored list is what it was.\<close>

lemma add_or_replace_error:
  assumes "wf_fs (fs w)" "store_path (fs w) p" "tempfile_ok tf" "bootstrap_codec_ok a"
    and "add_or_replace a tf p new w = (Inl e, w')"
  shows "node_at (fs w') p = node_at (fs w) p"
proof -
  obtain r w1 where 1: "load_bootstrap_peers a p w = (r, w1)" by fastforce
  have s: "fs w1 = fs w" using load_bootstrap_inv [OF 1] by simp
  show ?thesis
  proof (cases r)
    case (Inl x)
    then show ?thesis using 1 s assms(5) by (simp add: add_or_replace_def)
  next
    case (Inr ps)
    then have "save_bootstrap_peers a tf p (replace_or_push new ps) w1 = (Inl e, w')"
      using 1 assms(5) by (simp add: add_or_replace_def)
    then show ?thesis using bootstrap.save_error_keeps(1) [of w1 p tf a] assms(1-4) s by auto
  qed
qed

end
