(* ===== verification/Allowlist.thy ===== *)
theory Allowlist
  imports Bootstrap_Peers
begin

text \<open>
  \<open>src/src/allowlist.rs\<close>: the set of peers allowed to write, with its JSON file.  The mutex
  \<open>inner\<close> is the atomicity of the definitions here; \<open>persist_lock\<close> is modelled in \<open>Allowlist_Lock\<close>,
  over the same sub-steps (\<open>add_begin\<close>, \<open>add_restore\<close>, \<open>remove_begin\<close>, \<open>remove_restore\<close>).
\<close>

definition ALLOWLIST_SCHEMA_VERSION :: "32 word" where
  "ALLOWLIST_SCHEMA_VERSION = 2"

record peer_info =
  pi_label :: "str option"
  pi_added_at :: int
  pi_last_seen_at :: "int option"

definition peer_info_new :: "str option \<Rightarrow> int \<Rightarrow> peer_info" where
  "peer_info_new label added_at = \<lparr>pi_label = label, pi_added_at = added_at, pi_last_seen_at = None\<rparr>"

record allow_list_json =
  alj_version :: "32 word"
  alj_open_all :: bool
  alj_peers :: "(str \<times> peer_info) list"

record allow_list =
  al_open_all :: bool
  al_peers :: "(endpoint_id \<times> peer_info) list"

record allowlist_codec =
  alj_ser :: "allow_list_json \<Rightarrow> str + bytes"
  alj_de :: "bytes \<Rightarrow> str + allow_list_json"

text \<open>Serializing succeeds, and reading back yields the same map, in an order of its own.\<close>

definition allowlist_codec_ok :: "allowlist_codec \<Rightarrow> bool" where
  "allowlist_codec_ok a \<longleftrightarrow>
     (\<forall>j. keys_distinct (alj_peers j) \<longrightarrow>
        (\<exists>b j'. alj_ser a j = Inr b \<and> alj_de a b = Inr j' \<and> alj_version j' = alj_version j
           \<and> alj_open_all j' = alj_open_all j \<and> keys_distinct (alj_peers j')
           \<and> map_of (alj_peers j') = map_of (alj_peers j)))"

definition empty_strict :: allow_list where
  "empty_strict = \<lparr>al_open_all = False, al_peers = []\<rparr>"

definition open_all :: allow_list where
  "open_all = \<lparr>al_open_all = True, al_peers = []\<rparr>"

fun parse_peers ::
  "id_api \<Rightarrow> (str \<times> peer_info) list \<Rightarrow> (endpoint_id \<times> peer_info) list \<Rightarrow> err + (endpoint_id \<times> peer_info) list" where
  "parse_peers ids [] acc = Inr acc"
| "parse_peers ids ((k, v) # kvs) acc =
     (case id_from_str ids k of
        Inl e \<Rightarrow> Inl (Msg (''invalid peer_id `'' @ k @ ''`: '' @ e))
      | Inr i \<Rightarrow> parse_peers ids kvs (AList.update i v acc))"

definition from_json_bytes :: "id_api \<Rightarrow> allowlist_codec \<Rightarrow> bytes \<Rightarrow> err + allow_list" where
  "from_json_bytes ids a b =
     res_bind (ctx ''parse allowlist json'' (alj_de a b)) (\<lambda>j.
       if alj_version j \<noteq> ALLOWLIST_SCHEMA_VERSION then
         Inl (Msg (''allowlist schema version mismatch: expected '' @ show_nat (unat ALLOWLIST_SCHEMA_VERSION)
                   @ '', got '' @ show_nat (unat (alj_version j))))
       else res_bind (parse_peers ids (alj_peers j) []) (\<lambda>peers.
              Inr \<lparr>al_open_all = alj_open_all j, al_peers = peers\<rparr>))"

definition load_or_strict_empty ::
  "id_api \<Rightarrow> allowlist_codec \<Rightarrow> path \<Rightarrow> 'z world_scheme \<Rightarrow> (err + allow_list) \<times> 'z world_scheme" where
  "load_or_strict_empty ids a p w =
     (case fs_read p w of
        (Inr b, w1) \<Rightarrow> (from_json_bytes ids a b, w1)
      | (Inl e, w1) \<Rightarrow>
          if e = NotFound then (Inr empty_strict, w1)
          else (Inl (Ctx (''read '' @ display p) (Io e)), w1))"

definition al_contains :: "allow_list \<Rightarrow> endpoint_id \<Rightarrow> bool" where
  "al_contains al i \<longleftrightarrow> al_open_all al \<or> map_of (al_peers al) i \<noteq> None"

definition is_open_all :: "allow_list \<Rightarrow> bool" where
  "is_open_all al = al_open_all al"

definition al_is_empty :: "allow_list \<Rightarrow> bool" where
  "al_is_empty al \<longleftrightarrow> al_peers al = []"

definition al_len :: "allow_list \<Rightarrow> nat" where
  "al_len al = length (al_peers al)"

definition al_list :: "allow_list \<Rightarrow> (endpoint_id \<times> peer_info) list" where
  "al_list al = al_peers al"

definition al_add :: "endpoint_id \<Rightarrow> peer_info \<Rightarrow> allow_list \<Rightarrow> allow_list" where
  "al_add i info al = al\<lparr>al_open_all := False, al_peers := AList.update i info (al_peers al)\<rparr>"

definition al_remove :: "endpoint_id \<Rightarrow> allow_list \<Rightarrow> peer_info option \<times> allow_list" where
  "al_remove i al = (map_of (al_peers al) i, al\<lparr>al_peers := AList.delete i (al_peers al)\<rparr>)"

text \<open>The collected map has the id strings as keys; an equal key would be overwritten.\<close>

definition string_peers :: "id_api \<Rightarrow> (endpoint_id \<times> peer_info) list \<Rightarrow> (str \<times> peer_info) list" where
  "string_peers ids ps = fold (\<lambda>(k, v) m. AList.update (id_to_string ids k) v m) ps []"

definition snapshot_json_bytes :: "id_api \<Rightarrow> allowlist_codec \<Rightarrow> allow_list \<Rightarrow> err + bytes" where
  "snapshot_json_bytes ids a al =
     ctx ''serialize allowlist json''
       (alj_ser a \<lparr>alj_version = ALLOWLIST_SCHEMA_VERSION, alj_open_all = al_open_all al,
                  alj_peers = string_peers ids (al_peers al)\<rparr>)"

definition write_atomic_0o600 ::
  "tempfile_api \<Rightarrow> path \<Rightarrow> bytes \<Rightarrow> 'z world_scheme \<Rightarrow> (err + unit) \<times> 'z world_scheme" where
  "write_atomic_0o600 tf p b w =
     and_then (ensure_parent_700 p w) (\<lambda>_ w1.
       case path_parent p of
         None \<Rightarrow> (Inl (Msg ''no parent''), w1)
       | Some parent \<Rightarrow>
           (case write_via_tempfile tf parent ''.allowlist.'' (Some 384) b p w1 of
              (Inl e, w2) \<Rightarrow> (Inl (plain_write_err p e), w2)
            | (Inr _, w2) \<Rightarrow> (Inr (), w2)))"

definition al_save ::
  "id_api \<Rightarrow> allowlist_codec \<Rightarrow> tempfile_api \<Rightarrow> path \<Rightarrow> allow_list \<Rightarrow> 'z world_scheme
     \<Rightarrow> (err + unit) \<times> 'z world_scheme" where
  "al_save ids a tf p al w =
     (case snapshot_json_bytes ids a al of
        Inl e \<Rightarrow> (Inl e, w)
      | Inr b \<Rightarrow> write_atomic_0o600 tf p b w)"

text \<open>The rollback of an addition, and the critical section that mutates and snapshots.\<close>

definition add_restore ::
  "endpoint_id \<Rightarrow> bool \<Rightarrow> peer_info option \<Rightarrow> allow_list \<Rightarrow> allow_list" where
  "add_restore i prev_open_all prev_info al =
     al\<lparr>al_open_all := prev_open_all,
        al_peers := (case prev_info of
                       Some old \<Rightarrow> AList.update i old (al_peers al)
                     | None \<Rightarrow> AList.delete i (al_peers al))\<rparr>"

definition add_begin ::
  "id_api \<Rightarrow> allowlist_codec \<Rightarrow> endpoint_id \<Rightarrow> peer_info \<Rightarrow> allow_list
     \<Rightarrow> (err + bytes \<times> bool \<times> peer_info option) \<times> allow_list" where
  "add_begin ids a i info al =
     (let prev_open_all = al_open_all al;
          prev_info = map_of (al_peers al) i;
          g = al\<lparr>al_peers := AList.update i info (al_peers al), al_open_all := False\<rparr> in
      case snapshot_json_bytes ids a g of
        Inr b \<Rightarrow> (Inr (b, prev_open_all, prev_info), g)
      | Inl e \<Rightarrow> (Inl e, add_restore i prev_open_all prev_info g))"

definition add_and_save ::
  "id_api \<Rightarrow> allowlist_codec \<Rightarrow> tempfile_api \<Rightarrow> endpoint_id \<Rightarrow> peer_info \<Rightarrow> path \<Rightarrow> allow_list
     \<Rightarrow> 'z world_scheme \<Rightarrow> (err + unit) \<times> allow_list \<times> 'z world_scheme" where
  "add_and_save ids a tf i info p al w =
     (case add_begin ids a i info al of
        (Inl e, al1) \<Rightarrow> (Inl e, al1, w)
      | (Inr (b, prev_open_all, prev_info), al1) \<Rightarrow>
          (case write_atomic_0o600 tf p b w of
             (Inl e, w1) \<Rightarrow> (Inl e, add_restore i prev_open_all prev_info al1, w1)
           | (Inr _, w1) \<Rightarrow> (Inr (), al1, w1)))"

definition remove_restore :: "endpoint_id \<Rightarrow> peer_info option \<Rightarrow> allow_list \<Rightarrow> allow_list" where
  "remove_restore i prev al =
     (case prev of
        Some old \<Rightarrow> al\<lparr>al_peers := AList.update i old (al_peers al)\<rparr>
      | None \<Rightarrow> al)"

definition remove_begin ::
  "id_api \<Rightarrow> allowlist_codec \<Rightarrow> endpoint_id \<Rightarrow> allow_list
     \<Rightarrow> (err + peer_info option \<times> bytes) \<times> allow_list" where
  "remove_begin ids a i al =
     (let prev = map_of (al_peers al) i;
          g = al\<lparr>al_peers := AList.delete i (al_peers al)\<rparr> in
      case snapshot_json_bytes ids a g of
        Inr b \<Rightarrow> (Inr (prev, b), g)
      | Inl e \<Rightarrow> (Inl e, remove_restore i prev g))"

definition remove_and_save ::
  "id_api \<Rightarrow> allowlist_codec \<Rightarrow> tempfile_api \<Rightarrow> endpoint_id \<Rightarrow> path \<Rightarrow> allow_list
     \<Rightarrow> 'z world_scheme \<Rightarrow> (err + peer_info option) \<times> allow_list \<times> 'z world_scheme" where
  "remove_and_save ids a tf i p al w =
     (case remove_begin ids a i al of
        (Inl e, al1) \<Rightarrow> (Inl e, al1, w)
      | (Inr (prev, b), al1) \<Rightarrow>
          (case write_atomic_0o600 tf p b w of
             (Inl e, w1) \<Rightarrow> (Inl e, remove_restore i prev al1, w1)
           | (Inr _, w1) \<Rightarrow> (Inr prev, al1, w1)))"

section \<open>The abstract allowlist\<close>

text \<open>The mode and the map of peers, without the iteration order.\<close>

definition al_abs :: "allow_list \<Rightarrow> bool \<times> (endpoint_id \<rightharpoonup> peer_info)" where
  "al_abs al = (al_open_all al, map_of (al_peers al))"

definition al_wf :: "allow_list \<Rightarrow> bool" where
  "al_wf al \<longleftrightarrow> keys_distinct (al_peers al)"

lemma al_abs_contains: "al_contains al i \<longleftrightarrow> fst (al_abs al) \<or> snd (al_abs al) i \<noteq> None"
  by (simp add: al_contains_def al_abs_def)

lemma string_peers_acc:
  assumes "id_ok ids"
  shows "keys_distinct m \<Longrightarrow> keys_distinct (fold (\<lambda>(k, v) m. AList.update (id_to_string ids k) v m) ps m)"
    and "distinct (map fst ps) \<Longrightarrow>
      map_of (fold (\<lambda>(k, v) m. AList.update (id_to_string ids k) v m) ps m) (id_to_string ids i) =
        (case map_of ps i of Some v \<Rightarrow> Some v | None \<Rightarrow> map_of m (id_to_string ids i))"
    and "fst ` set (fold (\<lambda>(k, v) m. AList.update (id_to_string ids k) v m) ps m)
           = id_to_string ids ` fst ` set ps \<union> fst ` set m"
proof (induction ps arbitrary: m)
  case (Cons kv ps)
  obtain k v where kv: "kv = (k, v)" by (cases kv)
  {
    case 1
    then show ?case using Cons.IH(1) by (simp add: kv)
  next
    case 2
    have inj: "id_to_string ids i = id_to_string ids k \<longleftrightarrow> i = k"
      using assms unfolding id_ok_def by (metis sum.inject(2))
    have "map_of ps k = None" using 2 by (simp add: kv map_of_eq_None_iff)
    then show ?case using Cons.IH(2) 2 inj by (auto simp: kv split: option.splits)
  next
    case 3
    show ?case using Cons.IH(3) by (auto simp: kv dom_update)
  }
qed simp_all

lemma string_peers_facts:
  assumes "id_ok ids" "al_wf al"
  shows "keys_distinct (string_peers ids (al_peers al))"
    "map_of (string_peers ids (al_peers al)) (id_to_string ids i) = map_of (al_peers al) i"
    "fst ` set (string_peers ids (al_peers al)) \<subseteq> range (id_to_string ids)"
  using string_peers_acc(1,2,3) [OF assms(1), where m = "[]" and ps = "al_peers al"] assms(2)
  by (auto simp: string_peers_def al_wf_def keys_distinct_def split: option.splits)

lemma parse_peers_spec:
  assumes "id_ok ids"
  shows "fst ` set kvs \<subseteq> range (id_to_string ids) \<Longrightarrow> distinct (map fst kvs) \<Longrightarrow> keys_distinct acc \<Longrightarrow>
    \<exists>ps. parse_peers ids kvs acc = Inr ps \<and> keys_distinct ps
      \<and> (\<forall>i. map_of ps i = (case map_of kvs (id_to_string ids i) of Some v \<Rightarrow> Some v | None \<Rightarrow> map_of acc i))"
proof (induction kvs arbitrary: acc)
  case (Cons kv kvs)
  obtain i v where kv: "kv = (id_to_string ids i, v)" using Cons.prems(1) by (cases kv) auto
  have p: "id_from_str ids (id_to_string ids i) = Inr i" using assms by (simp add: id_ok_def)
  have inj: "id_to_string ids j = id_to_string ids i \<longleftrightarrow> j = i" for j
    using assms unfolding id_ok_def by (metis sum.inject(2))
  have n: "map_of kvs (id_to_string ids i) = None" using Cons.prems(2) by (simp add: kv map_of_eq_None_iff)
  obtain ps where ps: "parse_peers ids kvs (AList.update i v acc) = Inr ps" "keys_distinct ps"
    "\<forall>j. map_of ps j = (case map_of kvs (id_to_string ids j) of Some v \<Rightarrow> Some v
                        | None \<Rightarrow> map_of (AList.update i v acc) j)"
    using Cons.IH [of "AList.update i v acc"] Cons.prems by auto
  then show ?case using p n inj by (auto simp: kv split: option.splits)
qed simp

text \<open>A snapshot parses back to the same mode and the same map.\<close>

lemma snapshot_round_trip:
  assumes "id_ok ids" "allowlist_codec_ok a" "al_wf al"
  shows "\<exists>b al'. snapshot_json_bytes ids a al = Inr b \<and> from_json_bytes ids a b = Inr al'
           \<and> al_wf al' \<and> al_abs al' = al_abs al"
proof -
  note sp = string_peers_facts [OF assms(1,3)]
  let ?j = "\<lparr>alj_version = ALLOWLIST_SCHEMA_VERSION, alj_open_all = al_open_all al,
             alj_peers = string_peers ids (al_peers al)\<rparr>"
  obtain b j' where b: "alj_ser a ?j = Inr b" "alj_de a b = Inr j'"
    "alj_version j' = ALLOWLIST_SCHEMA_VERSION" "alj_open_all j' = al_open_all al"
    "keys_distinct (alj_peers j')" "map_of (alj_peers j') = map_of (string_peers ids (al_peers al))"
    using assms(2) [unfolded allowlist_codec_ok_def, rule_format, of ?j] sp(1) by auto
  have "fst ` set (alj_peers j') \<subseteq> range (id_to_string ids)"
    using sp(3) b(6) by (metis dom_map_of_conv_image_fst)
  then obtain ps where ps: "parse_peers ids (alj_peers j') [] = Inr ps" "keys_distinct ps"
    "\<forall>i. map_of ps i = (case map_of (alj_peers j') (id_to_string ids i) of Some v \<Rightarrow> Some v | None \<Rightarrow> map_of [] i)"
    using parse_peers_spec [OF assms(1), of "alj_peers j'" "[]"] b(5) by (auto simp: keys_distinct_def)
  have "map_of ps = map_of (al_peers al)"
    using ps(3) b(6) sp(2) by (auto simp: fun_eq_iff split: option.splits)
  then show ?thesis using b ps
    by (auto simp: snapshot_json_bytes_def from_json_bytes_def al_wf_def al_abs_def)
qed

lemma from_json_bytes_wf: "from_json_bytes ids a b = Inr al \<Longrightarrow> al_wf al"
proof -
  have "keys_distinct acc \<Longrightarrow> parse_peers ids kvs acc = Inr ps \<Longrightarrow> keys_distinct ps" for kvs acc ps
    by (induction ids kvs acc rule: parse_peers.induct) (auto split: sum.splits)
  from this [of "[]"] show "from_json_bytes ids a b = Inr al \<Longrightarrow> al_wf al"
    by (auto simp: from_json_bytes_def res_bind_Inr_iff al_wf_def split: if_splits)
qed

section \<open>Sub-steps of the updates\<close>

lemma al_wf_simps [simp]:
  "al_wf empty_strict" "al_wf open_all"
  "al_wf al \<Longrightarrow> al_wf (al_add i info al)"
  "al_wf al \<Longrightarrow> al_wf (snd (al_remove i al))"
  "al_wf al \<Longrightarrow> al_wf (add_restore i po pi al)"
  "al_wf al \<Longrightarrow> al_wf (remove_restore i pi al)"
  by (auto simp: al_wf_def empty_strict_def open_all_def al_add_def al_remove_def add_restore_def
      remove_restore_def split: option.splits)

lemma add_begin_spec:
  "add_begin ids a i info al =
     (case snapshot_json_bytes ids a (al_add i info al) of
        Inr b \<Rightarrow> (Inr (b, al_open_all al, map_of (al_peers al) i), al_add i info al)
      | Inl e \<Rightarrow> (Inl e, add_restore i (al_open_all al) (map_of (al_peers al) i) (al_add i info al)))"
proof -
  have "al\<lparr>al_peers := AList.update i info (al_peers al), al_open_all := False\<rparr> = al_add i info al"
    by (cases al) (simp add: al_add_def)
  then show ?thesis by (simp add: add_begin_def Let_def cong: sum.case_cong)
qed

lemma remove_begin_spec:
  "remove_begin ids a i al =
     (case snapshot_json_bytes ids a (snd (al_remove i al)) of
        Inr b \<Rightarrow> (Inr (map_of (al_peers al) i, b), snd (al_remove i al))
      | Inl e \<Rightarrow> (Inl e, remove_restore i (map_of (al_peers al) i) (snd (al_remove i al))))"
proof -
  have "al\<lparr>al_peers := AList.delete i (al_peers al)\<rparr> = snd (al_remove i al)"
    by (simp add: al_remove_def)
  then show ?thesis by (simp add: remove_begin_def Let_def del: snd_conv cong: sum.case_cong)
qed

lemma add_restore_exact:
  "al_abs (add_restore i (al_open_all al) (map_of (al_peers al) i) (al_add i info al)) = al_abs al"
  by (auto simp: al_abs_def add_restore_def al_add_def fun_eq_iff split: option.splits)

lemma remove_restore_exact:
  "al_abs (remove_restore i (map_of (al_peers al) i) (snd (al_remove i al))) = al_abs al"
  by (auto simp: al_abs_def remove_restore_def al_remove_def fun_eq_iff split: option.splits)

lemma al_add_abs: "al_abs (al_add i info al) = (False, (snd (al_abs al))(i \<mapsto> info))"
  by (simp add: al_abs_def al_add_def)

lemma al_remove_abs: "al_abs (snd (al_remove i al)) = (fst (al_abs al), (snd (al_abs al))(i := None))"
  by (simp add: al_abs_def al_remove_def)

section \<open>The store\<close>

lemma write_atomic_contract:
  assumes "wf_fs (fs w)" "store_path (fs w) p" "tempfile_ok tf"
  shows "secure_post p b w (write_atomic_0o600 tf p b w)"
proof -
  have p: "p \<noteq> []" using assms(2) by (simp add: store_path_def)
  obtain r1 w1 where 1: "ensure_dir_700 (butlast p) w = (r1, w1)" by fastforce
  show ?thesis
  proof (cases r1)
    case (Inl e)
    then show ?thesis using 1 p ensure_error_post [of p w e w1 b] assms
      by (simp add: write_atomic_0o600_def ensure_parent_700_def path_parent_def)
  next
    case (Inr u)
    obtain r2 w2 where 2: "write_via_tempfile tf (butlast p) ''.allowlist.'' (Some 384) b p w1 = (r2, w2)"
      by fastforce
    show ?thesis
      using 1 2 p Inr ensure_then_write_post [of p w w1 tf "''.allowlist.''" b r2 w2 "plain_write_err p"] assms
      by (cases r2) (simp_all add: write_atomic_0o600_def ensure_parent_700_def path_parent_def)
  qed
qed

definition dec_allowlist ::
  "id_api \<Rightarrow> allowlist_codec \<Rightarrow> path \<Rightarrow> bytes \<Rightarrow> err + bool \<times> (endpoint_id \<rightharpoonup> peer_info)" where
  "dec_allowlist ids a p b = res_bind (from_json_bytes ids a b) (\<lambda>al. Inr (al_abs al))"

definition load_abs ::
  "id_api \<Rightarrow> allowlist_codec \<Rightarrow> path \<Rightarrow> 'z world_scheme
     \<Rightarrow> (err + bool \<times> (endpoint_id \<rightharpoonup> peer_info)) \<times> 'z world_scheme" where
  "load_abs ids a p w = and_then (load_or_strict_empty ids a p w) (\<lambda>al w1. (Inr (al_abs al), w1))"

interpretation allowlist_file: secure_store
  "\<lambda>al p. al_save ids a tf p al" "load_abs ids a" "dec_allowlist ids a" al_abs
  "\<lambda>al. tempfile_ok tf \<and> id_ok ids \<and> allowlist_codec_ok a \<and> al_wf al" for ids a tf
proof
  fix w :: "'z world_scheme" and p and al :: allow_list
  assume h: "wf_fs (fs w)" "store_path (fs w) p" "tempfile_ok tf \<and> id_ok ids \<and> allowlist_codec_ok a \<and> al_wf al"
  then obtain b al' where "snapshot_json_bytes ids a al = Inr b" "from_json_bytes ids a b = Inr al'"
    "al_abs al' = al_abs al" using snapshot_round_trip by blast
  then show "\<exists>b. secure_post p b w (al_save ids a tf p al w)
    \<and> (fst (al_save ids a tf p al w) = Inr () \<longrightarrow> dec_allowlist ids a p b = Inr (al_abs al))"
    using write_atomic_contract [of w p tf b] h by (auto simp: al_save_def dec_allowlist_def)
next
  fix w :: "'z world_scheme" and p b m
  assume "wf_fs (fs w)" "\<forall>c\<in>set p. normal c" "node_at (fs w) p = Some (File b m)" "faults w = []"
  then have "fs_read p w = (Inr b, w)" by (rule fs_read_file)
  then show "load_abs ids a p w = (dec_allowlist ids a p b, w)"
    by (cases "from_json_bytes ids a b") (simp_all add: load_abs_def load_or_strict_empty_def dec_allowlist_def)
qed

section \<open>Updates with persistence\<close>

text \<open>What an update needs of its environment, and what it guarantees on success and on failure.\<close>

definition al_env :: "id_api \<Rightarrow> allowlist_codec \<Rightarrow> tempfile_api \<Rightarrow> path \<Rightarrow> allow_list \<Rightarrow> fs \<Rightarrow> bool" where
  "al_env ids a tf p al f \<longleftrightarrow>
     id_ok ids \<and> allowlist_codec_ok a \<and> tempfile_ok tf \<and> al_wf al \<and> wf_fs f \<and> store_path f p"

lemma al_envD:
  "al_env ids a tf p al f \<Longrightarrow> id_ok ids" "al_env ids a tf p al f \<Longrightarrow> allowlist_codec_ok a"
  "al_env ids a tf p al f \<Longrightarrow> tempfile_ok tf" "al_env ids a tf p al f \<Longrightarrow> al_wf al"
  "al_env ids a tf p al f \<Longrightarrow> wf_fs f" "al_env ids a tf p al f \<Longrightarrow> store_path f p"
  by (simp_all add: al_env_def)

lemma write_snapshot:
  assumes "id_ok ids" "allowlist_codec_ok a" "tempfile_ok tf" "al_wf al" "wf_fs (fs w)" "store_path (fs w) p"
    and "snapshot_json_bytes ids a al = Inr b" "write_atomic_0o600 tf p b w = (r, w')"
  shows "fs_step w w'" "wf_fs (fs w')" "store_frame p (fs w) (fs w')"
    "r = Inr () \<Longrightarrow> allowlist_file.holds ids a (fs w') p (al_abs al)"
    "r = Inl e \<Longrightarrow> node_at (fs w') p = node_at (fs w) p"
proof -
  have "al_save ids a tf p al w = (r, w')" using assms(7,8) by (simp add: al_save_def)
  then show "fs_step w w'" "wf_fs (fs w')" "store_frame p (fs w) (fs w')"
    "r = Inr () \<Longrightarrow> allowlist_file.holds ids a (fs w') p (al_abs al)"
    "r = Inl e \<Longrightarrow> node_at (fs w') p = node_at (fs w) p"
    using allowlist_file.save_wf [of w p tf ids a al] allowlist_file.save_holds(1) [of w p tf ids a al w']
      allowlist_file.save_error_keeps(1) [of w p tf ids a al e w'] assms(1-6) by auto
qed

lemma snapshot_Inr:
  "id_ok ids \<Longrightarrow> allowlist_codec_ok a \<Longrightarrow> al_wf al \<Longrightarrow> \<exists>b. snapshot_json_bytes ids a al = Inr b"
  using snapshot_round_trip by blast

lemma add_and_save_spec:
  assumes env: "al_env ids a tf p al (fs w)"
    and r: "add_and_save ids a tf i info p al w = (r, al', w')"
  shows "fs_step w w'" "wf_fs (fs w')" "store_frame p (fs w) (fs w')" "al_wf al'"
    "r = Inr () \<Longrightarrow> al' = al_add i info al \<and> allowlist_file.holds ids a (fs w') p (al_abs al')"
    "r = Inl e \<Longrightarrow> al_abs al' = al_abs al \<and> node_at (fs w') p = node_at (fs w) p"
proof -
  note e = al_envD [OF env]
  have wf: "al_wf (al_add i info al)" using e(4) by simp
  obtain b where b: "snapshot_json_bytes ids a (al_add i info al) = Inr b"
    using snapshot_Inr [OF e(1,2) wf] by blast
  obtain r1 w1 where 1: "write_atomic_0o600 tf p b w = (r1, w1)" by fastforce
  note ws = write_snapshot [OF e(1-3) wf e(5,6) b 1]
  have "w' = w1 \<and> r = r1 \<and> al' = (if r1 = Inr () then al_add i info al
      else add_restore i (al_open_all al) (map_of (al_peers al) i) (al_add i info al))"
    using r b 1 by (cases r1) (auto simp: add_and_save_def add_begin_spec)
  then show "fs_step w w'" "wf_fs (fs w')" "store_frame p (fs w) (fs w')" "al_wf al'"
    "r = Inr () \<Longrightarrow> al' = al_add i info al \<and> allowlist_file.holds ids a (fs w') p (al_abs al')"
    "r = Inl e \<Longrightarrow> al_abs al' = al_abs al \<and> node_at (fs w') p = node_at (fs w) p"
    using ws add_restore_exact e(4) by auto
qed

lemma remove_and_save_spec:
  assumes env: "al_env ids a tf p al (fs w)"
    and r: "remove_and_save ids a tf i p al w = (r, al', w')"
  shows "fs_step w w'" "wf_fs (fs w')" "store_frame p (fs w) (fs w')" "al_wf al'"
    "r = Inr prev \<Longrightarrow> prev = map_of (al_peers al) i \<and> al' = snd (al_remove i al)
       \<and> allowlist_file.holds ids a (fs w') p (al_abs al')"
    "r = Inl e \<Longrightarrow> al_abs al' = al_abs al \<and> node_at (fs w') p = node_at (fs w) p"
proof -
  note e = al_envD [OF env]
  have wf: "al_wf (snd (al_remove i al))" using e(4) by simp
  obtain b where b: "snapshot_json_bytes ids a (snd (al_remove i al)) = Inr b"
    using snapshot_Inr [OF e(1,2) wf] by blast
  obtain r1 w1 where 1: "write_atomic_0o600 tf p b w = (r1, w1)" by fastforce
  note ws = write_snapshot [OF e(1-3) wf e(5,6) b 1]
  have "w' = w1 \<and> (case r1 of Inr _ \<Rightarrow> r = Inr (map_of (al_peers al) i) \<and> al' = snd (al_remove i al)
      | Inl x \<Rightarrow> r = Inl x \<and> al' = remove_restore i (map_of (al_peers al) i) (snd (al_remove i al)))"
    using r b 1 by (cases r1) (auto simp: remove_and_save_def remove_begin_spec)
  then show "fs_step w w'" "wf_fs (fs w')" "store_frame p (fs w) (fs w')" "al_wf al'"
    "r = Inr prev \<Longrightarrow> prev = map_of (al_peers al) i \<and> al' = snd (al_remove i al)
       \<and> allowlist_file.holds ids a (fs w') p (al_abs al')"
    "r = Inl e \<Longrightarrow> al_abs al' = al_abs al \<and> node_at (fs w') p = node_at (fs w) p"
    using ws remove_restore_exact e(4) by (auto split: sum.splits)
qed

section \<open>Strict mode is never left\<close>

lemma open_all_irreversible:
  assumes "\<not> al_open_all al"
  shows "\<not> al_open_all (al_add i info al)" "\<not> al_open_all (snd (al_remove i al))"
    "\<not> al_open_all (fst (snd (add_and_save ids a tf i info p al w)))"
    "\<not> al_open_all (fst (snd (remove_and_save ids a tf i p al w)))"
  using assms
  by (auto simp: al_add_def al_remove_def add_and_save_def remove_and_save_def add_begin_spec remove_begin_spec
      add_restore_def remove_restore_def split: sum.splits prod.splits option.splits)

end
