(* ===== verification/Allowlist_Lock.thy ===== *)
theory Allowlist_Lock
  imports Allowlist
begin

text \<open>
  The two-lock discipline of \<open>AllowList\<close>: any number of tasks run \<open>add_and_save\<close>,
  \<open>remove_and_save\<close> and \<open>save\<close> at the same time.  A step of the relation is one critical section of
  \<open>inner\<close>, one disk write, or the acquisition of \<open>persist_lock\<close>; the guard is dropped when the
  call returns.  A disk write fails or succeeds as the environment likes.  The state keeps, as a
  ghost, the calls that returned successfully, in the order in which they released the lock.
\<close>

section \<open>Calls and steps\<close>

datatype al_call = AddAndSave endpoint_id peer_info | RemoveAndSave endpoint_id | Save

text \<open>What a call has to undo when its write fails.\<close>

datatype undo = UndoAdd endpoint_id bool "peer_info option" | UndoRemove endpoint_id "peer_info option" | UndoNothing

datatype pc =
    Waiting al_call                      \<comment> \<open>before \<open>persist_lock.lock()\<close>\<close>
  | Locked al_call                       \<comment> \<open>holds the lock, before the critical section\<close>
  | Writing al_call undo bytes           \<comment> \<open>snapshot taken, before the disk write\<close>
  | WriteFailed al_call undo err         \<comment> \<open>the write failed, before the rollback\<close>
  | Returned al_call "err + unit"

record lock_state =
  ls_mem :: allow_list
  ls_disk :: "bytes option"
  ls_holder :: "nat option"
  ls_pc :: "nat \<Rightarrow> pc"
  ls_log :: "al_call list"               \<comment> \<open>ghost: successful calls\<close>

fun call_begin :: "id_api \<Rightarrow> allowlist_codec \<Rightarrow> al_call \<Rightarrow> allow_list \<Rightarrow> (err + bytes \<times> undo) \<times> allow_list" where
  "call_begin ids a (AddAndSave i info) al =
     (case add_begin ids a i info al of
        (Inl e, g) \<Rightarrow> (Inl e, g) | (Inr (b, po, pi), g) \<Rightarrow> (Inr (b, UndoAdd i po pi), g))"
| "call_begin ids a (RemoveAndSave i) al =
     (case remove_begin ids a i al of
        (Inl e, g) \<Rightarrow> (Inl e, g) | (Inr (prev, b), g) \<Rightarrow> (Inr (b, UndoRemove i prev), g))"
| "call_begin ids a Save al =
     (case snapshot_json_bytes ids a al of
        Inl e \<Rightarrow> (Inl e, al) | Inr b \<Rightarrow> (Inr (b, UndoNothing), al))"

fun undo_call :: "undo \<Rightarrow> allow_list \<Rightarrow> allow_list" where
  "undo_call (UndoAdd i po pi) al = add_restore i po pi al"
| "undo_call (UndoRemove i prev) al = remove_restore i prev al"
| "undo_call UndoNothing al = al"

inductive lock_step :: "id_api \<Rightarrow> allowlist_codec \<Rightarrow> lock_state \<Rightarrow> lock_state \<Rightarrow> bool" for ids a where
  acquire: "ls_pc s t = Waiting c \<Longrightarrow> ls_holder s = None \<Longrightarrow>
     lock_step ids a s (s\<lparr>ls_holder := Some t, ls_pc := (ls_pc s)(t := Locked c)\<rparr>)"
| mutate: "ls_pc s t = Locked c \<Longrightarrow> call_begin ids a c (ls_mem s) = (Inr (b, u), g) \<Longrightarrow>
     lock_step ids a s (s\<lparr>ls_mem := g, ls_pc := (ls_pc s)(t := Writing c u b)\<rparr>)"
| mutate_err: "ls_pc s t = Locked c \<Longrightarrow> call_begin ids a c (ls_mem s) = (Inl e, g) \<Longrightarrow>
     lock_step ids a s (s\<lparr>ls_mem := g, ls_holder := None, ls_pc := (ls_pc s)(t := Returned c (Inl e))\<rparr>)"
| write_ok: "ls_pc s t = Writing c u b \<Longrightarrow>
     lock_step ids a s (s\<lparr>ls_disk := Some b, ls_holder := None,
       ls_pc := (ls_pc s)(t := Returned c (Inr ())), ls_log := ls_log s @ [c]\<rparr>)"
| write_err: "ls_pc s t = Writing c u b \<Longrightarrow>
     lock_step ids a s (s\<lparr>ls_pc := (ls_pc s)(t := WriteFailed c u e)\<rparr>)"
| rollback: "ls_pc s t = WriteFailed c u e \<Longrightarrow>
     lock_step ids a s (s\<lparr>ls_mem := undo_call u (ls_mem s), ls_holder := None,
       ls_pc := (ls_pc s)(t := Returned c (Inl e))\<rparr>)"

inductive lock_reachable :: "id_api \<Rightarrow> allowlist_codec \<Rightarrow> lock_state \<Rightarrow> lock_state \<Rightarrow> bool" for ids a s0 where
  init: "lock_reachable ids a s0 s0"
| step: "lock_reachable ids a s0 s \<Longrightarrow> lock_step ids a s s' \<Longrightarrow> lock_reachable ids a s0 s'"

text \<open>A start: every task before its call, nobody holds the lock, the file agrees with the memory.\<close>

definition disk_agrees :: "id_api \<Rightarrow> allowlist_codec \<Rightarrow> bytes option \<Rightarrow> bool \<times> (endpoint_id \<rightharpoonup> peer_info) \<Rightarrow> bool" where
  "disk_agrees ids a d x \<longleftrightarrow>
     (case d of None \<Rightarrow> x = al_abs empty_strict
      | Some b \<Rightarrow> \<exists>al. from_json_bytes ids a b = Inr al \<and> al_abs al = x)"

definition lock_initial :: "id_api \<Rightarrow> allowlist_codec \<Rightarrow> lock_state \<Rightarrow> bool" where
  "lock_initial ids a s \<longleftrightarrow>
     (\<forall>t. \<exists>c. ls_pc s t = Waiting c) \<and> ls_holder s = None \<and> ls_log s = []
     \<and> al_wf (ls_mem s) \<and> disk_agrees ids a (ls_disk s) (al_abs (ls_mem s))"

section \<open>The abstract effect of the calls\<close>

fun call_abs :: "al_call \<Rightarrow> bool \<times> (endpoint_id \<rightharpoonup> peer_info) \<Rightarrow> bool \<times> (endpoint_id \<rightharpoonup> peer_info)" where
  "call_abs (AddAndSave i info) (oa, m) = (False, m(i \<mapsto> info))"
| "call_abs (RemoveAndSave i) (oa, m) = (oa, m(i := None))"
| "call_abs Save x = x"

lemma call_begin_spec:
  assumes "id_ok ids" "allowlist_codec_ok a" "al_wf al"
  shows "\<exists>b u g. call_begin ids a c al = (Inr (b, u), g) \<and> al_wf g \<and> al_abs g = call_abs c (al_abs al)
    \<and> (\<exists>al'. from_json_bytes ids a b = Inr al' \<and> al_abs al' = al_abs g)
    \<and> al_abs (undo_call u g) = al_abs al \<and> al_wf (undo_call u g)"
proof (cases c)
  case (AddAndSave i info)
  have wf: "al_wf (al_add i info al)" using assms(3) by simp
  obtain b al' where "snapshot_json_bytes ids a (al_add i info al) = Inr b"
    "from_json_bytes ids a b = Inr al'" "al_abs al' = al_abs (al_add i info al)"
    using snapshot_round_trip [OF assms(1,2) wf] by blast
  then show ?thesis using AddAndSave wf add_restore_exact [of i al info]
    by (auto simp: add_begin_spec al_add_abs) (auto simp: al_abs_def)
next
  case (RemoveAndSave i)
  have wf: "al_wf (snd (al_remove i al))" using assms(3) by simp
  obtain b al' where "snapshot_json_bytes ids a (snd (al_remove i al)) = Inr b"
    "from_json_bytes ids a b = Inr al'" "al_abs al' = al_abs (snd (al_remove i al))"
    using snapshot_round_trip [OF assms(1,2) wf] by blast
  then show ?thesis using RemoveAndSave wf remove_restore_exact [of i al]
    by (auto simp: remove_begin_spec al_remove_abs) (auto simp: al_abs_def)
next
  case Save
  then show ?thesis using snapshot_round_trip [OF assms] assms(3) by auto
qed

section \<open>The invariant\<close>

text \<open>
  \<open>x\<close> is the committed value: the initial one with the successful calls applied in order.  Nobody
  but the holder is inside its call; without a holder the memory is the committed value; and the
  file is always the committed value.
\<close>

definition committed :: "lock_state \<Rightarrow> lock_state \<Rightarrow> bool \<times> (endpoint_id \<rightharpoonup> peer_info)" where
  "committed s0 s = fold call_abs (ls_log s) (al_abs (ls_mem s0))"

definition lock_inv :: "id_api \<Rightarrow> allowlist_codec \<Rightarrow> lock_state \<Rightarrow> lock_state \<Rightarrow> bool" where
  "lock_inv ids a s0 s \<longleftrightarrow>
     al_wf (ls_mem s)
     \<and> disk_agrees ids a (ls_disk s) (committed s0 s)
     \<and> (\<forall>t. ls_holder s \<noteq> Some t \<longrightarrow> (\<exists>c. ls_pc s t = Waiting c \<or> (\<exists>r. ls_pc s t = Returned c r)))
     \<and> (case ls_holder s of
          None \<Rightarrow> al_abs (ls_mem s) = committed s0 s
        | Some t \<Rightarrow>
            (\<exists>c. ls_pc s t = Locked c \<and> al_abs (ls_mem s) = committed s0 s)
            \<or> (\<exists>c u b. ls_pc s t = Writing c u b
                 \<and> al_abs (ls_mem s) = call_abs c (committed s0 s)
                 \<and> (\<exists>al'. from_json_bytes ids a b = Inr al' \<and> al_abs al' = al_abs (ls_mem s))
                 \<and> al_abs (undo_call u (ls_mem s)) = committed s0 s \<and> al_wf (undo_call u (ls_mem s)))
            \<or> (\<exists>c u e. ls_pc s t = WriteFailed c u e
                 \<and> al_abs (undo_call u (ls_mem s)) = committed s0 s \<and> al_wf (undo_call u (ls_mem s))))"

lemma lock_inv_init: "lock_initial ids a s0 \<Longrightarrow> lock_inv ids a s0 s0"
  by (auto simp: lock_initial_def lock_inv_def committed_def)

lemma lock_inv_holder:
  assumes "lock_inv ids a s0 s" "\<forall>c. ls_pc s t \<noteq> Waiting c" "\<forall>c r. ls_pc s t \<noteq> Returned c r"
  shows "ls_holder s = Some t"
  using assms unfolding lock_inv_def by blast

lemma lock_inv_step:
  assumes "id_ok ids" "allowlist_codec_ok a" "lock_inv ids a s0 s" "lock_step ids a s s'"
  shows "lock_inv ids a s0 s'"
  using assms(4)
proof (cases rule: lock_step.cases)
  case (acquire t c)
  then show ?thesis using assms(3) by (auto simp: lock_inv_def committed_def)
next
  case (mutate t c b u g)
  have h: "ls_holder s = Some t" using lock_inv_holder [OF assms(3), of t] mutate by auto
  have wf: "al_wf (ls_mem s)" using assms(3) by (simp add: lock_inv_def)
  have m: "al_abs (ls_mem s) = committed s0 s" using assms(3) h mutate by (auto simp: lock_inv_def)
  show ?thesis
    using assms(3) h mutate m call_begin_spec [OF assms(1,2) wf, of c] by (auto simp: lock_inv_def committed_def)
next
  case (mutate_err t c e g)
  have wf: "al_wf (ls_mem s)" using assms(3) by (simp add: lock_inv_def)
  show ?thesis using mutate_err call_begin_spec [OF assms(1,2) wf, of c] by auto
next
  case (write_ok t c u b)
  have h: "ls_holder s = Some t" using lock_inv_holder [OF assms(3), of t] write_ok by auto
  show ?thesis using assms(3) h write_ok by (auto simp: lock_inv_def committed_def disk_agrees_def)
next
  case (write_err t c u b e)
  have h: "ls_holder s = Some t" using lock_inv_holder [OF assms(3), of t] write_err by auto
  show ?thesis using assms(3) h write_err by (auto simp: lock_inv_def committed_def)
next
  case (rollback t c u e)
  have h: "ls_holder s = Some t" using lock_inv_holder [OF assms(3), of t] rollback by auto
  show ?thesis using assms(3) h rollback by (auto simp: lock_inv_def committed_def)
qed

lemma lock_inv_reachable:
  assumes "id_ok ids" "allowlist_codec_ok a" "lock_initial ids a s0"
  shows "lock_reachable ids a s0 s \<Longrightarrow> lock_inv ids a s0 s"
  by (induction rule: lock_reachable.induct)
    (use lock_inv_init [OF assms(3)] lock_inv_step [OF assms(1,2)] in blast)+

text \<open>
  No update is lost: whatever the interleaving, the file always holds the result of the calls that
  succeeded, in the order of their success, and when nobody is writing so does the memory.
\<close>

lemma no_lost_update:
  assumes "id_ok ids" "allowlist_codec_ok a" "lock_initial ids a s0" "lock_reachable ids a s0 s"
  shows "disk_agrees ids a (ls_disk s) (fold call_abs (ls_log s) (al_abs (ls_mem s0)))
    \<and> (ls_holder s = None \<longrightarrow> al_abs (ls_mem s) = fold call_abs (ls_log s) (al_abs (ls_mem s0)))"
  using lock_inv_reachable [OF assms] by (auto simp: lock_inv_def committed_def)

text \<open>Two tasks are never inside their calls together.\<close>

lemma persist_lock_exclusive:
  assumes "id_ok ids" "allowlist_codec_ok a" "lock_initial ids a s0" "lock_reachable ids a s0 s"
    and "ls_pc s t = Writing c u b" "ls_pc s t' = Writing c' u' b'"
  shows "t = t'"
  using lock_inv_holder [OF lock_inv_reachable [OF assms(1-4)]] assms(5,6)
  by (metis option.inject pc.distinct(5,15) pc.simps)

end
