(* ===== verification/Pending_Log.thy ===== *)
theory Pending_Log
  imports Allowlist_Lock "HOL-Library.Multiset"
begin

text \<open>
  \<open>src/src/pending_log.rs\<close>: the log of received changes, one JSON file per entry.  The lemmas show
  that a recorded entry is listed, that the list is sorted newest first, and what the listing reads.
\<close>

definition PENDING_SCHEMA_VERSION :: "32 word" where
  "PENDING_SCHEMA_VERSION = 1"

datatype pending_entry =
    PUpsert (pe_version: "32 word") (pe_rel_path: str) (pe_received_at: int) (pe_source_peer: str)
      (pe_blob_hash: str) (pe_bytes: "64 word")
  | PTombstone (pe_version: "32 word") (pe_rel_path: str) (pe_received_at: int) (pe_source_peer: str)

text \<open>\<open>to_vec_pretty\<close> and \<open>from_slice\<close> at \<open>PendingEntry\<close>, and \<open>blake3::hash\<close>.\<close>

record pending_api =
  pe_ser :: "pending_entry \<Rightarrow> str + bytes"
  pe_de :: "bytes \<Rightarrow> str + pending_entry"
  blake3 :: "bytes \<Rightarrow> bytes"

definition pending_api_ok :: "pending_api \<Rightarrow> bool" where
  "pending_api_ok a \<longleftrightarrow> (\<forall>e b. pe_ser a e = Inr b \<longrightarrow> pe_de a b = Inr e)"

fun pending_write_err :: "path \<Rightarrow> path \<Rightarrow> write_step \<times> io_kind \<Rightarrow> err" where
  "pending_write_err dir target (AtCreate, e) = Ctx (''tempfile_in '' @ display dir) (Io e)"
| "pending_write_err dir target (AtWrite, e) = Ctx ''write pending tempfile'' (Io e)"
| "pending_write_err dir target (AtPersist, e) = Ctx (''persist '' @ display target) (Io e)"
| "pending_write_err dir target (_, e) = Io e"

definition pending_file_name :: "pending_api \<Rightarrow> pending_entry \<Rightarrow> nat \<Rightarrow> str" where
  "pending_file_name a entry nanos =
     (let short_peer = take_chars 8 (pe_source_peer entry);
          rel_hash_hex = concat (map hex_byte (take 4 (blake3 a (pe_rel_path entry)))) in
      show_int (pe_received_at entry) @ ''-'' @ short_peer @ ''-'' @ rel_hash_hex @ ''-''
        @ pad_zero 9 (show_nat nanos) @ ''.json'')"

definition record_receive ::
  "pending_api \<Rightarrow> tempfile_api \<Rightarrow> path \<Rightarrow> str \<Rightarrow> pending_entry \<Rightarrow> 'z world_scheme
     \<Rightarrow> (err + unit) \<times> 'z world_scheme" where
  "record_receive a tf root repo_hash entry w =
     (let dir = path_join root repo_hash in
      and_then (io_err (''create_dir_all '' @ display dir) (create_dir_all dir w)) (\<lambda>_ w1.
        let target = path_join dir (pending_file_name a entry (subsec_nanos w1)) in
        case pe_ser a entry of
          Inl e \<Rightarrow> (Inl (Ctx ''serialize PendingEntry'' (Msg e)), w1)
        | Inr body \<Rightarrow>
            (case write_via_tempfile tf dir ''.pending.'' None body target w1 of
               (Inl e, w2) \<Rightarrow> (Inl (pending_write_err dir target e), w2)
             | (Inr _, w2) \<Rightarrow> (Inr (), w2))))"

text \<open>The file names the listing reads: extension \<open>json\<close> and no leading dot.\<close>

definition pending_name :: "str \<Rightarrow> bool" where
  "pending_name n \<longleftrightarrow> extension n = Some ''json'' \<and> \<not> (utf8_valid n \<and> prefix ''.'' n)"

fun list_pending_loop ::
  "pending_api \<Rightarrow> path \<Rightarrow> str list \<Rightarrow> pending_entry list \<Rightarrow> 'z world_scheme
     \<Rightarrow> (err + pending_entry list) \<times> 'z world_scheme" where
  "list_pending_loop a dir [] entries w = (Inr entries, w)"
| "list_pending_loop a dir (n # ns) entries w =
     (if extension n \<noteq> Some ''json'' then list_pending_loop a dir ns entries w
      else if utf8_valid n \<and> prefix ''.'' n then list_pending_loop a dir ns entries w
      else
        (case fs_read (dir @ [n]) w of
           (Inl e, w1) \<Rightarrow> (Inl (Ctx (''read '' @ display (dir @ [n])) (Io e)), w1)
         | (Inr b, w1) \<Rightarrow>
             (case pe_de a b of
                Inl e \<Rightarrow> (Inl (Ctx (''parse '' @ display (dir @ [n])) (Msg e)), w1)
              | Inr entry \<Rightarrow> list_pending_loop a dir ns (entries @ [entry]) w1)))"

definition list_pending ::
  "pending_api \<Rightarrow> path \<Rightarrow> str \<Rightarrow> 'z world_scheme \<Rightarrow> (err + pending_entry list) \<times> 'z world_scheme" where
  "list_pending a root repo_hash w =
     (let dir = path_join root repo_hash in
      case path_exists dir w of
        (False, w1) \<Rightarrow> (Inr [], w1)
      | (True, w1) \<Rightarrow>
          and_then (io_err (''read_dir '' @ display dir) (read_dir dir w1)) (\<lambda>ns w2.
          and_then (list_pending_loop a dir ns [] w2) (\<lambda>entries w3.
            (Inr (sort_key (\<lambda>e. Reverse (pe_received_at e)) entries), w3))))"

section \<open>Names\<close>

lemma digit_hex: "d < 16 \<Longrightarrow> is_ascii_hexdigit (digit d)"
  by (auto simp: is_ascii_hexdigit_def digit_def Let_def)

lemma show_nat_hex: "\<forall>c\<in>set (show_nat n). is_ascii_hexdigit c"
proof (induction n rule: show_nat.induct)
  case (1 n)
  then show ?case by (subst show_nat.simps) (auto intro!: digit_hex)
qed

lemma hex_byte_hex: "\<forall>c\<in>set (hex_byte x). is_ascii_hexdigit c"
proof -
  have "(of_char x :: nat) < 256" by simp
  then have "(of_char x :: nat) div 16 < 16" by (simp add: less_mult_imp_div_less)
  then show ?thesis by (auto simp: hex_byte_def Let_def intro!: digit_hex)
qed

lemma hexdigit_plain: "is_ascii_hexdigit c \<Longrightarrow> c \<noteq> CHR ''/'' \<and> c \<noteq> CHR ''.'' \<and> (of_char c :: nat) < 128"
  by (auto simp: is_ascii_hexdigit_def Let_def)

text \<open>When the peer is a hexadecimal id, the name is one component that the listing accepts.\<close>

definition stem_ok :: "str \<Rightarrow> bool" where
  "stem_ok s \<longleftrightarrow> (\<forall>c\<in>set s. is_ascii_hexdigit c \<or> c = CHR ''-'')"

lemma stem_ok_simps [simp]:
  "stem_ok []" "stem_ok (s @ t) \<longleftrightarrow> stem_ok s \<and> stem_ok t" "stem_ok (c # s) \<longleftrightarrow> (is_ascii_hexdigit c \<or> c = CHR ''-'') \<and> stem_ok s"
  by (auto simp: stem_ok_def)

lemma pending_file_name_stem:
  assumes "\<forall>c\<in>set (pe_source_peer e). is_ascii_hexdigit c"
  shows "\<exists>s. pending_file_name a e ns = s @ ''.json'' \<and> s \<noteq> [] \<and> stem_ok s"
proof -
  have 1: "stem_ok (show_nat n)" for n using show_nat_hex by (auto simp: stem_ok_def)
  have 2: "stem_ok (show_int i)" for i using 1 by (simp add: show_int_def)
  have "\<forall>c\<in>set (pe_source_peer e). (of_char c :: nat) < 128" using assms hexdigit_plain by blast
  then have "take_chars 8 (pe_source_peer e) = take 8 (pe_source_peer e)" by (rule take_chars_ascii)
  then have 3: "stem_ok (take_chars 8 (pe_source_peer e))"
    using assms by (auto simp: stem_ok_def dest: in_set_takeD)
  have 4: "stem_ok (concat (map hex_byte xs))" for xs
    using hex_byte_hex by (auto simp: stem_ok_def)
  have z: "is_ascii_hexdigit (CHR ''0'')" by (simp add: is_ascii_hexdigit_def)
  have 5: "stem_ok (pad_zero 9 (show_nat ns))"
    using 1 [of ns] z by (auto simp: pad_zero_def stem_ok_def)
  show ?thesis
    by (intro exI [of _ "show_int (pe_received_at e) @ ''-'' @ take_chars 8 (pe_source_peer e) @ ''-''
        @ concat (map hex_byte (take 4 (blake3 a (pe_rel_path e)))) @ ''-'' @ pad_zero 9 (show_nat ns)"])
      (use 2 3 4 5 in \<open>simp add: pending_file_name_def Let_def\<close>)
qed

lemma json_name:
  assumes "s \<noteq> []" "stem_ok s"
  shows "pending_name (s @ ''.json'')" "normal (s @ ''.json'')" "path_comps (s @ ''.json'') = [s @ ''.json'']"
    "\<not> prefix ''/'' (s @ ''.json'')"
proof -
  obtain c s' where s: "s = c # s'" using assms(1) by (cases s) auto
  have c: "c \<noteq> CHR ''.'' \<and> c \<noteq> CHR ''/''" using assms(2) s hexdigit_plain by auto
  have d: "CHR ''.'' \<notin> set s" "CHR ''/'' \<notin> set (s @ ''.json'')"
    using assms(2) hexdigit_plain by (auto simp: stem_ok_def)
  have "split_on (CHR ''.'') (s @ ''.json'') = [s, ''json'']"
    using split_on_append_sep [OF d(1), of "''json''"] by simp
  then show "pending_name (s @ ''.json'')" using s c by (auto simp: pending_name_def extension_def)
  show n: "normal (s @ ''.json'')" using s c by (auto simp: normal_def)
  show "path_comps (s @ ''.json'') = [s @ ''.json'']"
    using split_on_id [OF d(2)] n by (simp add: path_comps_def normal_def)
  show "\<not> prefix ''/'' (s @ ''.json'')" using s c by auto
qed

section \<open>Listing\<close>

lemma list_pending_loop_spec:
  "list_pending_loop a dir ns es w = (Inr es', w') \<Longrightarrow>
     fs w' = fs w \<and> fs_step w w' \<and>
     (\<exists>rs. es' = es @ rs \<and>
        list_all2 (\<lambda>n e. \<exists>b. fst (k_read (dir @ [n]) (fs w)) = Inr b \<and> pe_de a b = Inr e) (filter pending_name ns) rs)"
proof (induction ns arbitrary: es w)
  case (Cons n ns)
  show ?case
  proof (cases "pending_name n")
    case False
    then have "list_pending_loop a dir ns es w = (Inr es', w')"
      using Cons.prems by (auto simp: pending_name_def split: if_splits)
    then show ?thesis using Cons.IH [of es w] False by simp
  next
    case True
    obtain r w1 where 1: "fs_read (dir @ [n]) w = (r, w1)" by fastforce
    note i = fs_read_inv [OF 1]
    from True Cons.prems 1 obtain b e where b: "r = Inr b" "pe_de a b = Inr e"
        "list_pending_loop a dir ns (es @ [e]) w1 = (Inr es', w')"
      by (auto simp: pending_name_def split: sum.splits)
    have "fst (k_read (dir @ [n]) (fs w)) = Inr b" using i b by auto
    then show ?thesis using Cons.IH [OF b(3)] i True b(2) fs_step_trans [of w w1 w'] by auto
  qed
qed simp

lemma list_all2_member: "list_all2 P xs ys \<Longrightarrow> x \<in> set xs \<Longrightarrow> \<exists>y\<in>set ys. P x y"
  by (induction rule: list_all2_induct) auto

lemma sort_newest_first:
  "sorted_wrt (\<lambda>x y. pe_received_at y \<le> pe_received_at x) (sort_key (\<lambda>e. Reverse (pe_received_at e)) es)"
proof -
  have "sorted (map (\<lambda>e. Reverse (pe_received_at e)) (sort_key (\<lambda>e. Reverse (pe_received_at e)) es))"
    by (rule sorted_sort_key)
  then show ?thesis by (simp add: sorted_map)
qed

text \<open>
  A successful listing is a permutation, newest first and stable, of the parsed contents of the
  entry files of the directory; it changes nothing.
\<close>

lemma list_pending_spec:
  assumes "list_pending a root rh w = (Inr es, w')"
  shows "fs w' = fs w" "fs_step w w'"
    "sorted_wrt (\<lambda>x y. pe_received_at y \<le> pe_received_at x) es"
    "es = [] \<or> (\<exists>ns rs. fst (k_read_dir (path_join root rh) (fs w)) = Inr ns \<and> mset es = mset rs
       \<and> list_all2 (\<lambda>n e. \<exists>b. fst (k_read (path_join root rh @ [n]) (fs w)) = Inr b \<and> pe_de a b = Inr e)
           (filter pending_name ns) rs)"
proof -
  let ?d = "path_join root rh"
  obtain b w1 where 1: "path_exists ?d w = (b, w1)" by fastforce
  note i1 = path_exists_inv [OF 1]
  have "fs w' = fs w \<and> fs_step w w' \<and> sorted_wrt (\<lambda>x y. pe_received_at y \<le> pe_received_at x) es \<and>
     (es = [] \<or> (\<exists>ns rs. fst (k_read_dir ?d (fs w)) = Inr ns \<and> mset es = mset rs
       \<and> list_all2 (\<lambda>n e. \<exists>b. fst (k_read (?d @ [n]) (fs w)) = Inr b \<and> pe_de a b = Inr e)
           (filter pending_name ns) rs))"
  proof (cases b)
    case False
    then show ?thesis using assms 1 i1 by (auto simp: list_pending_def)
  next
    case True
    obtain r w2 where 2: "read_dir ?d w1 = (r, w2)" by fastforce
    note i2 = syscall_readonly [OF 2 [unfolded read_dir_def]]
    obtain ns rs where r: "r = Inr ns" "list_pending_loop a ?d ns [] w2 = (Inr rs, w')"
        "es = sort_key (\<lambda>e. Reverse (pe_received_at e)) rs"
      using assms 1 2 True
      by (auto simp: list_pending_def Let_def and_then_Inr_iff io_err_Inr_iff)
    have e: "fs w1 = fs w" "fs w2 = fs w" "fs_step w w2" using i1 i2(1,2) fs_step_trans by auto
    have k: "fst (k_read_dir ?d (fs w)) = Inr ns" using i2(3) r(1) e by auto
    have l: "fs w' = fs w" "fs_step w w'"
      "list_all2 (\<lambda>n e. \<exists>b. fst (k_read (?d @ [n]) (fs w)) = Inr b \<and> pe_de a b = Inr e) (filter pending_name ns) rs"
      using list_pending_loop_spec [OF r(2)] e fs_step_trans [OF e(3)] by simp_all
    have m: "mset es = mset rs" using r(3) by simp
    show ?thesis using k l m sort_newest_first [of rs] unfolding r(3) by blast
  qed
  then show "fs w' = fs w" "fs_step w w'" "sorted_wrt (\<lambda>x y. pe_received_at y \<le> pe_received_at x) es"
    "es = [] \<or> (\<exists>ns rs. fst (k_read_dir ?d (fs w)) = Inr ns \<and> mset es = mset rs
       \<and> list_all2 (\<lambda>n e. \<exists>b. fst (k_read (?d @ [n]) (fs w)) = Inr b \<and> pe_de a b = Inr e)
           (filter pending_name ns) rs)" by auto
qed

text \<open>Without faults, an existing directory is really listed.\<close>

lemma list_pending_no_fault:
  assumes "list_pending a root rh w = (Inr es, w')" "faults w = []" "wf_fs (fs w)"
    and "real_dir (fs w) (path_join root rh)" "pending_name n" "node_at (fs w) (path_join root rh @ [n]) = Some (File b m)"
    and "normal n"
  shows "\<exists>e \<in> set es. pe_de a b = Inr e"
proof -
  let ?d = "path_join root rh"
  obtain md where md: "node_at (fs w) ?d = Some (Dir md)" using assms(4) by (auto simp: real_dir_def dir_at_def)
  have ex: "path_exists ?d w = (True, w)"
    using syscall_no_fault [OF assms(2), of "k_stat True ?d"] k_stat_plain [OF assms(3) real_dir_plain [OF assms(3,4)]] md
    by (simp add: path_exists_def metadata_def)
  let ?ns = "map last (filter (\<lambda>r. r \<noteq> [] \<and> butlast r = ?d) (map fst (fs w)))"
  have rd: "read_dir ?d w = (Inr ?ns, w)"
    using syscall_no_fault [OF assms(2), of "k_read_dir ?d"] locate_plain_dir [OF assms(3,4), of True] md
    by (simp add: read_dir_def k_read_dir_def)
  obtain rs where r: "list_pending_loop a ?d ?ns [] w = (Inr rs, w')"
      "es = sort_key (\<lambda>e. Reverse (pe_received_at e)) rs"
    using assms(1) ex rd by (auto simp: list_pending_def Let_def and_then_Inr_iff)
  have "?d @ [n] \<in> fst ` set (fs w)"
    using assms(6) by (auto simp: node_at_def dest: map_of_SomeD intro: rev_image_eqI)
  then have "n \<in> set ?ns" by (force intro: rev_image_eqI)
  then have "n \<in> set (filter pending_name ?ns)" using assms(5) by simp
  moreover have "fst (k_read (?d @ [n]) (fs w)) = Inr b"
  proof -
    have "\<forall>c\<in>set (?d @ [n]). normal c" using assms(4,7) by (simp add: real_dir_def)
    then show ?thesis using k_read_plain [OF assms(3) file_plain [OF assms(3) _ assms(6)]] assms(6) by simp
  qed
  ultimately obtain e where "e \<in> set rs" "pe_de a b = Inr e"
    using list_pending_loop_spec [OF r(1)] list_all2_member [of _ "filter pending_name ?ns" rs n] by force
  then show ?thesis using r(2) by auto
qed

section \<open>Recording\<close>

lemma record_receive_post:
  assumes "record_receive a tf root rh e w = (r, w')" "wf_fs (fs w)" "dir_path (fs w) (path_join root rh)"
    and "tempfile_ok tf" "\<forall>c\<in>set (pe_source_peer e). is_ascii_hexdigit c"
  defines "t \<equiv> path_join root rh @ [pending_file_name a e (subsec_nanos w)]"
  shows "fs_step w w'" "wf_fs (fs w')"
    "\<forall>q. node_at (fs w') q = node_at (fs w) q \<or> (node_at (fs w) q = None \<and> prefix q (path_join root rh) \<and> dir_at (fs w') q)
       \<or> butlast q = path_join root rh"
    "r = Inr () \<Longrightarrow> \<exists>b. pe_ser a e = Inr b \<and> node_at (fs w') t = Some (File b 384) \<and> real_dir (fs w') (path_join root rh)"
proof -
  let ?d = "path_join root rh"
  obtain s where s: "pending_file_name a e (subsec_nanos w) = s @ ''.json''" "s \<noteq> []" "stem_ok s"
    using pending_file_name_stem [OF assms(5)] by blast
  note jn = json_name [OF s(2,3)]
  obtain r1 w1 where 1: "create_dir_all ?d w = (r1, w1)" by fastforce
  note c = create_dir_all_inv [OF 1 assms(2,3)]
  have ns: "subsec_nanos w1 = subsec_nanos w" using fs_step_fields [OF c(1)] by (simp add: subsec_nanos_def)
  have t: "path_join ?d (pending_file_name a e (subsec_nanos w1)) = t"
    using jn(3,4) s(1) ns by (simp add: path_join_def t_def)
  have "fs_step w w' \<and> wf_fs (fs w') \<and>
    (\<forall>q. node_at (fs w') q = node_at (fs w) q \<or> (node_at (fs w) q = None \<and> prefix q ?d \<and> dir_at (fs w') q)
       \<or> butlast q = ?d) \<and>
    (r = Inr () \<longrightarrow> (\<exists>b. pe_ser a e = Inr b \<and> node_at (fs w') t = Some (File b 384) \<and> real_dir (fs w') ?d))"
  proof (cases "r1 = Inr () \<and> (\<exists>b. pe_ser a e = Inr b)")
    case False
    then have "w' = w1 \<and> r \<noteq> Inr ()"
      using assms(1) 1 by (cases r1; cases "pe_ser a e") (auto simp: record_receive_def Let_def)
    then show ?thesis using c(1-3) by (auto simp: dirs_added_def)
  next
    case True
    then obtain b where b: "pe_ser a e = Inr b" "r1 = Inr ()" by blast
    have rd: "real_dir (fs w1) ?d" using c(5) b(2) by simp
    obtain r2 w2 where 2: "write_via_tempfile tf ?d ''.pending.'' None b t w1 = (r2, w2)" by fastforce
    have wp: "write_post ?d ''.pending.'' None b t w1 (r2, w2)"
      using write_via_tempfile_post [OF assms(4) c(2) rd jn(2), of "''.pending.''" None b] 2 s(1)
      by (simp add: t_def)
    have w': "w' = w2 \<and> (r = Inr () \<longleftrightarrow> r2 = Inr ())"
      using assms(1) 1 2 b t by (cases r2) (auto simp: record_receive_def Let_def)
    have st: "fs_step w w2" using wp fs_step_trans [OF c(1)] by (simp add: write_post_def)
    have keep: "\<forall>q. node_at (fs w2) q = node_at (fs w1) q \<or> butlast q = ?d"
      using wp by (cases r2) (auto simp: write_post_def leftover_def t_def)
    then have "\<forall>q. node_at (fs w2) q = node_at (fs w) q \<or> (node_at (fs w) q = None \<and> prefix q ?d \<and> dir_at (fs w2) q)
       \<or> butlast q = ?d"
      using c(3) unfolding dirs_added_def dir_at_def by metis
    moreover have "r2 = Inr () \<longrightarrow> node_at (fs w2) t = Some (File b 384) \<and> real_dir (fs w2) ?d"
      using wp rd by (auto simp: write_post_def real_dir_def dir_at_def t_def)
    ultimately show ?thesis using w' st wp b by (auto simp: write_post_def)
  qed
  then show "fs_step w w'" "wf_fs (fs w')"
    "\<forall>q. node_at (fs w') q = node_at (fs w) q \<or> (node_at (fs w) q = None \<and> prefix q (path_join root rh) \<and> dir_at (fs w') q)
       \<or> butlast q = path_join root rh"
    "r = Inr () \<Longrightarrow> \<exists>b. pe_ser a e = Inr b \<and> node_at (fs w') t = Some (File b 384) \<and> real_dir (fs w') (path_join root rh)"
    by auto
qed

text \<open>A recorded entry is in every later successful listing, which is sorted newest first.\<close>

lemma recorded_is_listed:
  assumes "record_receive a tf root rh e w = (Inr (), w1)" "wf_fs (fs w)" "dir_path (fs w) (path_join root rh)"
    and "tempfile_ok tf" "pending_api_ok a" "\<forall>c\<in>set (pe_source_peer e). is_ascii_hexdigit c"
    and "faults w1 = []" "list_pending a root rh w1 = (Inr es, w2)"
  shows "e \<in> set es \<and> sorted_wrt (\<lambda>x y. pe_received_at y \<le> pe_received_at x) es"
proof -
  let ?n = "pending_file_name a e (subsec_nanos w)"
  note p = record_receive_post [OF assms(1-4,6)]
  obtain b where b: "pe_ser a e = Inr b" "node_at (fs w1) (path_join root rh @ [?n]) = Some (File b 384)"
    "real_dir (fs w1) (path_join root rh)" using p(4) by auto
  obtain s where s: "?n = s @ ''.json''" "s \<noteq> []" "stem_ok s"
    using pending_file_name_stem [OF assms(6)] by blast
  have "\<exists>e' \<in> set es. pe_de a b = Inr e'"
    by (rule list_pending_no_fault [OF assms(8,7) p(2) b(3) _ b(2)]) (use json_name [OF s(2,3)] s(1) in simp_all)
  moreover have "pe_de a b = Inr e" using assms(5) b(1) by (simp add: pending_api_ok_def)
  ultimately show ?thesis using list_pending_spec(3) [OF assms(8)] by auto
qed

end
