(* ===== verification/Sync_State.thy ===== *)
theory Sync_State
  imports Pending_Log
begin

text \<open>
  \<open>src/src/state.rs\<close> and the state of a running node.  \<open>SyncState\<close> holds the four registries that
  receiving and watching share to break self-loops; a key is a relative \<open>PathBuf\<close>, that is, its
  component list.  A node is the host (\<open>world\<close>) with the iroh stack, the registries and the
  allowlist; \<open>peer_node.more\<close> is left to the daemon, whose callbacks act on it.
\<close>

type_synonym write_registry = "path \<rightharpoonup> blob_hash"

record sync_state =
  pending_written :: write_registry
  last_written :: write_registry
  last_removed :: "path set"
  recently_broadcast_tombstones :: "path \<rightharpoonup> nat"

text \<open>\<open>TOMBSTONE_DEDUP_TTL\<close>, in the milliseconds of \<open>mono_ms\<close>.\<close>

definition TOMBSTONE_DEDUP_TTL :: nat where
  "TOMBSTONE_DEDUP_TTL = 2000"

definition sync_state_new :: sync_state where
  "sync_state_new =
     \<lparr>pending_written = Map.empty, last_written = Map.empty, last_removed = {},
      recently_broadcast_tombstones = Map.empty\<rparr>"

record 'b peer_node = world +
  blobs :: 'b
  sync :: sync_state
  allow :: allow_list

section \<open>PendingTracker\<close>

record pending_tracker =
  pt_pending_root :: path
  pt_repo_hash :: str

definition hex_encode :: "bytes \<Rightarrow> str" where
  "hex_encode b = concat (map hex_byte b)"

definition compute_repo_hash :: "pending_api \<Rightarrow> path \<Rightarrow> str" where
  "compute_repo_hash a realpath = hex_encode (take 8 (blake3 a (display realpath)))"

definition pending_tracker_new ::
  "pending_api \<Rightarrow> env \<Rightarrow> path \<Rightarrow> 'z world_scheme \<Rightarrow> (err + pending_tracker) \<times> 'z world_scheme" where
  "pending_tracker_new a env out_dir w =
     (case default_pending_dir env of
        Inl e \<Rightarrow> (Inl (Ctx ''resolving pending dir'' e), w)
      | Inr pending_root \<Rightarrow>
          and_then (io_err (''canonicalize '' @ display out_dir) (canonicalize out_dir w)) (\<lambda>realpath w1.
            (Inr \<lparr>pt_pending_root = pending_root, pt_repo_hash = compute_repo_hash a realpath\<rparr>, w1)))"

lemma hex_encode_hex: "\<forall>c\<in>set (hex_encode b). is_ascii_hexdigit c"
  using hex_byte_hex by (auto simp: hex_encode_def)

lemma length_hex_encode: "length (hex_encode b) = 2 * length b"
  by (induction b) (auto simp: hex_encode_def hex_byte_def Let_def)

text \<open>The per-repository directory name is one ordinary path component.\<close>

lemma repo_hash_component:
  assumes "blake3 a (display p) \<noteq> []"
  shows "path_comps (compute_repo_hash a p) = [compute_repo_hash a p]" "normal (compute_repo_hash a p)"
    "\<not> prefix ''/'' (compute_repo_hash a p)"
proof -
  let ?h = "compute_repo_hash a p"
  have hex: "\<forall>c\<in>set ?h. is_ascii_hexdigit c" using hex_encode_hex by (simp add: compute_repo_hash_def)
  have "0 < length ?h" using assms by (simp add: compute_repo_hash_def length_hex_encode)
  then have ne: "?h \<noteq> []" by auto
  have s: "CHR ''/'' \<notin> set ?h" "CHR ''.'' \<notin> set ?h" using hex hexdigit_plain by blast+
  then show n: "normal ?h" using ne by (auto simp: normal_def)
  show "path_comps ?h = [?h]" using split_on_id [OF s(1)] n by (simp add: path_comps_def normal_def)
  show "\<not> prefix ''/'' ?h" using s(1) by (auto simp: prefix_def)
qed

section \<open>System calls of a node\<close>

text \<open>System calls leave the iroh stack, the registries and the allowlist alone.\<close>

lemma fs_step_node:
  "fs_step n n' \<Longrightarrow> blobs n' = blobs n \<and> sync n' = sync n \<and> allow n' = allow n \<and> peer_node.more n' = peer_node.more n"
  for n n' :: "('b, 'z) peer_node_scheme"
proof -
  assume "fs_step n n'"
  then have e: "n' = n\<lparr>fs := fs n', faults := faults n'\<rparr>" by (simp add: fs_step_def)
  show ?thesis
    using arg_cong [OF e, of blobs] arg_cong [OF e, of sync] arg_cong [OF e, of allow] arg_cong [OF e, of peer_node.more]
    by simp
qed

end
