(* ===== verification/Conflict.thy ===== *)
theory Conflict
  imports Sync_State
begin

text \<open>
  \<open>src/src/conflict.rs\<close>: where the local version of a file is kept when a peer sends another one.
\<close>

definition short_peer_id :: "id_api \<Rightarrow> endpoint_id \<Rightarrow> str" where
  "short_peer_id ids i = take_chars 8 (id_to_string ids i)"

definition conflict_backup_name :: "id_api \<Rightarrow> str \<Rightarrow> endpoint_id \<Rightarrow> str" where
  "conflict_backup_name ids n i = to_string_lossy n @ ''.conflict-local-'' @ short_peer_id ids i"

text \<open>The match on \<open>out_path.file_name()\<close> and the path built from it.\<close>

definition compute_conflict_backup_path ::
  "id_api \<Rightarrow> path \<Rightarrow> bytes \<Rightarrow> endpoint_id \<Rightarrow> 'z world_scheme \<Rightarrow> path option \<times> 'z world_scheme" where
  "compute_conflict_backup_path ids out_path incoming_bytes from_id w =
     (case fs_read out_path w of
        (Inl e, w1) \<Rightarrow> (None, w1)
      | (Inr local_bytes, w1) \<Rightarrow>
          if local_bytes = incoming_bytes then (None, w1)
          else (case file_name out_path of
                  None \<Rightarrow> (None, w1)
                | Some n \<Rightarrow> (Some (with_file_name out_path (conflict_backup_name ids n from_id)), w1)))"

section \<open>Backup names\<close>

lemma short_peer_id_eq:
  assumes "id_ok ids"
  shows "short_peer_id ids i = take 8 (id_to_string ids i)" "length (short_peer_id ids i) = 8"
    "\<forall>c\<in>set (short_peer_id ids i). is_ascii_hexdigit c"
proof -
  have h: "\<forall>c\<in>set (id_to_string ids i). is_ascii_hexdigit c" "length (id_to_string ids i) = 64"
    using assms by (simp_all add: id_ok_def)
  then show e: "short_peer_id ids i = take 8 (id_to_string ids i)"
    unfolding short_peer_id_def using hexdigit_plain by (intro take_chars_ascii) blast
  show "length (short_peer_id ids i) = 8" "\<forall>c\<in>set (short_peer_id ids i). is_ascii_hexdigit c"
    using h e by (auto dest: in_set_takeD)
qed

lemma conflict_backup_normal: "normal (conflict_backup_name ids n i)"
proof -
  have "2 < length (conflict_backup_name ids n i)" by (simp add: conflict_backup_name_def)
  then show ?thesis unfolding normal_def by force
qed

lemma conflict_backup_not_tmp:
  assumes "id_ok ids"
  shows "conflict_backup_name ids n i \<noteq> pre @ mid @ ''.tmp''"
proof
  assume a: "conflict_backup_name ids n i = pre @ mid @ ''.tmp''"
  have "short_peer_id ids i \<noteq> []" using short_peer_id_eq(2) [OF assms, of i] by auto
  then have "last (conflict_backup_name ids n i) \<in> set (short_peer_id ids i)"
    by (simp add: conflict_backup_name_def)
  then have "is_ascii_hexdigit (CHR ''p'')" using a short_peer_id_eq(3) [OF assms, of i] by simp
  then show False by (simp add: is_ascii_hexdigit_def)
qed

text \<open>The backup is another file beside the original: its name is longer.\<close>

lemma utf8_head_Inl: "utf8_head s = Inl k \<Longrightarrow> k \<le> 3"
  by (auto simp: utf8_head_def utf8_multi_def split: if_splits list.splits)

lemma length_to_string_lossy: "length s \<le> length (to_string_lossy s)"
proof (induction s rule: to_string_lossy.induct)
  case (1 s)
  show ?case
  proof (cases "s = []")
    case False
    show ?thesis
    proof (cases "utf8_head s")
      case (Inl k)
      then show ?thesis using "1.IH"(1) [OF False Inl] utf8_head_Inl [OF Inl] False
        by (subst to_string_lossy.simps) simp
    next
      case (Inr k)
      then show ?thesis using "1.IH"(2) [OF False Inr] False
        by (subst to_string_lossy.simps) simp
    qed
  qed simp
qed

lemma conflict_backup_other: "conflict_backup_name ids n i \<noteq> n"
proof
  assume "conflict_backup_name ids n i = n"
  then have "length (conflict_backup_name ids n i) = length n" by simp
  then show False using length_to_string_lossy [of n] by (simp add: conflict_backup_name_def)
qed

text \<open>
  The backup path is computed exactly when the file was read and differs; it is a sibling.
\<close>

lemma compute_conflict_backup_path_inv:
  assumes "compute_conflict_backup_path ids (d @ [n]) b i w = (r, w')" "normal n"
  shows "fs_step w w'" "fs w' = fs w"
    "r = None \<or> r = Some (d @ [conflict_backup_name ids n i])"
    "r \<noteq> None \<Longrightarrow> \<exists>old. fst (k_read (d @ [n]) (fs w)) = Inr old \<and> old \<noteq> b"
    "faults w = [] \<Longrightarrow> fst (k_read (d @ [n]) (fs w)) = Inr old \<Longrightarrow> old \<noteq> b \<Longrightarrow>
       r = Some (d @ [conflict_backup_name ids n i])"
proof -
  obtain r1 w1 where 1: "fs_read (d @ [n]) w = (r1, w1)" by fastforce
  note i = fs_read_inv [OF 1]
  have fn: "file_name (d @ [n]) = Some n" using assms(2) by (simp add: file_name_def normal_def)
  note d = assms(1) [unfolded compute_conflict_backup_path_def 1 fn with_file_name_def]
  show "fs_step w w'" "fs w' = fs w" "r = None \<or> r = Some (d @ [conflict_backup_name ids n i])"
    using d i by (auto split: sum.splits if_splits)
  show "\<exists>old. fst (k_read (d @ [n]) (fs w)) = Inr old \<and> old \<noteq> b" if rn: "r \<noteq> None"
  proof -
    obtain x where x: "r1 = Inr x" "x \<noteq> b" using d rn by (auto split: sum.splits if_splits)
    then have "fst (k_read (d @ [n]) (fs w)) = Inr x" using i by simp
    then show ?thesis using x(2) by blast
  qed
  assume nf: "faults w = []" and old: "fst (k_read (d @ [n]) (fs w)) = Inr old" "old \<noteq> b"
  have "r1 = Inr old" using syscall_no_fault [OF nf, of "k_read (d @ [n])"] 1 old(1) by (simp add: fs_read_def)
  then show "r = Some (d @ [conflict_backup_name ids n i])" using d old(2) by simp
qed

end
