(* ===== verification/Send.thy ===== *)
theory Send
  imports Conflict
begin

text \<open>
  \<open>src/src/send.rs\<close>: the resolution of a relative path below the watched directory, and the two
  broadcasts.  The lemmas show that a resolved path can only name the location it spells, that is,
  that no symbolic link is followed on it.
\<close>

definition MAX_FILE_SIZE :: nat where
  "MAX_FILE_SIZE = 10 * 1024 * 1024"

text \<open>The loop over the components: \<open>current\<close> is the path so far, no component left to see is \<open>[]\<close>.\<close>

fun walk_components :: "path \<Rightarrow> str list \<Rightarrow> 'z world_scheme \<Rightarrow> (err + unit) \<times> 'z world_scheme" where
  "walk_components current [] w = (Inr (), w)"
| "walk_components current (c # cs) w =
     (let current' = path_join current c in
      case symlink_metadata current' w of
        (Inr meta, w1) \<Rightarrow>
          if is_symlink meta then
            (Inl (Msg (''path escapes watched_dir via symlink at '' @ display current')), w1)
          else if cs \<noteq> [] \<and> \<not> is_dir meta then
            (Inl (Msg (''intermediate component is not a directory: '' @ display current')), w1)
          else walk_components current' cs w1
      | (Inl e, w1) \<Rightarrow>
          if e = NotFound then (Inr (), w1)
          else (Inl (Ctx (''symlink_metadata '' @ display current') (Io e)), w1))"

definition resolve_safe_path :: "path \<Rightarrow> str \<Rightarrow> 'z world_scheme \<Rightarrow> (err + path) \<times> 'z world_scheme" where
  "resolve_safe_path root rel_path w =
     (case validate_relative_path rel_path of
        Inl e \<Rightarrow> (Inl e, w)
      | Inr _ \<Rightarrow>
          and_then (io_err (''symlink_metadata '' @ display root) (symlink_metadata root w)) (\<lambda>root_meta w1.
            if \<not> is_dir root_meta then
              (Inl (Msg (''watched_dir is not a directory: '' @ display root)), w1)
            else
              and_then (walk_components root (split_on (CHR ''/'') rel_path) w1) (\<lambda>_ w2.
                (Inr (path_join root rel_path), w2))))"

fun node_len :: "node \<Rightarrow> nat" where
  "node_len (File b m) = length b"
| "node_len _ = 0"

definition send_file ::
  "'b blob_api \<Rightarrow> 'b gossip_api \<Rightarrow> codec_api \<Rightarrow> str \<Rightarrow> path \<Rightarrow> peer_ref
     \<Rightarrow> ('b, 'z) peer_node_scheme \<Rightarrow> (err + unit) \<times> ('b, 'z) peer_node_scheme" where
  "send_file ba broadcast ca rel_path root self_peer n =
     and_then (resolve_safe_path root rel_path n) (\<lambda>abs n1.
     and_then (io_err (''metadata '' @ display abs) (metadata abs n1)) (\<lambda>meta n2.
       if \<not> is_file meta then (Inl (Msg (''not a regular file: '' @ display abs)), n2)
       else if node_len meta > MAX_FILE_SIZE then
         (Inl (Msg (''file too large: '' @ show_nat (node_len meta) @ '' bytes > ''
                    @ show_nat MAX_FILE_SIZE @ '' bytes'')), n2)
       else
         and_then (io_err (''read '' @ display abs) (fs_read abs n2)) (\<lambda>bytes n3.
           case bl_add ba bytes (blobs n3) of
             (Inl e, b') \<Rightarrow> (Inl (Msg (''blob add_bytes: '' @ e)), n3\<lparr>blobs := b'\<rparr>)
           | (Inr tag_hash, b') \<Rightarrow>
               (case res_bind (upsert rel_path tag_hash Raw self_peer) (to_bytes ca) of
                  Inl e \<Rightarrow> (Inl e, n3\<lparr>blobs := b'\<rparr>)
                | Inr payload \<Rightarrow>
                    (case broadcast payload b' of
                       (Inl e, b'') \<Rightarrow> (Inl (Msg (''gossip broadcast: '' @ e)), n3\<lparr>blobs := b''\<rparr>)
                     | (Inr _, b'') \<Rightarrow>
                         (Inr (), n3\<lparr>blobs := b'',
                            sync := (sync n3)\<lparr>last_written :=
                              (last_written (sync n3))(path_comps rel_path \<mapsto> tag_hash)\<rparr>\<rparr>))))))"

definition broadcast_tombstone ::
  "'b gossip_api \<Rightarrow> codec_api \<Rightarrow> str \<Rightarrow> peer_ref
     \<Rightarrow> ('b, 'z) peer_node_scheme \<Rightarrow> (err + bool) \<times> ('b, 'z) peer_node_scheme" where
  "broadcast_tombstone broadcast ca rel_path self_peer n =
     (case validate_relative_path rel_path of
        Inl e \<Rightarrow> (Inl e, n)
      | Inr _ \<Rightarrow>
          (let key = path_comps rel_path;
               now = mono_ms n;
               dedup = recently_broadcast_tombstones (sync n) in
           if (case dedup key of Some t \<Rightarrow> now - t < TOMBSTONE_DEDUP_TTL | None \<Rightarrow> False) then (Inr False, n)
           else
             (let n1 = n\<lparr>sync := (sync n)\<lparr>recently_broadcast_tombstones := dedup(key \<mapsto> now)\<rparr>\<rparr> in
              case res_bind (tombstone rel_path self_peer) (to_bytes ca) of
                Inl e \<Rightarrow> (Inl e, n1)
              | Inr payload \<Rightarrow>
                  (case broadcast payload (blobs n1) of
                     (Inl e, b') \<Rightarrow> (Inl (Msg (''gossip broadcast: '' @ e)), n1\<lparr>blobs := b'\<rparr>)
                   | (Inr _, b') \<Rightarrow> (Inr True, n1\<lparr>blobs := b'\<rparr>)))))"

section \<open>Safe paths\<close>

text \<open>Only the fault script moves while a path is resolved.\<close>

lemma walk_components_frame:
  "walk_components cur cs w = (r, w') \<Longrightarrow> fs_step w w' \<and> fs w' = fs w"
proof (induction cs arbitrary: cur w)
  case (Cons c cs)
  obtain r1 w1 where 1: "symlink_metadata (path_join cur c) w = (r1, w1)" by fastforce
  note i = symlink_metadata_inv [OF 1]
  from Cons.prems 1 have "w' = w1 \<or> walk_components (path_join cur c) cs w1 = (r, w')"
    by (auto simp: Let_def split: sum.splits if_splits)
  then show ?case using i Cons.IH fs_step_trans by fastforce
qed simp

lemma k_stat_child:
  assumes "wf_fs f" "real_dir f d" "normal n"
  shows "fst (k_stat False (d @ [n]) f) = (case node_at f (d @ [n]) of None \<Rightarrow> Inl NotFound | Some nd \<Rightarrow> Inr nd)"
  using locate_child [OF assms] by (simp add: k_stat_def)

lemma missing_plain:
  assumes "wf_fs f" "real_dir f d" "normal c" "\<forall>x\<in>set cs. normal x" "node_at f (d @ [c]) = None"
  shows "plain f (d @ c # cs)"
proof -
  have "dir_at f q" if "d @ c # cs = q @ r" "r \<noteq> []" "node_at f q \<noteq> None" for q r
  proof -
    have "prefix q d"
    proof (rule ccontr)
      assume "\<not> prefix q d"
      moreover have "prefix q (d @ c # cs)" using that(1) by (auto simp: prefix_def)
      ultimately have "prefix (d @ [c]) q" by (auto simp: prefix_append prefix_Cons intro: prefixI)
      then obtain z where "q = (d @ [c]) @ z" by (auto simp: prefix_def)
      then show False using wf_fs_missing_below [OF assms(1,5), of z] that(3) by simp
    qed
    then obtain z where z: "d = q @ z" by (auto simp: prefix_def)
    show ?thesis
    proof (cases "z = []")
      case False
      then show ?thesis using wf_fs_prefix_dir [OF assms(1), of q z] assms(2) z
        by (auto simp: real_dir_def dir_at_def)
    qed (use assms(2) z in \<open>simp add: real_dir_def\<close>)
  qed
  moreover have "node_at f (d @ c # cs) = None"
    using wf_fs_missing_below [OF assms(1,5), of cs] by simp
  ultimately show ?thesis using assms(2-4) by (auto simp: plain_def real_dir_def)
qed

lemma existing_plain:
  assumes "wf_fs f" "real_dir f d" "normal c" "node_at f (d @ [c]) = Some nd" "\<not> is_symlink nd"
  shows "plain f (d @ [c])"
proof -
  have "dir_at f q" if "d @ [c] = q @ r" "r \<noteq> []" for q r
    using wf_fs_prefix_dir [OF assms(1), of q r] assms(4) that by simp
  then show ?thesis using assms(2-5) by (auto simp: plain_def real_dir_def)
qed

lemma path_join_normal: "normal c \<Longrightarrow> CHR ''/'' \<notin> set c \<Longrightarrow> path_join p c = p @ [c]"
  by (auto simp: path_join_def path_comps_def split_on_id normal_def prefix_def)

lemma walk_components_plain:
  "wf_fs (fs w) \<Longrightarrow> real_dir (fs w) cur \<Longrightarrow> cs \<noteq> [] \<Longrightarrow> \<forall>c\<in>set cs. normal c \<and> CHR ''/'' \<notin> set c \<Longrightarrow>
     walk_components cur cs w = (Inr (), w') \<Longrightarrow> plain (fs w) (cur @ cs)"
proof (induction cs arbitrary: cur w)
  case (Cons c cs)
  have c: "normal c" and j: "path_join cur c = cur @ [c]" using Cons.prems(4) path_join_normal by simp_all
  obtain r1 w1 where 1: "symlink_metadata (cur @ [c]) w = (r1, w1)" by fastforce
  note i = symlink_metadata_inv [OF 1] k_stat_child [OF Cons.prems(1,2) c]
  show ?case
  proof (cases r1)
    case (Inl e)
    then have "e = NotFound" using Cons.prems(5) 1 j by (auto simp: Let_def split: if_splits)
    then have "node_at (fs w) (cur @ [c]) = None" using i Inl by (auto split: option.splits)
    then show ?thesis using missing_plain [OF Cons.prems(1,2) c] Cons.prems(4) by simp
  next
    case (Inr nd)
    then have nd: "node_at (fs w) (cur @ [c]) = Some nd" using i by (auto split: option.splits)
    have ok: "\<not> is_symlink nd" "cs \<noteq> [] \<longrightarrow> is_dir nd" "walk_components (cur @ [c]) cs w1 = (Inr (), w')"
      using Cons.prems(5) 1 j Inr by (auto simp: Let_def split: if_splits)
    show ?thesis
    proof (cases "cs = []")
      case True
      then show ?thesis using existing_plain [OF Cons.prems(1,2) c nd ok(1)] by simp
    next
      case False
      then have rd: "real_dir (fs w) (cur @ [c])"
        using ok(2) nd c Cons.prems(2) by (auto simp: real_dir_def dir_at_def is_dir_iff)
      have "plain (fs w1) ((cur @ [c]) @ cs)"
        by (rule Cons.IH [OF _ _ False _ ok(3)]) (use i(1) Cons.prems(1,4) rd in auto)
      then show ?thesis using i(1) by simp
    qed
  qed
qed simp

text \<open>
  The contract of \<open>resolve_safe_path\<close>: nothing changes; an accepted path is valid and is the spelled
  location below the root; when the root is a canonical path, the root is a real directory and the
  result is free of symbolic links.
\<close>

lemma resolve_safe_path_inv:
  assumes "resolve_safe_path root rel w = (r, w')"
  shows "fs_step w w'" "fs w' = fs w"
    "r = Inr p \<Longrightarrow> p = root @ path_comps rel \<and> validate_relative_path rel = Inr ()"
    "r = Inr p \<Longrightarrow> wf_fs (fs w) \<Longrightarrow> plain (fs w) root \<Longrightarrow> real_dir (fs w) root \<and> plain (fs w) p"
proof -
  obtain r1 w1 where 1: "symlink_metadata root w = (r1, w1)" by fastforce
  note i1 = symlink_metadata_inv [OF 1]
  obtain r2 w2 where 2: "walk_components root (split_on (CHR ''/'') rel) w1 = (r2, w2)" by fastforce
  note i2 = walk_components_frame [OF 2]
  have st: "fs_step w w2" "fs w2 = fs w" using i1 i2 fs_step_trans by auto
  show "fs_step w w'" "fs w' = fs w"
    using assms 1 2 i1 st
    by (auto simp: resolve_safe_path_def and_then_def io_err_def split: sum.splits if_splits)
  assume r: "r = Inr p"
  then obtain nd where nd: "validate_relative_path rel = Inr ()" "r1 = Inr nd" "is_dir nd" "r2 = Inr ()"
      "p = path_join root rel"
    using assms 1 2
    by (auto simp: resolve_safe_path_def and_then_def io_err_def split: sum.splits if_splits)
  note rc = rel_path_comps [OF nd(1)]
  show pc: "p = root @ path_comps rel \<and> validate_relative_path rel = Inr ()"
    using nd rc(4) by simp
  assume wf: "wf_fs (fs w)" and pl: "plain (fs w) root"
  have "fst (k_stat False root (fs w)) = Inr nd" using i1 nd(2) by auto
  then have "node_at (fs w) root = Some nd"
    using k_stat_plain [OF wf pl, of False] by (auto split: option.splits)
  then have rd: "real_dir (fs w) root" using nd(3) pl by (auto simp: real_dir_def dir_at_def is_dir_iff plain_def)
  have "plain (fs w1) (root @ split_on (CHR ''/'') rel)"
  proof (rule walk_components_plain)
    show "\<forall>c\<in>set (split_on (CHR ''/'') rel). normal c \<and> CHR ''/'' \<notin> set c"
      using rc(1,3) split_on_no_sep by metis
    show "walk_components root (split_on (CHR ''/'') rel) w1 = (Inr (), w2)" using 2 nd(4) by simp
  qed (use i1 wf rd in auto)
  then show "real_dir (fs w) root \<and> plain (fs w) p" using rd i1 pc rc(1) by simp
qed

section \<open>Broadcasts\<close>

text \<open>
  A file that was sent: a regular file of at most \<open>MAX_FILE_SIZE\<close> bytes at the spelled location, whose
  blob was added and whose message went out; its hash is in \<open>last_written\<close>.  On an error the
  registries are untouched.
\<close>

lemma send_file_ok:
  assumes "send_file ba bc ca rel root me n = (Inr (), n')"
    and "wf_fs (fs n)" "plain (fs n) root"
  shows "\<exists>bytes m hash b1 payload.
     node_at (fs n) (root @ path_comps rel) = Some (File bytes m) \<and> length bytes \<le> MAX_FILE_SIZE
     \<and> bl_add ba bytes (blobs n) = (Inr hash, b1)
     \<and> to_bytes ca \<lparr>su_version = 2, su_body = Upsert rel hash Raw me\<rparr> = Inr payload
     \<and> bc payload b1 = (Inr (), blobs n')
     \<and> sync n' = (sync n)\<lparr>last_written := (last_written (sync n))(path_comps rel \<mapsto> hash)\<rparr>
     \<and> fs n' = fs n \<and> validate_relative_path rel = Inr ()"
proof -
  obtain r1 n1 where 1: "resolve_safe_path root rel n = (r1, n1)" by fastforce
  then obtain p where p: "r1 = Inr p" using assms(1) by (cases r1) (auto simp: send_file_def)
  note rs = resolve_safe_path_inv [OF 1]
  have pe: "p = root @ path_comps rel" "validate_relative_path rel = Inr ()" and pl: "plain (fs n) p"
    using rs(3) [OF p] rs(4) [OF p assms(2,3)] by auto
  obtain r2 n2 where 2: "metadata p n1 = (r2, n2)" by fastforce
  note m2 = metadata_inv [OF 2]
  obtain md where md: "r2 = Inr md" "is_file md" "node_len md \<le> MAX_FILE_SIZE"
    using assms(1) 1 p 2 by (cases r2) (auto simp: send_file_def split: if_splits)
  obtain r3 n3 where 3: "fs_read p n2 = (r3, n3)" by fastforce
  note m3 = fs_read_inv [OF 3]
  obtain bytes where byt: "r3 = Inr bytes"
    using assms(1) 1 p 2 md 3 by (cases r3) (auto simp: send_file_def)
  have f: "fs n1 = fs n" "fs n2 = fs n" "fs n3 = fs n" using rs(2) m2 m3 by auto
  have st: "fs_step n n3" using rs(1) m2 m3 fs_step_trans by blast
  note sn = fs_step_node [OF st]
  have "fst (k_stat True p (fs n)) = Inr md" using m2 md(1) f by auto
  then have nd: "node_at (fs n) p = Some md"
    using k_stat_plain [OF assms(2) pl, of True] by (auto split: option.splits)
  then obtain b0 m where b0: "md = File b0 m" using md(2) by (cases md) auto
  have "fst (k_read p (fs n)) = Inr bytes" using m3 byt f by auto
  then have bb: "b0 = bytes" using k_read_plain [OF assms(2) pl] nd b0 by simp
  obtain ra b1 where a: "bl_add ba bytes (blobs n) = (ra, b1)" by fastforce
  obtain hash where h: "ra = Inr hash"
    using assms(1) 1 p 2 md 3 byt sn a by (cases ra) (auto simp: send_file_def)
  have u: "upsert rel hash Raw me = Inr \<lparr>su_version = 2, su_body = Upsert rel hash Raw me\<rparr>"
    using pe(2) by (simp add: upsert_iff)
  obtain payload where pay: "to_bytes ca \<lparr>su_version = 2, su_body = Upsert rel hash Raw me\<rparr> = Inr payload"
    using assms(1) 1 p 2 md 3 byt sn a h u
    by (cases "to_bytes ca \<lparr>su_version = 2, su_body = Upsert rel hash Raw me\<rparr>") (auto simp: send_file_def)
  obtain rb b2 where b: "bc payload b1 = (rb, b2)" by fastforce
  have n': "rb = Inr () \<and> n' = n3\<lparr>blobs := b2, sync := (sync n3)\<lparr>last_written :=
        (last_written (sync n3))(path_comps rel \<mapsto> hash)\<rparr>\<rparr>"
    using assms(1) 1 p 2 md 3 byt sn a h u pay b by (cases rb) (auto simp: send_file_def)
  show ?thesis
    using nd b0 bb md(3) a h pay b n' sn f pe by auto
qed

lemma send_file_error:
  assumes "send_file ba bc ca rel root me n = (Inl e, n')"
  shows "sync n' = sync n" "fs n' = fs n"
proof -
  obtain r1 n1 where 1: "resolve_safe_path root rel n = (r1, n1)" by fastforce
  note rs = resolve_safe_path_inv [OF 1]
  have "sync n' = sync n \<and> fs n' = fs n"
  proof (cases r1)
    case (Inl x)
    then show ?thesis using 1 rs(1,2) fs_step_node assms by (fastforce simp: send_file_def)
  next
    case r1: (Inr p)
    obtain r2 n2 where 2: "metadata p n1 = (r2, n2)" by fastforce
    note m2 = metadata_inv [OF 2]
    obtain r3 n3 where 3: "fs_read p n2 = (r3, n3)" by fastforce
    note m3 = fs_read_inv [OF 3]
    have f2: "sync n2 = sync n \<and> fs n2 = fs n" and f3: "sync n3 = sync n \<and> fs n3 = fs n"
      using fs_step_node [of n n1] fs_step_node [of n1 n2] fs_step_node [of n2 n3] rs(1,2) m2 m3 by auto
    show ?thesis
      using assms 1 r1 2 3 f2 f3
      by (auto simp: send_file_def and_then_def io_err_def split: sum.splits if_splits prod.splits)
  qed
  then show "sync n' = sync n" "fs n' = fs n" by auto
qed

text \<open>The window of the tombstone deduplication.\<close>

definition in_dedup_window :: "('b, 'z) peer_node_scheme \<Rightarrow> path \<Rightarrow> bool" where
  "in_dedup_window n key \<longleftrightarrow>
     (\<exists>t. recently_broadcast_tombstones (sync n) key = Some t \<and> mono_ms n - t < TOMBSTONE_DEDUP_TTL)"

lemma broadcast_tombstone_eq:
  assumes "validate_relative_path rel = Inr ()"
  shows "broadcast_tombstone bc ca rel me n =
    (if in_dedup_window n (path_comps rel) then (Inr False, n)
     else (let n1 = n\<lparr>sync := (sync n)\<lparr>recently_broadcast_tombstones :=
                    (recently_broadcast_tombstones (sync n))(path_comps rel \<mapsto> mono_ms n)\<rparr>\<rparr> in
           case to_bytes ca \<lparr>su_version = 2, su_body = Tombstone rel me\<rparr> of
             Inl e \<Rightarrow> (Inl e, n1)
           | Inr payload \<Rightarrow>
               (case bc payload (blobs n1) of
                  (Inl e, b') \<Rightarrow> (Inl (Msg (''gossip broadcast: '' @ e)), n1\<lparr>blobs := b'\<rparr>)
                | (Inr _, b') \<Rightarrow> (Inr True, n1\<lparr>blobs := b'\<rparr>))))"
proof -
  have "tombstone rel me = Inr \<lparr>su_version = 2, su_body = Tombstone rel me\<rparr>"
    using assms by (simp add: tombstone_iff)
  then show ?thesis using assms
    by (auto simp: broadcast_tombstone_def in_dedup_window_def Let_def split: option.splits)
qed

lemma broadcast_tombstone_marks:
  assumes "validate_relative_path rel = Inr ()" "broadcast_tombstone bc ca rel me n = (r, n')"
    and "\<not> in_dedup_window n (path_comps rel)"
  shows "recently_broadcast_tombstones (sync n') (path_comps rel) = Some (mono_ms n)" "mono_ms n' = mono_ms n"
    "r \<noteq> Inr False"
  using assms(2) unfolding broadcast_tombstone_eq [OF assms(1)]
  by (auto simp: assms(3) Let_def split: sum.splits prod.splits)

text \<open>
  After an attempt, failed or not, no broadcast of the same path happens for two seconds; after that
  one happens again.
\<close>

lemma tombstone_dedup:
  assumes "validate_relative_path rel = Inr ()" "broadcast_tombstone bc ca rel me n = (r, n')"
    and "\<not> in_dedup_window n (path_comps rel)"
    and "sync n'' = sync n'" "mono_ms n'' = mono_ms n + d"
  shows "d < TOMBSTONE_DEDUP_TTL \<Longrightarrow> broadcast_tombstone bc ca rel me n'' = (Inr False, n'')"
    and "TOMBSTONE_DEDUP_TTL \<le> d \<Longrightarrow> fst (broadcast_tombstone bc ca rel me n'') \<noteq> Inr False"
proof -
  note m = broadcast_tombstone_marks [OF assms(1-3)]
  have w: "in_dedup_window n'' (path_comps rel) \<longleftrightarrow> d < TOMBSTONE_DEDUP_TTL"
    using m(1) assms(4,5) by (simp add: in_dedup_window_def)
  show "d < TOMBSTONE_DEDUP_TTL \<Longrightarrow> broadcast_tombstone bc ca rel me n'' = (Inr False, n'')"
    using w by (simp add: broadcast_tombstone_eq [OF assms(1)])
  show "fst (broadcast_tombstone bc ca rel me n'') \<noteq> Inr False" if d: "TOMBSTONE_DEDUP_TTL \<le> d"
  proof -
    obtain r2 n3 where b: "broadcast_tombstone bc ca rel me n'' = (r2, n3)" by fastforce
    have "\<not> in_dedup_window n'' (path_comps rel)" using w d by simp
    then show ?thesis using broadcast_tombstone_marks(3) [OF assms(1) b] b by simp
  qed
qed

end
