(* ===== verification/Receive.thy ===== *)
theory Receive
  imports Send
begin

text \<open>
  \<open>src/src/receive.rs\<close>: a gossip payload is validated, authorised and applied to the watched
  directory.  A \<open>peer_api\<close> gathers the foreign functions a node uses; the callback for a seen peer
  acts on the daemon's part of the node (\<open>peer_node.more\<close>).
\<close>

section \<open>Outcomes and parameters\<close>

datatype receive_outcome = Applied | Skipped (skip_reason: str)

record 'b peer_api =
  pa_ids :: id_api
  pa_blob :: "'b blob_api"
  pa_codec :: codec_api
  pa_tempfile :: tempfile_api
  pa_pending :: pending_api

definition peer_api_ok :: "'b peer_api \<Rightarrow> bool" where
  "peer_api_ok pa \<longleftrightarrow>
     id_ok (pa_ids pa) \<and> blob_ok (pa_blob pa) \<and> codec_ok (pa_codec pa)
     \<and> tempfile_ok (pa_tempfile pa) \<and> pending_api_ok (pa_pending pa)"

lemma peer_api_okD:
  "peer_api_ok pa \<Longrightarrow> id_ok (pa_ids pa)" "peer_api_ok pa \<Longrightarrow> blob_ok (pa_blob pa)"
  "peer_api_ok pa \<Longrightarrow> codec_ok (pa_codec pa)" "peer_api_ok pa \<Longrightarrow> tempfile_ok (pa_tempfile pa)"
  "peer_api_ok pa \<Longrightarrow> pending_api_ok (pa_pending pa)"
  by (simp_all add: peer_api_ok_def)

section \<open>The pending-write guard\<close>

text \<open>
  \<open>PendingWriteGuard::new\<close> marks the path; dropping the guard removes the mark unless \<open>commit\<close> was
  called.
\<close>

definition guard_new :: "str \<Rightarrow> blob_hash \<Rightarrow> sync_state \<Rightarrow> sync_state" where
  "guard_new rel_path hash s = s\<lparr>pending_written := (pending_written s)(path_comps rel_path \<mapsto> hash)\<rparr>"

definition guard_drop :: "bool \<Rightarrow> str \<Rightarrow> sync_state \<Rightarrow> sync_state" where
  "guard_drop cm rel_path s =
     (if cm then s else s\<lparr>pending_written := (pending_written s)(path_comps rel_path := None)\<rparr>)"

section \<open>Blobs\<close>

definition ensure_blob_local ::
  "id_api \<Rightarrow> 'b blob_api \<Rightarrow> endpoint_id \<Rightarrow> blob_hash \<Rightarrow> blob_format \<Rightarrow> 'b \<Rightarrow> (err + unit) \<times> 'b" where
  "ensure_blob_local ids ba source hash fmt b =
     (if bl_local_complete ba hash fmt b = Inr True then (Inr (), b)
      else (case bl_connect ba source b of
              (Inl e, b1) \<Rightarrow> (Inl (Msg (''connect to '' @ id_fmt_short ids source @ '': '' @ e)), b1)
            | (Inr _, b1) \<Rightarrow>
                (case bl_fetch ba source hash fmt b1 of
                   (Inl e, b2) \<Rightarrow> (Inl (Msg (''remote fetch: '' @ e)), b2)
                 | (Inr _, b2) \<Rightarrow> (Inr (), b2))))"

definition blob_size :: "'b blob_api \<Rightarrow> blob_hash \<Rightarrow> 'b \<Rightarrow> err + nat" where
  "blob_size ba hash b =
     (case bl_size ba hash b of Inl e \<Rightarrow> Inl (Msg (''blob observe: '' @ e)) | Inr n \<Rightarrow> Inr n)"

definition read_blob_bytes :: "'b blob_api \<Rightarrow> blob_hash \<Rightarrow> 'b \<Rightarrow> err + bytes" where
  "read_blob_bytes ba hash b = ctx ''read blob bytes'' (bl_read ba hash b)"

section \<open>Applying an upsert\<close>

fun receive_write_err :: "path \<Rightarrow> write_step \<times> io_kind \<Rightarrow> err" where
  "receive_write_err abs_path (AtCreate, e) = Ctx (''tempfile_in '' @ display (butlast abs_path)) (Io e)"
| "receive_write_err abs_path (AtWrite, e) = Ctx ''write tempfile'' (Io e)"
| "receive_write_err abs_path (AtPersist, e) = Ctx (''persist '' @ display abs_path) (Io e)"
| "receive_write_err abs_path (_, e) = Io e"

text \<open>
  From the conflict backup to the rename onto the target.
\<close>

definition backup_local ::
  "id_api \<Rightarrow> path \<Rightarrow> bytes \<Rightarrow> endpoint_id \<Rightarrow> 'z world_scheme \<Rightarrow> (err + unit) \<times> 'z world_scheme" where
  "backup_local ids abs_path bytes from_id w =
     (case compute_conflict_backup_path ids abs_path bytes from_id w of
        (None, w1) \<Rightarrow> (Inr (), w1)
      | (Some backup, w1) \<Rightarrow>
          io_err (''rename '' @ display abs_path @ '' -> '' @ display backup) (fs_rename abs_path backup w1))"

definition write_upsert ::
  "id_api \<Rightarrow> tempfile_api \<Rightarrow> path \<Rightarrow> bytes \<Rightarrow> endpoint_id \<Rightarrow> 'z world_scheme \<Rightarrow> (err + unit) \<times> 'z world_scheme" where
  "write_upsert ids tf abs_path bytes from_id w =
     and_then (backup_local ids abs_path bytes from_id w) (\<lambda>_ w1.
     and_then (case path_parent abs_path of
                 Some parent \<Rightarrow> io_err (''create_dir_all '' @ display parent) (create_dir_all parent w1)
               | None \<Rightarrow> (Inr (), w1)) (\<lambda>_ w2.
       case write_via_tempfile tf (butlast abs_path) ''.dirhive.'' None bytes abs_path w2 of
         (Inl e, w3) \<Rightarrow> (Inl (receive_write_err abs_path e), w3)
       | (Inr _, w3) \<Rightarrow> (Inr (), w3)))"

text \<open>
  The part of \<open>handle_upsert\<close> under the guard: \<open>Inl\<close> is an early return with its value, \<open>Inr\<close> is
  the point where the guard is committed.
\<close>

definition upsert_guarded ::
  "'b peer_api \<Rightarrow> path \<Rightarrow> blob_hash \<Rightarrow> blob_format \<Rightarrow> endpoint_id \<Rightarrow> ('b, 'z) peer_node_scheme
     \<Rightarrow> ((err + receive_outcome) + unit) \<times> ('b, 'z) peer_node_scheme" where
  "upsert_guarded pa abs_path hash fmt from_id n =
     (case ensure_blob_local (pa_ids pa) (pa_blob pa) from_id hash fmt (blobs n) of
        (Inl e, b1) \<Rightarrow> (Inl (Inr (Skipped ''blob_fetch_failed'')), n\<lparr>blobs := b1\<rparr>)
      | (Inr _, b1) \<Rightarrow>
          (let n1 = n\<lparr>blobs := b1\<rparr> in
           case blob_size (pa_blob pa) hash b1 of
             Inl e \<Rightarrow> (Inl (Inl (Ctx ''blob size'' e)), n1)
           | Inr sz \<Rightarrow>
               if sz > MAX_FILE_SIZE then (Inl (Inr (Skipped ''too_large'')), n1)
               else
                 (case read_blob_bytes (pa_blob pa) hash b1 of
                    Inl e \<Rightarrow> (Inl (Inl e), n1)
                  | Inr bytes \<Rightarrow>
                      (case write_upsert (pa_ids pa) (pa_tempfile pa) abs_path bytes from_id n1 of
                         (Inl e, n2) \<Rightarrow> (Inl (Inl e), n2)
                       | (Inr _, n2) \<Rightarrow> (Inr (), n2)))))"

definition handle_upsert ::
  "'b peer_api \<Rightarrow> str \<Rightarrow> blob_hash \<Rightarrow> blob_format \<Rightarrow> endpoint_id \<Rightarrow> path \<Rightarrow> ('b, 'z) peer_node_scheme
     \<Rightarrow> (err + receive_outcome) \<times> ('b, 'z) peer_node_scheme" where
  "handle_upsert pa rel_path hash fmt from_id root n =
     (case resolve_safe_path root rel_path n of
        (Inl e, n1) \<Rightarrow> (Inr (Skipped ''unsafe_path''), n1)
      | (Inr abs_path, n1) \<Rightarrow>
          (case upsert_guarded pa abs_path hash fmt from_id (n1\<lparr>sync := guard_new rel_path hash (sync n1)\<rparr>) of
             (Inl out, n2) \<Rightarrow> (out, n2\<lparr>sync := guard_drop False rel_path (sync n2)\<rparr>)
           | (Inr _, n2) \<Rightarrow>
               (let s = guard_drop True rel_path (sync n2);
                    s1 = s\<lparr>pending_written := (pending_written s)(path_comps rel_path := None)\<rparr>;
                    s2 = s1\<lparr>last_written := (last_written s1)(path_comps rel_path \<mapsto> hash)\<rparr> in
                (Inr Applied, n2\<lparr>sync := s2\<rparr>))))"

section \<open>Applying a tombstone\<close>

definition handle_tombstone ::
  "str \<Rightarrow> path \<Rightarrow> ('b, 'z) peer_node_scheme \<Rightarrow> (err + receive_outcome) \<times> ('b, 'z) peer_node_scheme" where
  "handle_tombstone rel_path root n =
     (case resolve_safe_path root rel_path n of
        (Inl e, n1) \<Rightarrow> (Inr (Skipped ''unsafe_path''), n1)
      | (Inr abs_path, n1) \<Rightarrow>
          (let key = path_comps rel_path;
               n2 = n1\<lparr>sync := (sync n1)\<lparr>last_removed := insert key (last_removed (sync n1))\<rparr>\<rparr> in
           case remove_file abs_path n2 of
             (Inr _, n3) \<Rightarrow> (Inr Applied, n3)
           | (Inl e, n3) \<Rightarrow>
               (let n4 = n3\<lparr>sync := (sync n3)\<lparr>last_removed := last_removed (sync n3) - {key}\<rparr>\<rparr> in
                if e = NotFound then (Inr Applied, n4)
                else (Inl (Ctx (''remove_file '' @ display abs_path) (Io e)), n4))))"

section \<open>Dispatch\<close>

text \<open>\<open>PeerSeenCallback\<close> and \<open>OnNeighborUpCallback\<close>, as changes of the daemon's state.\<close>

type_synonym 'z peer_seen_callback = "endpoint_id \<Rightarrow> int \<Rightarrow> 'z \<Rightarrow> 'z"

definition call_seen ::
  "'z peer_seen_callback option \<Rightarrow> endpoint_id \<Rightarrow> int \<Rightarrow> ('b, 'z) peer_node_scheme \<Rightarrow> ('b, 'z) peer_node_scheme" where
  "call_seen cb i t n = (case cb of None \<Rightarrow> n | Some f \<Rightarrow> peer_node.more_update (f i t) n)"

text \<open>\<open>record_receive\<close> whose error is only logged.\<close>

definition record_receive_logged ::
  "'b peer_api \<Rightarrow> pending_tracker \<Rightarrow> pending_entry \<Rightarrow> 'z world_scheme \<Rightarrow> 'z world_scheme" where
  "record_receive_logged pa pt entry w =
     snd (record_receive (pa_pending pa) (pa_tempfile pa) (pt_pending_root pt) (pt_repo_hash pt) entry w)"

definition upsert_entry ::
  "'b peer_api \<Rightarrow> str \<Rightarrow> blob_hash \<Rightarrow> peer_ref \<Rightarrow> int \<Rightarrow> 'b \<Rightarrow> pending_entry" where
  "upsert_entry pa path hash from received_at b =
     (let bytes = (case blob_size (pa_blob pa) hash b of Inl _ \<Rightarrow> 0 | Inr s \<Rightarrow> s) in
      PUpsert PENDING_SCHEMA_VERSION path received_at (id_to_string (pa_ids pa) (peer_id from))
        (hash_to_string (pa_ids pa) hash) (word_of_nat bytes))"

definition tombstone_entry :: "'b peer_api \<Rightarrow> str \<Rightarrow> peer_ref \<Rightarrow> int \<Rightarrow> pending_entry" where
  "tombstone_entry pa path from received_at =
     PTombstone PENDING_SCHEMA_VERSION path received_at (id_to_string (pa_ids pa) (peer_id from))"

definition dispatch_update ::
  "'b peer_api \<Rightarrow> bytes \<Rightarrow> path \<Rightarrow> pending_tracker \<Rightarrow> 'z peer_seen_callback option
     \<Rightarrow> ('b, 'z) peer_node_scheme \<Rightarrow> (err + receive_outcome) \<times> ('b, 'z) peer_node_scheme" where
  "dispatch_update pa payload root pending on_peer_seen n =
     (case from_bytes (pa_codec pa) payload of
        Inl e \<Rightarrow> (Inr (Skipped ''invalid_wire_format''), n)
      | Inr update \<Rightarrow>
          (let from_id = peer_id (su_from update) in
           if \<not> al_contains (allow n) from_id then (Inr (Skipped ''peer_not_allowed''), n)
           else
             (let received_at = epoch_secs n in
              case su_body update of
                Upsert path hash fmt from \<Rightarrow>
                  and_then (handle_upsert pa path hash fmt (peer_id from) root n) (\<lambda>outcome n1.
                    if outcome = Applied then
                      (let entry = upsert_entry pa path hash from received_at (blobs n1) in
                       (Inr outcome,
                        call_seen on_peer_seen (peer_id from) received_at (record_receive_logged pa pending entry n1)))
                    else (Inr outcome, n1))
              | Tombstone path from \<Rightarrow>
                  and_then (handle_tombstone path root n) (\<lambda>outcome n1.
                    if outcome = Applied then
                      (let entry = tombstone_entry pa path from received_at in
                       (Inr outcome,
                        call_seen on_peer_seen (peer_id from) received_at (record_receive_logged pa pending entry n1)))
                    else (Inr outcome, n1)))))"

section \<open>The receive loop\<close>

text \<open>The items of the gossip stream; the loop ends with the stream.\<close>

datatype gossip_item =
    StreamError str
  | Received bytes
  | NeighborUp endpoint_id
  | NeighborDown endpoint_id
  | Lagged

fun receive_loop ::
  "'b peer_api \<Rightarrow> path \<Rightarrow> pending_tracker \<Rightarrow> 'z peer_seen_callback option \<Rightarrow> (endpoint_id \<Rightarrow> 'z \<Rightarrow> 'z) option
     \<Rightarrow> gossip_item list \<Rightarrow> ('b, 'z) peer_node_scheme \<Rightarrow> ('b, 'z) peer_node_scheme" where
  "receive_loop pa root pending seen up [] n = n"
| "receive_loop pa root pending seen up (StreamError e # evs) n = receive_loop pa root pending seen up evs n"
| "receive_loop pa root pending seen up (Received content # evs) n =
     receive_loop pa root pending seen up evs (snd (dispatch_update pa content root pending seen n))"
| "receive_loop pa root pending seen up (NeighborUp i # evs) n =
     receive_loop pa root pending seen up evs
       (case up of None \<Rightarrow> n | Some cb \<Rightarrow> peer_node.more_update (cb i) n)"
| "receive_loop pa root pending seen up (NeighborDown i # evs) n = receive_loop pa root pending seen up evs n"
| "receive_loop pa root pending seen up (Lagged # evs) n = receive_loop pa root pending seen up evs n"

end
