(* ===== verification/Receive_Laws.thy ===== *)
theory Receive_Laws
  imports Receive
begin

text \<open>
  The effect of an applied update on the file system, first for \<open>write_upsert\<close> and then for the
  handlers: which locations may change, where the old content of the file goes, and what the
  registries say afterwards, on every outcome.
\<close>

section \<open>Renaming a file beside itself\<close>

lemma k_rename_sibling:
  assumes "wf_fs f" "real_dir f d" "normal n" "normal n'" "n \<noteq> n'"
    and "node_at f (d @ [n]) = Some nd" "\<not> is_dir nd" "k_rename (d @ [n]) (d @ [n']) f = (r, f')"
  shows "wf_fs f' \<and> (if r = Inr () then node_at f' = (node_at f)(d @ [n] := None, d @ [n'] \<mapsto> nd) else f' = f)"
proof -
  have l: "locate False f (d @ [n]) = Inr (d @ [n])" "locate False f (d @ [n']) = Inr (d @ [n'])"
    using assms(1-4) by (auto intro: locate_child)
  show ?thesis
  proof (cases "dir_at f (d @ [n'])")
    case True
    then show ?thesis using assms(1,6-8) l by (auto simp: k_rename_def dir_at_def)
  next
    case False
    let ?g = "AList.delete (d @ [n]) f"
    have e: "r = Inr ()" "f' = AList.update (d @ [n']) nd ?g"
      using assms(6-8) l False by (auto simp: k_rename_def dir_at_def split: option.splits node.splits)
    have wg: "wf_fs ?g" using assms(1,6,7) by (intro wf_fs_delete) (auto simp: dir_at_def)
    have "dir_at ?g d" "\<not> dir_at ?g (d @ [n'])" using assms(2) False by (auto simp: real_dir_def dir_at_def)
    then have "wf_fs f'" using e wf_fs_update [OF wg, of "d @ [n']" nd] by simp
    moreover have "node_at f' = (node_at f)(d @ [n] := None, d @ [n'] \<mapsto> nd)"
      using e by (auto simp: fun_eq_iff)
    ultimately show ?thesis using e by simp
  qed
qed

lemma k_read_plain_file:
  "wf_fs f \<Longrightarrow> plain f p \<Longrightarrow> fst (k_read p f) = Inr b \<longleftrightarrow> (\<exists>m. node_at f p = Some (File b m))"
  by (simp add: k_read_plain split: option.splits node.splits)

lemma plain_parent_real:
  assumes "wf_fs f" "plain f (d @ [n])" "node_at f (d @ [n]) \<noteq> None"
  shows "real_dir f d"
  using wf_fs_parent [OF assms(1) _ assms(3)] assms(2) by (simp add: real_dir_def plain_def)

section \<open>The conflict backup\<close>

abbreviation backup_path :: "id_api \<Rightarrow> path \<Rightarrow> str \<Rightarrow> endpoint_id \<Rightarrow> path" where
  "backup_path ids d n i \<equiv> d @ [conflict_backup_name ids n i]"

lemma backup_local_post:
  assumes "backup_local ids (d @ [n]) b i w = (r, w')" "wf_fs (fs w)" "plain (fs w) (d @ [n])"
  shows "fs_step w w'" "wf_fs (fs w')"
    "fs w' = fs w \<or> (r = Inr () \<and> (\<exists>old m. node_at (fs w) (d @ [n]) = Some (File old m) \<and> old \<noteq> b
       \<and> node_at (fs w') = (node_at (fs w))(d @ [n] := None, backup_path ids d n i \<mapsto> File old m)))"
    "r = Inr () \<Longrightarrow> faults w = [] \<Longrightarrow> node_at (fs w) (d @ [n]) = Some (File old m) \<Longrightarrow> old \<noteq> b \<Longrightarrow>
       node_at (fs w') (backup_path ids d n i) = Some (File old m)"
proof -
  have n: "normal n" using assms(3) by (simp add: plain_def)
  obtain c w1 where 1: "compute_conflict_backup_path ids (d @ [n]) b i w = (c, w1)" by fastforce
  note ci = compute_conflict_backup_path_inv [OF 1 n]
  have "fs_step w w' \<and> wf_fs (fs w') \<and>
    (fs w' = fs w \<or> (r = Inr () \<and> (\<exists>old m. node_at (fs w) (d @ [n]) = Some (File old m) \<and> old \<noteq> b
       \<and> node_at (fs w') = (node_at (fs w))(d @ [n] := None, backup_path ids d n i \<mapsto> File old m)))) \<and>
    (r = Inr () \<and> faults w = [] \<longrightarrow> (\<forall>old m. node_at (fs w) (d @ [n]) = Some (File old m) \<and> old \<noteq> b \<longrightarrow>
       node_at (fs w') (backup_path ids d n i) = Some (File old m)))"
  proof (cases c)
    case None
    then have "w' = w1" using assms(1) 1 by (simp add: backup_local_def)
    moreover have "\<not> (\<exists>old m. node_at (fs w) (d @ [n]) = Some (File old m) \<and> old \<noteq> b)" if "faults w = []"
      using ci(5) [OF that] None k_read_plain_file [OF assms(2,3)] by (metis option.discI)
    ultimately show ?thesis using ci(1,2) assms(2) by auto
  next
    case (Some bp)
    then have bp: "bp = backup_path ids d n i" using ci(3) by simp
    obtain old where "fst (k_read (d @ [n]) (fs w)) = Inr old" "old \<noteq> b" using ci(4) Some by auto
    then obtain m where old: "node_at (fs w) (d @ [n]) = Some (File old m)" "old \<noteq> b"
      using k_read_plain_file [OF assms(2,3)] by blast
    have rd: "real_dir (fs w) d" by (rule plain_parent_real [OF assms(2,3)]) (simp add: old)
    obtain r2 w2 where 2: "fs_rename (d @ [n]) bp w1 = (r2, w2)" by fastforce
    have w': "w' = w2" "r = Inr () \<longleftrightarrow> r2 = Inr ()"
      using assms(1) 1 2 Some by (auto simp: backup_local_def io_err_def split: sum.splits)
    note si = syscall_inv [OF 2 [unfolded fs_rename_def]]
    have st: "fs_step w w2" using si ci(1) fs_step_trans by blast
    show ?thesis
    proof (cases "r2 = Inl OtherIo \<and> fs w2 = fs w1")
      case True
      then show ?thesis using st w' ci(2) assms(2) by auto
    next
      case False
      then have k: "k_rename (d @ [n]) bp (fs w) = (r2, fs w2)" using si ci(2) by auto
      note ks = k_rename_sibling [OF assms(2) rd n conflict_backup_normal _ old(1) _ k [unfolded bp]]
      have ks': "wf_fs (fs w2) \<and> (if r2 = Inr () then node_at (fs w2) =
          (node_at (fs w))(d @ [n] := None, backup_path ids d n i \<mapsto> File old m) else fs w2 = fs w)"
        by (rule ks) (use conflict_backup_other [of ids n i] in auto)
      then show ?thesis using st w' old by (cases "r2 = Inr ()") auto
    qed
  qed
  then show "fs_step w w'" "wf_fs (fs w')"
    "fs w' = fs w \<or> (r = Inr () \<and> (\<exists>old m. node_at (fs w) (d @ [n]) = Some (File old m) \<and> old \<noteq> b
       \<and> node_at (fs w') = (node_at (fs w))(d @ [n] := None, backup_path ids d n i \<mapsto> File old m)))"
    "r = Inr () \<Longrightarrow> faults w = [] \<Longrightarrow> node_at (fs w) (d @ [n]) = Some (File old m) \<Longrightarrow> old \<noteq> b \<Longrightarrow>
       node_at (fs w') (backup_path ids d n i) = Some (File old m)" by blast+
qed

section \<open>The write\<close>

text \<open>
  What a write of \<open>d/n\<close> may change beside the target and its backup: missing directories on the way
  are made, and a temporary file may stay behind.
\<close>

definition upsert_frame :: "id_api \<Rightarrow> path \<Rightarrow> str \<Rightarrow> endpoint_id \<Rightarrow> fs \<Rightarrow> fs \<Rightarrow> bool" where
  "upsert_frame ids d n i f f' \<longleftrightarrow>
     (\<forall>q. q \<noteq> d @ [n] \<longrightarrow> q \<noteq> backup_path ids d n i \<longrightarrow>
        node_at f' q = node_at f q
        \<or> (node_at f q = None \<and> ((prefix q d \<and> dir_at f' q) \<or> (\<exists>mid. q = d @ [''.dirhive.'' @ mid @ ''.tmp'']))))"

lemma plain_dir_path: "plain f (d @ [n]) \<Longrightarrow> dir_path f d"
  unfolding dir_path_def plain_def prefix_def by force

lemma upsert_frame_same: "node_at f' = node_at f \<Longrightarrow> upsert_frame ids d n i f f'"
  by (simp add: upsert_frame_def)

lemma write_upsert_post:
  assumes r: "write_upsert ids tf (d @ [n]) b i w = (r, w')"
    and wf: "wf_fs (fs w)" and pl: "plain (fs w) (d @ [n])" and tf: "tempfile_ok tf" and ids: "id_ok ids"
  shows "fs_step w w'" "wf_fs (fs w')" "upsert_frame ids d n i (fs w) (fs w')"
    "r = Inr () \<Longrightarrow> node_at (fs w') (d @ [n]) = Some (File b 384)"
    "r = Inr () \<Longrightarrow> faults w = [] \<Longrightarrow> node_at (fs w) (d @ [n]) = Some (File old m) \<Longrightarrow> old \<noteq> b \<Longrightarrow>
       node_at (fs w') (backup_path ids d n i) = Some (File old m)"
    "r \<noteq> Inr () \<Longrightarrow> node_at (fs w) (d @ [n]) = Some (File old m) \<Longrightarrow>
       node_at (fs w') (d @ [n]) = Some (File old m) \<or> node_at (fs w') (backup_path ids d n i) = Some (File old m)"
    "node_at (fs w') (backup_path ids d n i) \<noteq> node_at (fs w) (backup_path ids d n i) \<Longrightarrow>
       \<exists>old m. node_at (fs w) (d @ [n]) = Some (File old m) \<and> old \<noteq> b
         \<and> node_at (fs w') (backup_path ids d n i) = Some (File old m)"
proof -
  let ?bp = "backup_path ids d n i"
  have nn: "normal n" using pl by (simp add: plain_def)
  have bn: "?bp \<noteq> d @ [n]" using conflict_backup_other [of ids n i] by simp
  obtain r1 w1 where 1: "backup_local ids (d @ [n]) b i w = (r1, w1)" by fastforce
  note b1 = backup_local_post [OF 1 wf pl]
  define moved where "moved old m \<longleftrightarrow> node_at (fs w) (d @ [n]) = Some (File old m) \<and> old \<noteq> b
       \<and> node_at (fs w1) = (node_at (fs w))(d @ [n] := None, ?bp \<mapsto> File old m)" for old m
  have mv: "fs w1 = fs w \<or> (r1 = Inr () \<and> (\<exists>old m. moved old m))"
    using b1(3) by (auto simp: moved_def)
  have d1: "dir_path (fs w1) d"
  proof -
    have "prefix q d \<Longrightarrow> node_at (fs w1) q = node_at (fs w) q" for q
      using mv by (auto simp: moved_def prefix_def dest: arg_cong [of _ _ length])
    then show ?thesis using plain_dir_path [OF pl] by (simp add: dir_path_def dir_at_def)
  qed
  \<comment> \<open>the facts after the first stage\<close>
  have s1: "upsert_frame ids d n i (fs w) (fs w1)"
    using mv by (auto simp: upsert_frame_def moved_def)
  have k1: "node_at (fs w1) (d @ [n]) = Some (File old m) \<or> node_at (fs w1) ?bp = Some (File old m)"
    if "node_at (fs w) (d @ [n]) = Some (File old m)" for old m
    using mv that bn by (auto simp: moved_def)
  have p1: "node_at (fs w1) ?bp \<noteq> node_at (fs w) ?bp \<Longrightarrow> \<exists>old m. moved old m" using mv by auto
  have g: "fs_step w w' \<and> wf_fs (fs w') \<and> upsert_frame ids d n i (fs w) (fs w')
     \<and> (r = Inr () \<longrightarrow> node_at (fs w') (d @ [n]) = Some (File b 384) \<and> r1 = Inr ())
     \<and> (\<forall>old m. node_at (fs w1) ?bp = Some (File old m) \<longrightarrow> node_at (fs w') ?bp = Some (File old m))
     \<and> (r \<noteq> Inr () \<longrightarrow> (\<forall>old m. node_at (fs w1) (d @ [n]) = Some (File old m) \<longrightarrow>
            node_at (fs w') (d @ [n]) = Some (File old m)))
     \<and> (node_at (fs w') ?bp = node_at (fs w1) ?bp)"
  proof (cases "r1 = Inr ()")
    case False
    then have "w' = w1" "r \<noteq> Inr ()" using r 1 by (cases r1; auto simp: write_upsert_def)+
    then show ?thesis using b1(1,2) s1 by simp
  next
    case True
    obtain r2 w2 where 2: "create_dir_all d w1 = (r2, w2)" by fastforce
    note c = create_dir_all_inv [OF 2 b1(2) d1]
    have st2: "fs_step w w2" using b1(1) c(1) by (rule fs_step_trans)
    have nd: "\<not> prefix (d @ [x]) d" for x by (auto simp: prefix_def)
    have e2: "node_at (fs w2) (d @ [x]) = node_at (fs w1) (d @ [x])" for x
      using c(3) nd by (auto simp: dirs_added_def)
    have s2: "upsert_frame ids d n i (fs w) (fs w2)"
      unfolding upsert_frame_def
    proof (intro allI impI)
      fix q assume q: "q \<noteq> d @ [n]" "q \<noteq> ?bp"
      then show "node_at (fs w2) q = node_at (fs w) q \<or> node_at (fs w) q = None \<and>
          (prefix q d \<and> dir_at (fs w2) q \<or> (\<exists>mid. q = d @ [''.dirhive.'' @ mid @ ''.tmp'']))"
        using s1 c(3) unfolding upsert_frame_def dirs_added_def dir_at_def by metis
    qed
    show ?thesis
    proof (cases "r2 = Inr ()")
      case False
      then have "w' = w2" "r \<noteq> Inr ()"
        using r 1 2 True by (cases r2; auto simp: write_upsert_def path_parent_def)+
      then show ?thesis using st2 c(2) s2 e2 by simp
    next
      case r2: True
      have rd: "real_dir (fs w2) d" using c(5) r2 by simp
      obtain r3 w3 where 3: "write_via_tempfile tf d ''.dirhive.'' None b (d @ [n]) w2 = (r3, w3)" by fastforce
      have wp: "write_post d ''.dirhive.'' None b (d @ [n]) w2 (r3, w3)"
        using write_via_tempfile_post [OF tf c(2) rd nn, of "''.dirhive.''" None b] 3 by simp
      have w': "w' = w3" "r = Inr () \<longleftrightarrow> r3 = Inr ()"
        using r 1 2 3 True r2 by (cases r3; auto simp: write_upsert_def path_parent_def)+
      have st: "fs_step w w3" using wp fs_step_trans [OF st2] by (simp add: write_post_def)
      show ?thesis
      proof (cases r3)
        case (Inr u)
        then have o: "node_at (fs w3) = (node_at (fs w2))(d @ [n] \<mapsto> File b 384)"
          using wp by (simp add: write_post_def)
        then have "upsert_frame ids d n i (fs w) (fs w3)"
          using s2 by (auto simp: upsert_frame_def dir_at_def)
        then show ?thesis using o st w' wp Inr True bn e2 by (simp add: write_post_def)
      next
        case (Inl x)
        have lo: "leftover d ''.dirhive.'' (fs w2) (fs w3)" using wp Inl by (simp add: write_post_def)
        have tb: "conflict_backup_name ids n i \<noteq> ''.dirhive.'' @ mid @ ''.tmp''" for mid
          by (rule conflict_backup_not_tmp [OF ids])
        have "upsert_frame ids d n i (fs w) (fs w3)"
          unfolding upsert_frame_def
        proof (intro allI impI)
          fix q assume q: "q \<noteq> d @ [n]" "q \<noteq> ?bp"
          show "node_at (fs w3) q = node_at (fs w) q \<or> node_at (fs w) q = None \<and>
              (prefix q d \<and> dir_at (fs w3) q \<or> (\<exists>mid. q = d @ [''.dirhive.'' @ mid @ ''.tmp'']))"
          proof (cases "\<exists>mid. q = d @ [''.dirhive.'' @ mid @ ''.tmp'']")
            case True
            have "node_at (fs w2) q = node_at (fs w) q \<or> node_at (fs w) q = None"
              using s2 [unfolded upsert_frame_def, rule_format, OF q] by argo
            moreover have "node_at (fs w3) q = node_at (fs w2) q \<or> node_at (fs w2) q = None"
              using lo unfolding leftover_def by (elim disjE exE conjE) simp_all
            ultimately show ?thesis using True by metis
          next
            case False
            then have "node_at (fs w3) q = node_at (fs w2) q" using lo by (auto simp: leftover_def)
            then show ?thesis using s2 q False unfolding upsert_frame_def dir_at_def by metis
          qed
        qed
        moreover have "node_at (fs w3) ?bp = node_at (fs w2) ?bp" using lo tb by (auto simp: leftover_def)
        moreover have "node_at (fs w2) (d @ [n]) = Some nd \<Longrightarrow> node_at (fs w3) (d @ [n]) = Some nd" for nd
          using lo unfolding leftover_def by (elim disjE exE conjE) auto
        ultimately show ?thesis using st w' wp Inl e2 by (simp add: write_post_def)
      qed
    qed
  qed
  show "fs_step w w'" "wf_fs (fs w')" "upsert_frame ids d n i (fs w) (fs w')"
    "r = Inr () \<Longrightarrow> node_at (fs w') (d @ [n]) = Some (File b 384)" using g by auto
  show "node_at (fs w') ?bp = Some (File old m)"
    if "r = Inr ()" "faults w = []" "node_at (fs w) (d @ [n]) = Some (File old m)" "old \<noteq> b"
    using g b1(4) that by blast
  show "node_at (fs w') (d @ [n]) = Some (File old m) \<or> node_at (fs w') ?bp = Some (File old m)"
    if "r \<noteq> Inr ()" "node_at (fs w) (d @ [n]) = Some (File old m)"
    using g k1 that by blast
  show "\<exists>old m. node_at (fs w) (d @ [n]) = Some (File old m) \<and> old \<noteq> b
         \<and> node_at (fs w') ?bp = Some (File old m)"
    if ne: "node_at (fs w') ?bp \<noteq> node_at (fs w) ?bp"
  proof -
    have e: "node_at (fs w') ?bp = node_at (fs w1) ?bp" using g by blast
    then obtain old m where m: "moved old m" using p1 ne by auto
    have "node_at (fs w1) ?bp = Some (File old m)" using m by (simp add: moved_def)
    then show ?thesis using m e unfolding moved_def by auto
  qed
qed

section \<open>Only the file system and the fault script move\<close>

text \<open>Without any hypothesis on the paths: the steps of a handler on the host.\<close>

lemma syscall_fs_step: "syscall op w = (r, w') \<Longrightarrow> fs_step w w'"
  using syscall_inv by blast

lemma path_is_dir_fs_step: "path_is_dir p w = (b, w') \<Longrightarrow> fs_step w w'"
  using path_is_dir_inv by blast

lemma mkdir_or_dir_fs_step: "mkdir_or_dir p w = (r, w') \<Longrightarrow> fs_step w w'"
proof -
  obtain r1 w1 where 1: "fs_mkdir p w = (r1, w1)" by fastforce
  have s1: "fs_step w w1" using syscall_fs_step [OF 1 [unfolded fs_mkdir_def]] .
  obtain b w2 where 2: "path_is_dir p w1 = (b, w2)" by fastforce
  have s2: "fs_step w w2" using s1 path_is_dir_fs_step [OF 2] by (rule fs_step_trans)
  show "mkdir_or_dir p w = (r, w') \<Longrightarrow> fs_step w w'"
    using 1 2 s1 s2 by (auto simp: mkdir_or_dir_def split: sum.splits bool.splits)
qed

lemma create_dir_all_rev_fs_step: "create_dir_all_rev rc w = (r, w') \<Longrightarrow> fs_step w w'"
proof (induction rc arbitrary: w r w')
  case Nil
  then show ?case using mkdir_or_dir_fs_step by simp
next
  case (Cons c rc)
  obtain r1 w1 where 1: "fs_mkdir (rev (c # rc)) w = (r1, w1)" by fastforce
  have s1: "fs_step w w1" using syscall_fs_step [OF 1 [unfolded fs_mkdir_def]] .
  obtain r2 w2 where 2: "create_dir_all_rev rc w1 = (r2, w2)" by fastforce
  have s2: "fs_step w w2" using s1 Cons.IH [OF 2] by (rule fs_step_trans)
  obtain r3 w3 where 3: "mkdir_or_dir (rev (c # rc)) w2 = (r3, w3)" by fastforce
  have s3: "fs_step w w3" using s2 mkdir_or_dir_fs_step [OF 3] by (rule fs_step_trans)
  obtain b w4 where 4: "path_is_dir (rev (c # rc)) w1 = (b, w4)" by fastforce
  have s4: "fs_step w w4" using s1 path_is_dir_fs_step [OF 4] by (rule fs_step_trans)
  show ?case using Cons.prems 1 2 3 4 s1 s2 s3 s4
    by (auto split: sum.splits if_splits bool.splits)
qed

lemma create_dir_all_fs_step: "create_dir_all p w = (r, w') \<Longrightarrow> fs_step w w'"
  unfolding create_dir_all_def by (rule create_dir_all_rev_fs_step)

lemma tempfile_drop_fs_step: "fs_step w (tempfile_drop tf p w)"
  unfolding tempfile_drop_def using syscall_fs_step by (metis prod.collapse)

lemma tempfile_chmod_fs_step: "tempfile_chmod q m w = (r, w') \<Longrightarrow> fs_step w w'"
proof -
  obtain r1 w1 where 1: "fs_fstat q w = (r1, w1)" by fastforce
  obtain r2 w2 where 2: "fs_fchmod q m w1 = (r2, w2)" by fastforce
  have s: "fs_step w w1" "fs_step w w2"
    using syscall_fs_step [OF 1 [unfolded fs_fstat_def]] syscall_fs_step [OF 2 [unfolded fs_fchmod_def]]
      fs_step_trans by blast+
  show "tempfile_chmod q m w = (r, w') \<Longrightarrow> fs_step w w'"
    using 1 2 s by (auto simp: tempfile_chmod_def split: sum.splits)
qed

lemma write_via_tempfile_fs_step: "write_via_tempfile tf d pre md b t w = (r, w') \<Longrightarrow> fs_step w w'"
proof -
  assume a: "write_via_tempfile tf d pre md b t w = (r, w')"
  obtain r1 w1 where 1: "tempfile_in tf d pre ''.tmp'' w = (r1, w1)" by fastforce
  have s1: "fs_step w w1" using syscall_fs_step [OF 1 [unfolded tempfile_in_def]] .
  show "fs_step w w'"
  proof (cases r1)
    case (Inl e)
    then show ?thesis using a 1 s1 by (simp add: write_via_tempfile_def)
  next
    case (Inr h)
    obtain p q where h: "h = (p, q)" by (cases h)
    obtain r2 w2 where 2: "fs_write q b w1 = (r2, w2)" by fastforce
    have s2: "fs_step w w2" using s1 syscall_fs_step [OF 2 [unfolded fs_write_def]] by (rule fs_step_trans)
    obtain r3 w3 where 3: "(case md of None \<Rightarrow> (Inr (), w2) | Some m \<Rightarrow> tempfile_chmod q m w2) = (r3, w3)"
      by fastforce
    have s3: "fs_step w w3"
      using 3 s2 tempfile_chmod_fs_step [of q _ w2 r3 w3] fs_step_trans [OF s2] by (auto split: option.splits)
    obtain r4 w4 where 4: "tempfile_persist tf p t w3 = (r4, w4)" by fastforce
    have s4: "fs_step w w4" using s3 syscall_fs_step [OF 4 [unfolded tempfile_persist_def]] by (rule fs_step_trans)
    note dr = fs_step_trans [OF _ tempfile_drop_fs_step]
    show ?thesis
      using a 1 Inr h 2 3 4 s2 s3 s4 dr [OF s2] dr [OF s3] dr [OF s4]
      by (cases r2; cases r3; cases r4) (auto simp: write_via_tempfile_def)
  qed
qed

lemma backup_local_fs_step: "backup_local ids p b i w = (r, w') \<Longrightarrow> fs_step w w'"
proof -
  assume a: "backup_local ids p b i w = (r, w')"
  obtain r0 w0 where 0: "fs_read p w = (r0, w0)" by fastforce
  obtain c w1 where 1: "compute_conflict_backup_path ids p b i w = (c, w1)" by fastforce
  have s1: "fs_step w w1"
    using 1 0 fs_read_inv [OF 0]
    by (auto simp: compute_conflict_backup_path_def split: sum.splits if_splits option.splits)
  show "fs_step w w'"
  proof (cases c)
    case None
    then show ?thesis using a 1 s1 by (simp add: backup_local_def)
  next
    case (Some bp)
    obtain r2 w2 where 2: "fs_rename p bp w1 = (r2, w2)" by fastforce
    have "fs_step w w2" using s1 syscall_fs_step [OF 2 [unfolded fs_rename_def]] by (rule fs_step_trans)
    then show ?thesis using a 1 2 Some by (auto simp: backup_local_def io_err_def split: sum.splits)
  qed
qed

lemma write_upsert_fs_step: "write_upsert ids tf p b i w = (r, w') \<Longrightarrow> fs_step w w'"
proof -
  assume a: "write_upsert ids tf p b i w = (r, w')"
  obtain r1 w1 where 1: "backup_local ids p b i w = (r1, w1)" by fastforce
  have s1: "fs_step w w1" by (rule backup_local_fs_step [OF 1])
  obtain r2 w2 where 2: "(case path_parent p of
        Some parent \<Rightarrow> io_err (''create_dir_all '' @ display parent) (create_dir_all parent w1)
      | None \<Rightarrow> (Inr (), w1)) = (r2, w2)" by fastforce
  have s2: "fs_step w w2"
    using 2 s1
    by (auto simp: io_err_def split: option.splits sum.splits prod.splits
        dest!: create_dir_all_fs_step intro: fs_step_trans)
  obtain r3 w3 where 3: "write_via_tempfile tf (butlast p) ''.dirhive.'' None b p w2 = (r3, w3)" by fastforce
  have s3: "fs_step w w3" using s2 write_via_tempfile_fs_step [OF 3] by (rule fs_step_trans)
  show "fs_step w w'"
    using a 1 2 3 s1 s2 s3 by (cases r1; cases r2; cases r3) (auto simp: write_upsert_def)
qed

section \<open>The registries after an upsert\<close>

lemma upsert_guarded_node:
  assumes "upsert_guarded pa p hash fmt i n = (r, n')"
  shows "sync n' = sync n" "allow n' = allow n" "peer_node.more n' = peer_node.more n"
    "mono_ms n' = mono_ms n" "sys_time n' = sys_time n"
proof -
  obtain r1 b1 where 1: "ensure_blob_local (pa_ids pa) (pa_blob pa) i hash fmt (blobs n) = (r1, b1)" by fastforce
  have "sync n' = sync n \<and> allow n' = allow n \<and> peer_node.more n' = peer_node.more n
    \<and> mono_ms n' = mono_ms n \<and> sys_time n' = sys_time n"
  proof (cases "\<exists>b. n' = n\<lparr>blobs := b\<rparr>")
    case True
    then show ?thesis by auto
  next
    case False
    then obtain bytes where w: "write_upsert (pa_ids pa) (pa_tempfile pa) p bytes i (n\<lparr>blobs := b1\<rparr>) = (case r of Inl (Inl e) \<Rightarrow> Inl e | _ \<Rightarrow> Inr (), n')"
      using assms 1
      by (auto simp: upsert_guarded_def Let_def split: sum.splits if_splits prod.splits)
    have "fs_step (n\<lparr>blobs := b1\<rparr>) n'" by (rule write_upsert_fs_step [OF w])
    then show ?thesis using fs_step_node [of "n\<lparr>blobs := b1\<rparr>" n'] fs_step_fields [of "n\<lparr>blobs := b1\<rparr>" n'] by simp
  qed
  then show "sync n' = sync n" "allow n' = allow n" "peer_node.more n' = peer_node.more n"
    "mono_ms n' = mono_ms n" "sys_time n' = sys_time n" by auto
qed

text \<open>
  Applied: the path is in \<open>last_written\<close> with the advertised hash and is not pending.  Otherwise
  \<open>last_written\<close> is as before.  In no case is a mark left in \<open>pending_written\<close>.
\<close>

lemma handle_upsert_sync:
  assumes "handle_upsert pa rel hash fmt i root n = (r, n')"
  shows "r = Inr Applied \<Longrightarrow> sync n' = (sync n)\<lparr>
           pending_written := (pending_written (sync n))(path_comps rel := None),
           last_written := (last_written (sync n))(path_comps rel \<mapsto> hash)\<rparr>"
    "r \<noteq> Inr Applied \<Longrightarrow> sync n' = sync n
       \<or> sync n' = (sync n)\<lparr>pending_written := (pending_written (sync n))(path_comps rel := None)\<rparr>"
    "allow n' = allow n" "peer_node.more n' = peer_node.more n" "mono_ms n' = mono_ms n" "sys_time n' = sys_time n"
proof -
  obtain r1 n1 where 1: "resolve_safe_path root rel n = (r1, n1)" by fastforce
  note rs = resolve_safe_path_inv [OF 1]
  note s1 = fs_step_node [OF rs(1)] fs_step_fields [OF rs(1)]
  have "(r = Inr Applied \<longrightarrow> sync n' = (sync n)\<lparr>
           pending_written := (pending_written (sync n))(path_comps rel := None),
           last_written := (last_written (sync n))(path_comps rel \<mapsto> hash)\<rparr>) \<and>
    (r \<noteq> Inr Applied \<longrightarrow> sync n' = sync n
       \<or> sync n' = (sync n)\<lparr>pending_written := (pending_written (sync n))(path_comps rel := None)\<rparr>) \<and>
    allow n' = allow n \<and> peer_node.more n' = peer_node.more n \<and> mono_ms n' = mono_ms n \<and> sys_time n' = sys_time n"
  proof (cases r1)
    case (Inl e)
    then show ?thesis using assms 1 s1 by (auto simp: handle_upsert_def)
  next
    case (Inr p)
    let ?m = "n1\<lparr>sync := guard_new rel hash (sync n1)\<rparr>"
    obtain r2 n2 where 2: "upsert_guarded pa p hash fmt i ?m = (r2, n2)" by fastforce
    note g = upsert_guarded_node [OF 2]
    show ?thesis
    proof (cases r2)
      case (Inl out)
      have no: "out \<noteq> Inr Applied"
        using 2 Inl by (auto simp: upsert_guarded_def Let_def split: sum.splits if_splits prod.splits)
      then show ?thesis using assms 1 2 Inl Inr g s1
        by (auto simp: handle_upsert_def guard_drop_def guard_new_def)
    next
      case (Inr u)
      then show ?thesis using assms 1 2 \<open>r1 = Inr p\<close> g s1
        by (auto simp: handle_upsert_def guard_drop_def guard_new_def Let_def)
    qed
  qed
  then show "r = Inr Applied \<Longrightarrow> sync n' = (sync n)\<lparr>
           pending_written := (pending_written (sync n))(path_comps rel := None),
           last_written := (last_written (sync n))(path_comps rel \<mapsto> hash)\<rparr>"
    "r \<noteq> Inr Applied \<Longrightarrow> sync n' = sync n
       \<or> sync n' = (sync n)\<lparr>pending_written := (pending_written (sync n))(path_comps rel := None)\<rparr>"
    "allow n' = allow n" "peer_node.more n' = peer_node.more n" "mono_ms n' = mono_ms n" "sys_time n' = sys_time n"
    by blast+
qed

section \<open>The file system after an upsert\<close>

text \<open>The blob stages of an upsert that reaches its write.\<close>

lemma upsert_guarded_inv:
  assumes "upsert_guarded pa p hash fmt i n = (r, n')"
  obtains (no_write) "fs n' = fs n" "faults n' = faults n" "r \<noteq> Inr ()"
  | (wrote) b b1 sz rw where "bl_read (pa_blob pa) hash b1 = Inr b" "bl_size (pa_blob pa) hash b1 = Inr sz"
      "sz \<le> MAX_FILE_SIZE" "blobs n' = b1"
      "write_upsert (pa_ids pa) (pa_tempfile pa) p b i (n\<lparr>blobs := b1\<rparr>) = (rw, n')"
      "r = Inr () \<longleftrightarrow> rw = Inr ()"
proof -
  obtain r1 b1 where 1: "ensure_blob_local (pa_ids pa) (pa_blob pa) i hash fmt (blobs n) = (r1, b1)" by fastforce
  consider (a) "\<exists>b. n' = n\<lparr>blobs := b\<rparr>" "r \<noteq> Inr ()"
    | (b) b sz rw where "bl_size (pa_blob pa) hash b1 = Inr sz" "sz \<le> MAX_FILE_SIZE"
        "bl_read (pa_blob pa) hash b1 = Inr b"
        "write_upsert (pa_ids pa) (pa_tempfile pa) p b i (n\<lparr>blobs := b1\<rparr>) = (rw, n')"
        "r = Inr () \<longleftrightarrow> rw = Inr ()"
    using assms 1
    by (fastforce simp: upsert_guarded_def blob_size_def read_blob_bytes_def Let_def ctx_def
        split: sum.splits if_splits prod.splits)
  then show ?thesis
  proof cases
    case a
    then show ?thesis using no_write by auto
  next
    case b
    have "blobs n' = b1" using fs_step_node [OF write_upsert_fs_step [OF b(4)]] by simp
    then show ?thesis using wrote b by metis
  qed
qed

text \<open>The directory and the name of the target of a relative path.\<close>

definition target_dir :: "path \<Rightarrow> str \<Rightarrow> path" where
  "target_dir root rel = root @ butlast (path_comps rel)"

definition target_name :: "str \<Rightarrow> str" where
  "target_name rel = last (path_comps rel)"

lemma target_path: "path_comps rel \<noteq> [] \<Longrightarrow> root @ path_comps rel = target_dir root rel @ [target_name rel]"
  by (simp add: target_dir_def target_name_def)

lemma handle_upsert_fs:
  assumes h: "handle_upsert pa rel hash fmt i root n = (r, n')"
    and wf: "wf_fs (fs n)" and pl: "plain (fs n) root" and api: "peer_api_ok pa"
  defines "bp \<equiv> backup_path (pa_ids pa) (target_dir root rel) (target_name rel) i"
  shows "wf_fs (fs n')"
    "fs n' = fs n \<or> validate_relative_path rel = Inr () \<and> real_dir (fs n) root
       \<and> upsert_frame (pa_ids pa) (target_dir root rel) (target_name rel) i (fs n) (fs n')"
    "r = Inr Applied \<Longrightarrow> \<exists>b. bl_read (pa_blob pa) hash (blobs n') = Inr b \<and> hash_new (pa_blob pa) b = hash
       \<and> length b \<le> MAX_FILE_SIZE \<and> node_at (fs n') (root @ path_comps rel) = Some (File b 384)
       \<and> validate_relative_path rel = Inr ()
       \<and> (\<forall>old m. faults n = [] \<and> node_at (fs n) (root @ path_comps rel) = Some (File old m) \<and> old \<noteq> b \<longrightarrow>
            node_at (fs n') bp = Some (File old m))"
    "r \<noteq> Inr Applied \<Longrightarrow> node_at (fs n) (root @ path_comps rel) = Some (File old m) \<Longrightarrow>
       node_at (fs n') (root @ path_comps rel) = Some (File old m) \<or> node_at (fs n') bp = Some (File old m)"
    "node_at (fs n') bp \<noteq> node_at (fs n) bp \<Longrightarrow> \<exists>old m.
       node_at (fs n) (root @ path_comps rel) = Some (File old m) \<and> node_at (fs n') bp = Some (File old m)"
proof -
  obtain r1 n1 where 1: "resolve_safe_path root rel n = (r1, n1)" by fastforce
  note rs = resolve_safe_path_inv [OF 1]
  let ?t = "root @ path_comps rel"
  let ?d = "target_dir root rel" and ?nm = "target_name rel"
  have "wf_fs (fs n') \<and> (fs n' = fs n \<or> validate_relative_path rel = Inr () \<and> real_dir (fs n) root
       \<and> upsert_frame (pa_ids pa) ?d ?nm i (fs n) (fs n')) \<and>
    (r = Inr Applied \<longrightarrow> (\<exists>b. bl_read (pa_blob pa) hash (blobs n') = Inr b \<and> hash_new (pa_blob pa) b = hash
       \<and> length b \<le> MAX_FILE_SIZE \<and> node_at (fs n') ?t = Some (File b 384) \<and> validate_relative_path rel = Inr ()
       \<and> (\<forall>old m. faults n = [] \<and> node_at (fs n) ?t = Some (File old m) \<and> old \<noteq> b \<longrightarrow>
            node_at (fs n') bp = Some (File old m)))) \<and>
    (r \<noteq> Inr Applied \<longrightarrow> (\<forall>old m. node_at (fs n) ?t = Some (File old m) \<longrightarrow>
       node_at (fs n') ?t = Some (File old m) \<or> node_at (fs n') bp = Some (File old m))) \<and>
    (node_at (fs n') bp \<noteq> node_at (fs n) bp \<longrightarrow> (\<exists>old m.
       node_at (fs n) ?t = Some (File old m) \<and> node_at (fs n') bp = Some (File old m)))"
  proof (cases r1)
    case (Inl e)
    then have "n' = n1" "r \<noteq> Inr Applied" using h 1 by (auto simp: handle_upsert_def)
    then show ?thesis using rs(2) wf by auto
  next
    case (Inr p)
    have v: "validate_relative_path rel = Inr ()" and p: "p = ?t" using rs(3) [OF Inr] by auto
    have rd: "real_dir (fs n) root" "plain (fs n) ?t" using rs(4) [OF Inr wf pl] p by auto
    have te: "?t = ?d @ [?nm]" by (rule target_path [OF rel_path_comps(2) [OF v]])
    let ?m = "n1\<lparr>sync := guard_new rel hash (sync n1)\<rparr>"
    obtain r2 n2 where 2: "upsert_guarded pa p hash fmt i ?m = (r2, n2)" by fastforce
    have app: "r = Inr Applied \<longleftrightarrow> r2 = Inr ()" and n': "fs n' = fs n2" "blobs n' = blobs n2"
    proof -
      have "r2 = Inl out \<Longrightarrow> out \<noteq> Inr Applied" for out
        using 2 by (auto simp: upsert_guarded_def Let_def split: sum.splits if_splits prod.splits)
      then show "r = Inr Applied \<longleftrightarrow> r2 = Inr ()" "fs n' = fs n2" "blobs n' = blobs n2"
        using h 1 2 Inr by (cases r2; auto simp: handle_upsert_def Let_def)+
    qed
    show ?thesis
      using 2
    proof (cases rule: upsert_guarded_inv)
      case no_write
      then show ?thesis using n' app rs(2) wf by auto
    next
      case (wrote b b1 sz rw)
      let ?w = "?m\<lparr>blobs := b1\<rparr>"
      have w: "write_upsert (pa_ids pa) (pa_tempfile pa) (?d @ [?nm]) b i ?w = (rw, n2)"
        using wrote(5) p te by simp
      have fw: "fs ?w = fs n" "faults n = [] \<longrightarrow> faults ?w = []"
        using rs(2) fs_step_quiet [OF rs(1)] by simp_all
      note wp = write_upsert_post [OF w _ _ peer_api_okD(4) [OF api] peer_api_okD(1) [OF api], unfolded fw(1),
          OF wf rd(2) [unfolded te]]
      have hb: "hash_new (pa_blob pa) b = hash" "length b \<le> MAX_FILE_SIZE"
        using peer_api_okD(2) [OF api] wrote(1-3) unfolding blob_ok_def by metis+
      have c: "wf_fs (fs n')" "upsert_frame (pa_ids pa) ?d ?nm i (fs n) (fs n')"
        using wp(2,3) n'(1) by simp_all
      have a: "\<exists>b. bl_read (pa_blob pa) hash (blobs n') = Inr b \<and> hash_new (pa_blob pa) b = hash
           \<and> length b \<le> MAX_FILE_SIZE \<and> node_at (fs n') ?t = Some (File b 384) \<and> validate_relative_path rel = Inr ()
           \<and> (\<forall>old m. faults n = [] \<and> node_at (fs n) ?t = Some (File old m) \<and> old \<noteq> b \<longrightarrow>
                node_at (fs n') bp = Some (File old m))" if ap: "r = Inr Applied"
      proof (intro exI [of _ b] conjI allI impI)
        have rw: "rw = Inr ()" using ap app wrote(6) by simp
        show "bl_read (pa_blob pa) hash (blobs n') = Inr b" using wrote(1,4) n'(2) by simp
        show "node_at (fs n') ?t = Some (File b 384)" using wp(4) rw n'(1) te by simp
        show "node_at (fs n') bp = Some (File old m)"
          if "faults n = [] \<and> node_at (fs n) ?t = Some (File old m) \<and> old \<noteq> b" for old m
          using wp(5) [OF rw, of old m] that fw(2) n'(1) te bp_def by simp
      qed (fact hb v)+
      have k: "node_at (fs n') ?t = Some (File old m) \<or> node_at (fs n') bp = Some (File old m)"
        if "r \<noteq> Inr Applied" "node_at (fs n) ?t = Some (File old m)" for old m
        using wp(6) [of old m] that app wrote(6) n'(1) te bp_def by simp
      have l: "\<exists>old m. node_at (fs n) ?t = Some (File old m) \<and> node_at (fs n') bp = Some (File old m)"
        if "node_at (fs n') bp \<noteq> node_at (fs n) bp"
      proof -
        have "node_at (fs n2) (backup_path (pa_ids pa) ?d ?nm i) \<noteq> node_at (fs n) (backup_path (pa_ids pa) ?d ?nm i)"
          using that n'(1) bp_def by simp
        then show ?thesis using wp(7) n'(1) bp_def te by metis
      qed
      show ?thesis
      proof (intro conjI impI allI)
        show "fs n' = fs n \<or> validate_relative_path rel = Inr () \<and> real_dir (fs n) root
            \<and> upsert_frame (pa_ids pa) ?d ?nm i (fs n) (fs n')" using c(2) v rd(1) by simp
        show "\<exists>old m. node_at (fs n) ?t = Some (File old m) \<and> node_at (fs n') bp = Some (File old m)"
          if "node_at (fs n') bp \<noteq> node_at (fs n) bp" by (rule l [OF that])
      qed (fact c(1) | erule a | erule (1) k)+
    qed
  qed
  then show "wf_fs (fs n')"
    "fs n' = fs n \<or> validate_relative_path rel = Inr () \<and> real_dir (fs n) root
       \<and> upsert_frame (pa_ids pa) (target_dir root rel) (target_name rel) i (fs n) (fs n')"
    "r = Inr Applied \<Longrightarrow> \<exists>b. bl_read (pa_blob pa) hash (blobs n') = Inr b \<and> hash_new (pa_blob pa) b = hash
       \<and> length b \<le> MAX_FILE_SIZE \<and> node_at (fs n') ?t = Some (File b 384) \<and> validate_relative_path rel = Inr ()
       \<and> (\<forall>old m. faults n = [] \<and> node_at (fs n) ?t = Some (File old m) \<and> old \<noteq> b \<longrightarrow>
            node_at (fs n') bp = Some (File old m))"
    "r \<noteq> Inr Applied \<Longrightarrow> node_at (fs n) ?t = Some (File old m) \<Longrightarrow>
       node_at (fs n') ?t = Some (File old m) \<or> node_at (fs n') bp = Some (File old m)"
    "node_at (fs n') bp \<noteq> node_at (fs n) bp \<Longrightarrow> \<exists>old m.
       node_at (fs n) ?t = Some (File old m) \<and> node_at (fs n') bp = Some (File old m)"
    by blast+
qed

text \<open>Nothing outside the watched directory changes.\<close>

lemma upsert_frame_outside:
  assumes "upsert_frame ids (target_dir root rel) nm i f f'" "real_dir f root" "wf_fs f"
    and "path_comps rel \<noteq> []" "\<not> strict_prefix root q"
  shows "node_at f' q = node_at f q"
proof -
  let ?d = "target_dir root rel"
  have pd: "prefix root ?d" by (simp add: target_dir_def)
  have ne: "q \<noteq> ?d @ [x]" for x
    using assms(5) pd by (auto simp: strict_prefix_def prefix_def)
  show ?thesis
  proof (cases "node_at f' q = node_at f q")
    case False
    then have q: "node_at f q = None" "prefix q ?d"
      using assms(1) ne unfolding upsert_frame_def by blast+
    have "prefix q root \<or> prefix root q"
      using prefix_same_cases [OF q(2) pd] by blast
    then have "prefix q root" using assms(5) by (auto simp: strict_prefix_def)
    then obtain z where z: "root = q @ z" by (auto simp: prefix_def)
    then have "node_at f q \<noteq> None"
      using wf_fs_prefix_dir [OF assms(3), of q z] assms(2)
      by (cases "z = []") (auto simp: real_dir_def dir_at_def)
    then show ?thesis using q(1) by simp
  qed
qed

lemma handle_upsert_outside:
  assumes "handle_upsert pa rel hash fmt i root n = (r, n')"
    and "wf_fs (fs n)" "plain (fs n) root" "peer_api_ok pa" "\<not> strict_prefix root q"
  shows "node_at (fs n') q = node_at (fs n) q"
  using handle_upsert_fs(2) [OF assms(1-4)] upsert_frame_outside [OF _ _ assms(2) _ assms(5)] rel_path_comps(2)
  by metis

section \<open>Tombstones\<close>

lemma handle_tombstone_inv:
  assumes h: "handle_tombstone rel root n = (r, n')" and wf: "wf_fs (fs n)" and pl: "plain (fs n) root"
  obtains
    (unsafe) "r = Inr (Skipped ''unsafe_path'')" "fs_step n n'" "fs n' = fs n"
  | (removed) nd where "r = Inr Applied" "validate_relative_path rel = Inr ()"
      "node_at (fs n) (root @ path_comps rel) = Some nd" "\<not> is_dir nd"
      "fs n' = AList.delete (root @ path_comps rel) (fs n)"
      "sync n' = (sync n)\<lparr>last_removed := insert (path_comps rel) (last_removed (sync n))\<rparr>"
  | (gone) "r = Inr Applied" "validate_relative_path rel = Inr ()"
      "node_at (fs n) (root @ path_comps rel) = None" "fs n' = fs n"
      "sync n' = (sync n)\<lparr>last_removed := last_removed (sync n) - {path_comps rel}\<rparr>"
  | (failed) e where "r = Inl e" "fs n' = fs n"
      "sync n' = (sync n)\<lparr>last_removed := last_removed (sync n) - {path_comps rel}\<rparr>"
proof -
  obtain r1 n1 where 1: "resolve_safe_path root rel n = (r1, n1)" by fastforce
  note rs = resolve_safe_path_inv [OF 1]
  show ?thesis
  proof (cases r1)
    case (Inl e)
    then show ?thesis using h 1 rs(1,2) unsafe by (auto simp: handle_tombstone_def)
  next
    case (Inr p)
    have v: "validate_relative_path rel = Inr ()" and p: "p = root @ path_comps rel" using rs(3) [OF Inr] by auto
    let ?m = "n1\<lparr>sync := (sync n1)\<lparr>last_removed := insert (path_comps rel) (last_removed (sync n1))\<rparr>\<rparr>"
    have plp: "plain (fs ?m) p" "wf_fs (fs ?m)" using rs(4) [OF Inr wf pl] rs(2) wf by auto
    obtain r2 n2 where 2: "remove_file p ?m = (r2, n2)" by fastforce
    note rf = remove_file_inv [OF 2 plp(2,1)]
    note sn = fs_step_node [of ?m n2] fs_step_node [OF rs(1)]
    have nn: "sync n2 = (sync n)\<lparr>last_removed := insert (path_comps rel) (last_removed (sync n))\<rparr>"
      using sn rf by simp
    have dd: "insert (path_comps rel) S - {path_comps rel} = S - {path_comps rel}" for S by blast
    show ?thesis
    proof (cases r2)
      case r2: (Inr u)
      then obtain nd where "node_at (fs n) p = Some nd" "\<not> is_dir nd" "fs n2 = AList.delete p (fs n)"
        using rf rs(2) by auto
      moreover have "r = Inr Applied" "n' = n2"
        using h 1 2 Inr r2 by (auto simp: handle_tombstone_def Let_def)
      ultimately show ?thesis using removed v p nn by auto
    next
      case r2: (Inl e)
      then have f2: "fs n2 = fs n" "e = NotFound \<longrightarrow> node_at (fs n) p = None"
        using rf rs(2) by auto
      have n': "n' = n2\<lparr>sync := (sync n2)\<lparr>last_removed := last_removed (sync n2) - {path_comps rel}\<rparr>\<rparr>"
        and r: "r = (if e = NotFound then Inr Applied else Inl (Ctx (''remove_file '' @ display p) (Io e)))"
        using h 1 2 Inr r2 by (auto simp: handle_tombstone_def Let_def split: if_splits)
      have "sync n' = (sync n)\<lparr>last_removed := last_removed (sync n) - {path_comps rel}\<rparr>"
        using n' nn dd by simp
      then show ?thesis using gone failed f2 n' r v p by (cases "e = NotFound") auto
    qed
  qed
qed

lemma handle_tombstone_node:
  assumes "handle_tombstone rel root n = (r, n')"
  shows "allow n' = allow n" "peer_node.more n' = peer_node.more n" "blobs n' = blobs n"
    "mono_ms n' = mono_ms n" "sys_time n' = sys_time n"
proof -
  obtain r1 n1 where 1: "resolve_safe_path root rel n = (r1, n1)" by fastforce
  note rs = resolve_safe_path_inv(1) [OF 1]
  have "allow n' = allow n \<and> peer_node.more n' = peer_node.more n \<and> blobs n' = blobs n
    \<and> mono_ms n' = mono_ms n \<and> sys_time n' = sys_time n"
  proof (cases r1)
    case (Inl e)
    then show ?thesis using assms 1 fs_step_node [OF rs] fs_step_fields [OF rs] by (auto simp: handle_tombstone_def)
  next
    case (Inr p)
    let ?m = "n1\<lparr>sync := (sync n1)\<lparr>last_removed := insert (path_comps rel) (last_removed (sync n1))\<rparr>\<rparr>"
    obtain r2 n2 where 2: "remove_file p ?m = (r2, n2)" by fastforce
    have s2: "fs_step ?m n2" using syscall_fs_step [OF 2 [unfolded remove_file_def]] .
    have n': "\<exists>s. n' = n2\<lparr>sync := s\<rparr>"
    proof (cases r2)
      case (Inl e)
      then show ?thesis using assms 1 2 Inr by (auto simp: handle_tombstone_def Let_def split: if_splits)
    next
      case (Inr u)
      then have "n' = n2\<lparr>sync := sync n2\<rparr>" using assms 1 2 \<open>r1 = Inr p\<close> by (simp add: handle_tombstone_def Let_def)
      then show ?thesis by blast
    qed
    then show ?thesis
      using fs_step_node [OF rs] fs_step_fields [OF rs] fs_step_node [OF s2] fs_step_fields [OF s2] by auto
  qed
  then show "allow n' = allow n" "peer_node.more n' = peer_node.more n" "blobs n' = blobs n"
    "mono_ms n' = mono_ms n" "sys_time n' = sys_time n" by auto
qed

lemma handle_tombstone_fs:
  assumes "handle_tombstone rel root n = (r, n')" "wf_fs (fs n)" "plain (fs n) root"
  shows "wf_fs (fs n')" "q \<noteq> root @ path_comps rel \<Longrightarrow> node_at (fs n') q = node_at (fs n) q"
    "r = Inr Applied \<Longrightarrow> node_at (fs n') (root @ path_comps rel) = None"
    "\<not> strict_prefix root q \<Longrightarrow> node_at (fs n') q = node_at (fs n) q"
proof -
  have "wf_fs (fs n') \<and> (\<forall>q. q \<noteq> root @ path_comps rel \<longrightarrow> node_at (fs n') q = node_at (fs n) q)
     \<and> (r = Inr Applied \<longrightarrow> node_at (fs n') (root @ path_comps rel) = None)
     \<and> (\<forall>q. \<not> strict_prefix root q \<longrightarrow> node_at (fs n') q = node_at (fs n) q)"
    using assms
  proof (cases rule: handle_tombstone_inv)
    case (removed nd)
    have ne: "path_comps rel \<noteq> []" by (rule rel_path_comps(2) [OF removed(2)])
    then have "wf_fs (fs n')" using removed assms(2) wf_fs_delete [of "fs n" "root @ path_comps rel"]
      by (auto simp: dir_at_def is_dir_iff)
    moreover have "strict_prefix root (root @ path_comps rel)" using ne by (simp add: strict_prefix_def)
    ultimately show ?thesis using removed ne by auto
  qed (use assms(2) in auto)
  then show "wf_fs (fs n')" "q \<noteq> root @ path_comps rel \<Longrightarrow> node_at (fs n') q = node_at (fs n) q"
    "r = Inr Applied \<Longrightarrow> node_at (fs n') (root @ path_comps rel) = None"
    "\<not> strict_prefix root q \<Longrightarrow> node_at (fs n') q = node_at (fs n) q" by auto
qed

section \<open>Dispatch\<close>

text \<open>An update that is malformed or not from an allowed peer has no effect at all.\<close>

lemma dispatch_rejects:
  "from_bytes (pa_codec pa) payload = Inl e \<Longrightarrow>
     dispatch_update pa payload root pt cb n = (Inr (Skipped ''invalid_wire_format''), n)"
  "from_bytes (pa_codec pa) payload = Inr u \<Longrightarrow> \<not> al_contains (allow n) (peer_id (su_from u)) \<Longrightarrow>
     dispatch_update pa payload root pt cb n = (Inr (Skipped ''peer_not_allowed''), n)"
  by (simp_all add: dispatch_update_def Let_def)

text \<open>The log entry of an applied update goes below the pending directory.\<close>

definition pending_dir :: "pending_tracker \<Rightarrow> path" where
  "pending_dir pt = path_join (pt_pending_root pt) (pt_repo_hash pt)"

lemma record_receive_logged_post:
  assumes "wf_fs (fs w)" "dir_path (fs w) (pending_dir pt)" "peer_api_ok pa"
    and "\<forall>c\<in>set (pe_source_peer e). is_ascii_hexdigit c"
  defines "w' \<equiv> record_receive_logged pa pt e w"
  shows "fs_step w w'" "wf_fs (fs w')"
    "\<not> prefix q (pending_dir pt) \<Longrightarrow> butlast q \<noteq> pending_dir pt \<Longrightarrow> node_at (fs w') q = node_at (fs w) q"
proof -
  obtain r w1 where 1: "record_receive (pa_pending pa) (pa_tempfile pa) (pt_pending_root pt) (pt_repo_hash pt) e w = (r, w1)"
    by fastforce
  have e: "w' = w1" using 1 by (simp add: w'_def record_receive_logged_def)
  note p = record_receive_post [OF 1 assms(1) assms(2) [unfolded pending_dir_def] peer_api_okD(4) [OF assms(3)] assms(4)]
  show "fs_step w w'" "wf_fs (fs w')" using p(1,2) e by simp_all
  show "node_at (fs w') q = node_at (fs w) q" if "\<not> prefix q (pending_dir pt)" "butlast q \<noteq> pending_dir pt"
    using p(3) that e by (auto simp: pending_dir_def)
qed

lemma record_receive_logged_fs_step: "fs_step w (record_receive_logged pa pt e w)"
proof -
  obtain r w1 where 1: "record_receive (pa_pending pa) (pa_tempfile pa) (pt_pending_root pt) (pt_repo_hash pt) e w = (r, w1)"
    by fastforce
  let ?d = "path_join (pt_pending_root pt) (pt_repo_hash pt)"
  obtain r2 w2 where 2: "create_dir_all ?d w = (r2, w2)" by fastforce
  have s2: "fs_step w w2" by (rule create_dir_all_fs_step [OF 2])
  have "fs_step w w1"
  proof (cases "w1 = w2")
    case False
    then obtain b t r3 where "write_via_tempfile (pa_tempfile pa) ?d ''.pending.'' None b t w2 = (r3, w1)"
      using 1 2 by (auto simp: record_receive_def Let_def and_then_def io_err_def split: sum.splits prod.splits)
    then show ?thesis using s2 write_via_tempfile_fs_step fs_step_trans by blast
  qed (use s2 in simp)
  then show ?thesis using 1 by (simp add: record_receive_logged_def)
qed

lemma call_seen_node [simp]:
  "fs (call_seen cb i t n) = fs n" "sync (call_seen cb i t n) = sync n" "allow (call_seen cb i t n) = allow n"
  "blobs (call_seen cb i t n) = blobs n" "mono_ms (call_seen cb i t n) = mono_ms n"
  "sys_time (call_seen cb i t n) = sys_time n" "faults (call_seen cb i t n) = faults n" "umask (call_seen cb i t n) = umask n"
  "peer_node.more (call_seen cb i t n) = (case cb of None \<Rightarrow> peer_node.more n | Some f \<Rightarrow> f i t (peer_node.more n))"
  by (simp_all add: call_seen_def split: option.splits)

text \<open>A dispatch that is not a rejection is the handler followed, when applied, by log and callback.\<close>

lemma dispatch_upsert_eq:
  assumes "from_bytes (pa_codec pa) payload = Inr u" "su_body u = Upsert path hash fmt fr"
    and "al_contains (allow n) (peer_id fr)" "handle_upsert pa path hash fmt (peer_id fr) root n = (r, n1)"
  shows "dispatch_update pa payload root pt cb n =
     (r, if r = Inr Applied then call_seen cb (peer_id fr) (epoch_secs n) (record_receive_logged pa pt (upsert_entry pa path hash fr (epoch_secs n) (blobs n1)) n1) else n1)"
proof -
  have "su_from u = fr" using assms(2) by (simp add: su_from_def)
  then show ?thesis
    using assms by (cases r) (auto simp: dispatch_update_def Let_def)
qed

lemma dispatch_tombstone_eq:
  assumes "from_bytes (pa_codec pa) payload = Inr u" "su_body u = Tombstone path fr"
    and "al_contains (allow n) (peer_id fr)" "handle_tombstone path root n = (r, n1)"
  shows "dispatch_update pa payload root pt cb n =
     (r, if r = Inr Applied then call_seen cb (peer_id fr) (epoch_secs n) (record_receive_logged pa pt (tombstone_entry pa path fr (epoch_secs n)) n1) else n1)"
proof -
  have "su_from u = fr" using assms(2) by (simp add: su_from_def)
  then show ?thesis
    using assms by (cases r) (auto simp: dispatch_update_def Let_def)
qed

text \<open>
  Every dispatch is a rejection or one of the two; what holds of both handlers and survives the log
  holds of the dispatch.
\<close>

lemma dispatch_cases:
  assumes "dispatch_update pa payload root pt cb n = (r, n')"
  obtains (rejected) s where "r = Inr (Skipped s)" "n' = n"
  | (upsert) u path hash fmt fr n1 where "from_bytes (pa_codec pa) payload = Inr u"
      "su_body u = Upsert path hash fmt fr" "al_contains (allow n) (peer_id fr)"
      "handle_upsert pa path hash fmt (peer_id fr) root n = (r, n1)"
      "n' = (if r = Inr Applied then call_seen cb (peer_id fr) (epoch_secs n) (record_receive_logged pa pt (upsert_entry pa path hash fr (epoch_secs n) (blobs n1)) n1) else n1)"
  | (tombstone) u path fr n1 where "from_bytes (pa_codec pa) payload = Inr u"
      "su_body u = Tombstone path fr" "al_contains (allow n) (peer_id fr)"
      "handle_tombstone path root n = (r, n1)"
      "n' = (if r = Inr Applied then call_seen cb (peer_id fr) (epoch_secs n) (record_receive_logged pa pt (tombstone_entry pa path fr (epoch_secs n)) n1) else n1)"
proof (cases "from_bytes (pa_codec pa) payload")
  case (Inl e)
  then have "r = Inr (Skipped ''invalid_wire_format'')" "n' = n"
    using assms dispatch_rejects(1) [OF Inl, of root pt cb n] by simp_all
  then show ?thesis by (rule rejected)
next
  case (Inr u)
  show ?thesis
  proof (cases "al_contains (allow n) (peer_id (su_from u))")
    case False
    then have "r = Inr (Skipped ''peer_not_allowed'')" "n' = n"
      using assms dispatch_rejects(2) [OF Inr False, of root pt cb] by simp_all
    then show ?thesis by (rule rejected)
  next
    case True
    show ?thesis
    proof (cases "su_body u")
      case (Upsert path hash fmt fr)
      obtain r1 n1 where 1: "handle_upsert pa path hash fmt (peer_id fr) root n = (r1, n1)" by fastforce
      have al: "al_contains (allow n) (peer_id fr)" using True Upsert by (simp add: su_from_def)
      have "r1 = r" "n' = (if r = Inr Applied then call_seen cb (peer_id fr) (epoch_secs n)
          (record_receive_logged pa pt (upsert_entry pa path hash fr (epoch_secs n) (blobs n1)) n1) else n1)"
        using dispatch_upsert_eq [OF Inr Upsert al 1, of pt cb] assms by auto
      then show ?thesis using upsert [OF Inr Upsert al] 1 by simp
    next
      case (Tombstone path fr)
      obtain r1 n1 where 1: "handle_tombstone path root n = (r1, n1)" by fastforce
      have al: "al_contains (allow n) (peer_id fr)" using True Tombstone by (simp add: su_from_def)
      have "r1 = r" "n' = (if r = Inr Applied then call_seen cb (peer_id fr) (epoch_secs n)
          (record_receive_logged pa pt (tombstone_entry pa path fr (epoch_secs n)) n1) else n1)"
        using dispatch_tombstone_eq [OF Inr Tombstone al 1, of pt cb] assms by auto
      then show ?thesis using tombstone [OF Inr Tombstone al] 1 by simp
    qed
  qed
qed

section \<open>Invariants of the receiving side\<close>

text \<open>
  The watched directory is a real directory and the pending log can be made; the two trees are
  disjoint.
\<close>

definition watch_inv :: "path \<Rightarrow> pending_tracker \<Rightarrow> fs \<Rightarrow> bool" where
  "watch_inv root pt f \<longleftrightarrow> wf_fs f \<and> real_dir f root \<and> dir_path f (pending_dir pt)"

definition disjoint_dirs :: "path \<Rightarrow> path \<Rightarrow> bool" where
  "disjoint_dirs p q \<longleftrightarrow> \<not> prefix p q \<and> \<not> prefix q p"

lemma watch_invD:
  "watch_inv root pt f \<Longrightarrow> wf_fs f" "watch_inv root pt f \<Longrightarrow> real_dir f root"
  "watch_inv root pt f \<Longrightarrow> dir_path f (pending_dir pt)" "watch_inv root pt f \<Longrightarrow> plain f root"
  using real_dir_plain by (auto simp: watch_inv_def)

lemma watch_inv_keep:
  assumes "watch_inv root pt f" "wf_fs f'" "disjoint_dirs root (pending_dir pt)"
    and "\<And>q. \<not> strict_prefix root q \<Longrightarrow> node_at f' q = node_at f q"
  shows "watch_inv root pt f'"
proof -
  have "node_at f' q = node_at f q" if "prefix q (pending_dir pt)" for q
  proof -
    have "\<not> strict_prefix root q"
      using assms(3) that prefix_order.trans [of root q "pending_dir pt"]
      by (auto simp: disjoint_dirs_def strict_prefix_def)
    then show ?thesis by (rule assms(4))
  qed
  moreover have "node_at f' root = node_at f root" by (rule assms(4)) simp
  ultimately show ?thesis using assms(1,2) by (auto simp: watch_inv_def real_dir_def dir_path_def dir_at_def)
qed

lemma watch_inv_log:
  assumes i: "watch_inv root pt (fs w)" and dj: "disjoint_dirs root (pending_dir pt)" and ok: "peer_api_ok pa"
    and hex: "\<forall>c\<in>set (pe_source_peer e). is_ascii_hexdigit c"
  shows "watch_inv root pt (fs (record_receive_logged pa pt e w))"
proof -
  let ?w = "record_receive_logged pa pt e w" and ?d = "pending_dir pt"
  obtain r w1 where 1: "record_receive (pa_pending pa) (pa_tempfile pa) (pt_pending_root pt) (pt_repo_hash pt) e w = (r, w1)"
    by fastforce
  have e: "?w = w1" using 1 by (simp add: record_receive_logged_def)
  note p = record_receive_post [OF 1 watch_invD(1) [OF i] watch_invD(3) [OF i, unfolded pending_dir_def]
      peer_api_okD(4) [OF ok] hex]
  have fr: "node_at (fs w1) q = node_at (fs w) q \<or> (node_at (fs w) q = None \<and> prefix q ?d \<and> dir_at (fs w1) q)
       \<or> butlast q = ?d" for q
    using p(3) by (simp add: pending_dir_def)
  have nb: "butlast q \<noteq> ?d" if "q \<noteq> [] \<and> prefix q ?d" for q
    using that not_prefix_butlast [of q] by auto
  have "real_dir (fs w1) root"
  proof -
    obtain m where m: "node_at (fs w) root = Some (Dir m)"
      using watch_invD(2) [OF i] by (auto simp: real_dir_def dir_at_def)
    have "butlast root \<noteq> ?d" using dj prefixeq_butlast [of root] by (auto simp: disjoint_dirs_def)
    then have "node_at (fs w1) root = Some (Dir m)" using fr [of root] m by auto
    then show ?thesis using watch_invD(2) [OF i] by (auto simp: real_dir_def dir_at_def)
  qed
  moreover have "dir_path (fs w1) ?d"
    unfolding dir_path_def
  proof (intro conjI allI impI)
    show "\<forall>c\<in>set ?d. normal c" using watch_invD(3) [OF i] by (simp add: dir_path_def)
    fix q assume q: "prefix q ?d" "node_at (fs w1) q \<noteq> None"
    show "dir_at (fs w1) q"
    proof (cases "q = []")
      case False
      then have "node_at (fs w1) q = node_at (fs w) q \<or> dir_at (fs w1) q" using fr [of q] nb [of q] q(1) by blast
      then show ?thesis
      proof
        assume same: "node_at (fs w1) q = node_at (fs w) q"
        then have "dir_at (fs w) q" using watch_invD(3) [OF i] q by (simp add: dir_path_def)
        then show ?thesis using same by (simp add: dir_at_def)
      qed
    qed simp
  qed
  ultimately show ?thesis using p(2) e by (simp add: watch_inv_def)
qed

lemma call_seen_if [simp]: "fs (if c then call_seen cb i t n else m) = (if c then fs n else fs m)"
  by simp

lemma id_hex: "peer_api_ok pa \<Longrightarrow> \<forall>c\<in>set (id_to_string (pa_ids pa) i). is_ascii_hexdigit c"
  by (simp add: peer_api_ok_def id_ok_def)

lemma entry_fields [simp]:
  "pe_source_peer (upsert_entry pa path hash fr t b) = id_to_string (pa_ids pa) (peer_id fr)"
  "pe_source_peer (tombstone_entry pa path fr t) = id_to_string (pa_ids pa) (peer_id fr)"
  by (simp_all add: upsert_entry_def tombstone_entry_def Let_def)

text \<open>
  A dispatch keeps the invariant, and changes nothing outside the watched directory and the
  pending log.
\<close>

lemma dispatch_fs:
  assumes d: "dispatch_update pa payload root pt cb n = (r, n')"
    and i: "watch_inv root pt (fs n)" and dj: "disjoint_dirs root (pending_dir pt)" and ok: "peer_api_ok pa"
  shows "watch_inv root pt (fs n')"
    "\<not> strict_prefix root q \<Longrightarrow> \<not> prefix q (pending_dir pt) \<Longrightarrow> butlast q \<noteq> pending_dir pt \<Longrightarrow>
       node_at (fs n') q = node_at (fs n) q"
proof -
  have main: "watch_inv root pt (fs n') \<and>
    (\<forall>q. \<not> strict_prefix root q \<longrightarrow> \<not> prefix q (pending_dir pt) \<longrightarrow> butlast q \<noteq> pending_dir pt \<longrightarrow>
       node_at (fs n') q = node_at (fs n) q)"
    using d
  proof (cases rule: dispatch_cases)
    case (rejected s)
    then show ?thesis using i by simp
  next
    case (upsert u path hash fmt fr n1)
    have o: "node_at (fs n1) q = node_at (fs n) q" if "\<not> strict_prefix root q" for q
      by (rule handle_upsert_outside [OF upsert(4) watch_invD(1,4) [OF i] ok that])
    have i1: "watch_inv root pt (fs n1)"
      by (rule watch_inv_keep [OF i handle_upsert_fs(1) [OF upsert(4) watch_invD(1,4) [OF i] ok] dj o])
    let ?e = "upsert_entry pa path hash fr (epoch_secs n) (blobs n1)"
    have hx: "\<forall>c\<in>set (pe_source_peer ?e). is_ascii_hexdigit c" using id_hex [OF ok] by simp
    show ?thesis
      using upsert(5) o i1 watch_inv_log [OF i1 dj ok hx]
        record_receive_logged_post(3) [OF watch_invD(1,3) [OF i1] ok hx] by auto
  next
    case (tombstone u path fr n1)
    have o: "node_at (fs n1) q = node_at (fs n) q" if "\<not> strict_prefix root q" for q
      by (rule handle_tombstone_fs(4) [OF tombstone(4) watch_invD(1,4) [OF i] that])
    have i1: "watch_inv root pt (fs n1)"
      by (rule watch_inv_keep [OF i handle_tombstone_fs(1) [OF tombstone(4) watch_invD(1,4) [OF i]] dj o])
    let ?e = "tombstone_entry pa path fr (epoch_secs n)"
    have hx: "\<forall>c\<in>set (pe_source_peer ?e). is_ascii_hexdigit c" using id_hex [OF ok] by simp
    show ?thesis
      using tombstone(5) o i1 watch_inv_log [OF i1 dj ok hx]
        record_receive_logged_post(3) [OF watch_invD(1,3) [OF i1] ok hx] by auto
  qed
  show "watch_inv root pt (fs n')" using main by blast
  show "\<not> strict_prefix root q \<Longrightarrow> \<not> prefix q (pending_dir pt) \<Longrightarrow> butlast q \<noteq> pending_dir pt \<Longrightarrow>
       node_at (fs n') q = node_at (fs n) q" using main by blast
qed

text \<open>An applied upsert leaves exactly the advertised content at its path.\<close>

text \<open>What the log writes does not reach the watched directory.\<close>

lemma log_keeps_target:
  assumes "watch_inv root pt (fs w)" "disjoint_dirs root (pending_dir pt)" "peer_api_ok pa"
    and "\<forall>c\<in>set (pe_source_peer e). is_ascii_hexdigit c" "prefix root q" "q \<noteq> root"
  shows "node_at (fs (record_receive_logged pa pt e w)) q = node_at (fs w) q"
proof (rule record_receive_logged_post(3) [OF watch_invD(1,3) [OF assms(1)] assms(3,4)])
  obtain c r where q: "q = root @ c # r" using assms(5,6) by (metis append_Nil2 list.exhaust prefix_def)
  show "\<not> prefix q (pending_dir pt)" using assms(2) q unfolding disjoint_dirs_def by (meson append_prefixD)
  have "prefix root (butlast q)" using q by (simp add: butlast_append)
  then show "butlast q \<noteq> pending_dir pt" using assms(2) by (auto simp: disjoint_dirs_def)
qed

lemma dispatch_upsert_applied:
  assumes d: "dispatch_update pa payload root pt cb n = (Inr Applied, n')"
    and u: "from_bytes (pa_codec pa) payload = Inr u" "su_body u = Upsert path hash fmt fr"
    and i: "watch_inv root pt (fs n)" and dj: "disjoint_dirs root (pending_dir pt)" and ok: "peer_api_ok pa"
  shows "al_contains (allow n) (peer_id fr) \<and> last_written (sync n') (path_comps path) = Some hash
    \<and> (\<exists>b. hash_new (pa_blob pa) b = hash \<and> length b \<le> MAX_FILE_SIZE
         \<and> node_at (fs n') (root @ path_comps path) = Some (File b 384))"
  using d
proof (cases rule: dispatch_cases)
  case (upsert u' path' hash' fmt' fr' n1)
  then have eq: "u' = u" "path' = path" "hash' = hash" "fr' = fr" using u by auto
  note up = upsert(4) [unfolded eq]
  obtain b where b: "hash_new (pa_blob pa) b = hash" "length b \<le> MAX_FILE_SIZE"
      "node_at (fs n1) (root @ path_comps path) = Some (File b 384)" "validate_relative_path path = Inr ()"
    using handle_upsert_fs(3) [OF up watch_invD(1,4) [OF i] ok] by auto
  have o: "node_at (fs n1) q = node_at (fs n) q" if "\<not> strict_prefix root q" for q
    by (rule handle_upsert_outside [OF up watch_invD(1,4) [OF i] ok that])
  have i1: "watch_inv root pt (fs n1)"
    by (rule watch_inv_keep [OF i handle_upsert_fs(1) [OF up watch_invD(1,4) [OF i] ok] dj o])
  let ?e = "upsert_entry pa path hash fr (epoch_secs n) (blobs n1)"
  have hx: "\<forall>c\<in>set (pe_source_peer ?e). is_ascii_hexdigit c" using id_hex [OF ok] by simp
  have ne: "path_comps path \<noteq> []" by (rule rel_path_comps(2) [OF b(4)])
  have "node_at (fs n') (root @ path_comps path) = Some (File b 384)"
    using log_keeps_target [OF i1 dj ok hx, of "root @ path_comps path"] ne b(3) upsert(5) eq by simp
  moreover have "last_written (sync n') (path_comps path) = Some hash"
    using handle_upsert_sync(1) [OF up] upsert(5) eq fs_step_node [OF record_receive_logged_fs_step [of n1 pa pt ?e]]
    by simp
  ultimately show ?thesis using upsert(3) eq b(1,2) by auto
qed (use u in auto)

text \<open>The marks of writes in progress never outlive a dispatch.\<close>

lemma dispatch_pending_written:
  assumes d: "dispatch_update pa payload root pt cb n = (r, n')"
  shows "pending_written (sync n') \<subseteq>\<^sub>m pending_written (sync n)" "allow n' = allow n"
proof -
  have "pending_written (sync n') \<subseteq>\<^sub>m pending_written (sync n) \<and> allow n' = allow n"
    using d
  proof (cases rule: dispatch_cases)
    case (rejected s)
    then show ?thesis by simp
  next
    case (upsert u path hash fmt fr n1)
    note sy = handle_upsert_sync [OF upsert(4)]
    have "pending_written (sync n1) \<subseteq>\<^sub>m pending_written (sync n)"
      using sy(1,2) by (cases "r = Inr Applied") (auto simp: map_le_def split: if_splits)
    then show ?thesis using upsert(5) sy(3)
        fs_step_node [OF record_receive_logged_fs_step [of n1 pa pt "upsert_entry pa path hash fr (epoch_secs n) (blobs n1)"]]
      by simp
  next
    case (tombstone u path fr n1)
    have "pending_written (sync n1) = pending_written (sync n)"
    proof -
      obtain r1 n2 where 1: "resolve_safe_path root path n = (r1, n2)" by fastforce
      note s1 = fs_step_node [OF resolve_safe_path_inv(1) [OF 1]]
      show ?thesis
      proof (cases r1)
        case (Inl e)
        then show ?thesis using tombstone(4) 1 s1 by (auto simp: handle_tombstone_def)
      next
        case (Inr p)
        let ?m = "n2\<lparr>sync := (sync n2)\<lparr>last_removed := insert (path_comps path) (last_removed (sync n2))\<rparr>\<rparr>"
        obtain r3 n3 where 3: "remove_file p ?m = (r3, n3)" by fastforce
        note s3 = fs_step_node [OF syscall_fs_step [OF 3 [unfolded remove_file_def]]]
        show ?thesis using tombstone(4) 1 3 Inr s1 s3
          by (cases r3) (auto simp: handle_tombstone_def Let_def split: if_splits)
      qed
    qed
    then show ?thesis using tombstone(5) handle_tombstone_node [OF tombstone(4)]
        fs_step_node [OF record_receive_logged_fs_step [of n1 pa pt "tombstone_entry pa path fr (epoch_secs n)"]]
      by simp
  qed
  then show "pending_written (sync n') \<subseteq>\<^sub>m pending_written (sync n)" "allow n' = allow n" by auto
qed

text \<open>The whole loop, over any stream of gossip events.\<close>

lemma more_update_node [simp]:
  "fs (peer_node.more_update f n) = fs n" "sync (peer_node.more_update f n) = sync n"
  "allow (peer_node.more_update f n) = allow n"
  by simp_all

lemma receive_loop_inv:
  assumes "peer_api_ok pa" "disjoint_dirs root (pending_dir pt)"
  shows "watch_inv root pt (fs n) \<Longrightarrow>
     watch_inv root pt (fs (receive_loop pa root pt seen up evs n))
     \<and> (\<forall>q. \<not> strict_prefix root q \<longrightarrow> \<not> prefix q (pending_dir pt) \<longrightarrow> butlast q \<noteq> pending_dir pt \<longrightarrow>
          node_at (fs (receive_loop pa root pt seen up evs n)) q = node_at (fs n) q)
     \<and> pending_written (sync (receive_loop pa root pt seen up evs n)) \<subseteq>\<^sub>m pending_written (sync n)
     \<and> allow (receive_loop pa root pt seen up evs n) = allow n"
proof (induction evs arbitrary: n)
  case (Cons ev evs)
  show ?case
  proof (cases ev)
    case (Received content)
    obtain r n1 where 1: "dispatch_update pa content root pt seen n = (r, n1)" by fastforce
    note f = dispatch_fs [OF 1 Cons.prems assms(2,1)] and p = dispatch_pending_written [OF 1]
    show ?thesis using Cons.IH [OF f(1)] f(2) p 1 Received map_le_trans [OF _ p(1)] by simp
  next
    case (NeighborUp i)
    show ?thesis
    proof (cases up)
      case None
      then show ?thesis using Cons.IH [OF Cons.prems] NeighborUp by simp
    next
      case (Some cb)
      then show ?thesis using Cons.IH [of "peer_node.more_update (cb i) n"] Cons.prems NeighborUp by simp
    qed
  qed (use Cons.IH [OF Cons.prems] in simp_all)
qed simp

end
