(* ===== verification/Watcher.thy ===== *)
theory Watcher
  imports Receive_Laws
begin

text \<open>
  \<open>src/src/watcher.rs\<close>: which file-system events are broadcast.  Events are given as the crate
  notify-debouncer-full delivers them.  The lemmas show that the files the receiving side makes for
  itself (temporary files, conflict backups) are never announced.
\<close>

datatype event_kind = AnyEvent | Access | Create | Modify | Remove | OtherEvent

record debounced_event =
  ev_kind :: event_kind
  ev_paths :: "path list"

datatype watcher_backend = Recommended | Poll

definition DEBOUNCE_DURATION :: nat where
  "DEBOUNCE_DURATION = 200"

definition skippable_name :: "str \<Rightarrow> bool" where
  "skippable_name name \<longleftrightarrow>
     prefix ''.'' name
     \<or> (suffix ''.swp'' name \<or> suffix ''.swx'' name \<or> suffix ''.tmp'' name \<or> suffix ''~'' name)
     \<or> find_sub ''.conflict-local-'' name \<noteq> None"

text \<open>Only \<open>Normal\<close> components that are valid UTF-8 are looked at.\<close>

fun path_is_skippable :: "path \<Rightarrow> bool" where
  "path_is_skippable [] = False"
| "path_is_skippable (c # cs) =
     (if normal c \<and> utf8_valid c \<and> skippable_name c then True else path_is_skippable cs)"

definition strip_path_prefix :: "path \<Rightarrow> path \<Rightarrow> path option" where
  "strip_path_prefix root p = (if prefix root p then Some (drop (length root) p) else None)"

definition should_skip :: "debounced_event \<Rightarrow> bool" where
  "should_skip ev \<longleftrightarrow>
     (if ev_kind ev = Access \<or> ev_kind ev = OtherEvent then True
      else list_ex path_is_skippable (ev_paths ev))"

definition should_skip_under_root :: "debounced_event \<Rightarrow> path \<Rightarrow> bool" where
  "should_skip_under_root ev root \<longleftrightarrow>
     (if ev_kind ev = Access \<or> ev_kind ev = OtherEvent then True
      else list_ex (\<lambda>p. case strip_path_prefix root p of
                          Some rel \<Rightarrow> path_is_skippable rel
                        | None \<Rightarrow> path_is_skippable p) (ev_paths ev))"

text \<open>
  The handler of the debouncer: each result is a batch of events or of errors; what it sends into
  the channel.
\<close>

fun watcher_handler :: "path \<Rightarrow> (str list + debounced_event list) list \<Rightarrow> debounced_event list" where
  "watcher_handler skip_root [] = []"
| "watcher_handler skip_root (Inr events # rest) =
     filter (\<lambda>ev. \<not> should_skip_under_root ev skip_root) events @ watcher_handler skip_root rest"
| "watcher_handler skip_root (Inl errs # rest) = watcher_handler skip_root rest"

text \<open>
  \<open>new_deb\<close> and \<open>watch\<close> are the creation of the debouncer and \<open>Debouncer::watch\<close>; the value is the
  canonical root, with which the handler runs.
\<close>

definition spawn_watcher ::
  "(str + unit) \<Rightarrow> (path \<Rightarrow> str + unit) \<Rightarrow> path \<Rightarrow> watcher_backend \<Rightarrow> 'z world_scheme \<Rightarrow> (err + path) \<times> 'z world_scheme" where
  "spawn_watcher new_deb watch watched_dir backend w =
     (if backend = Poll then
        (Inl (Msg (''WatcherBackend::Poll is not yet implemented (Phase 3 '' @ [CHR 0xE3, CHR 0x81, CHR 0xA7]
           @ [CHR 0xE8, CHR 0xBF, CHR 0xBD, CHR 0xE5, CHR 0x8A, CHR 0xA0, CHR 0xE4, CHR 0xBA, CHR 0x88, CHR 0xE5, CHR 0xAE, CHR 0x9A]
           @ '')'')), w)
      else
        and_then (io_err (''canonicalize watched_dir '' @ display watched_dir) (canonicalize watched_dir w)) (\<lambda>root w1.
          case new_deb of
            Inl e \<Rightarrow> (Inl (Ctx ''create notify debouncer'' (Msg e)), w1)
          | Inr _ \<Rightarrow>
              (case watch root of
                 Inl e \<Rightarrow> (Inl (Ctx (''watch '' @ display root) (Msg e)), w1)
               | Inr _ \<Rightarrow> (Inr root, w1))))"

text \<open>The loop hands each event with its path relative to the watched directory to the callback.\<close>

fun watcher_loop ::
  "path \<Rightarrow> (debounced_event \<Rightarrow> path \<Rightarrow> 'n \<Rightarrow> 'n) \<Rightarrow> debounced_event list \<Rightarrow> 'n \<Rightarrow> 'n" where
  "watcher_loop watched_dir on_event [] n = n"
| "watcher_loop watched_dir on_event (ev # evs) n =
     (case ev_paths ev of
        [] \<Rightarrow> watcher_loop watched_dir on_event evs n
      | first # _ \<Rightarrow>
          (case strip_path_prefix watched_dir first of
             None \<Rightarrow> watcher_loop watched_dir on_event evs n
           | Some rel \<Rightarrow>
               if rel = [] then watcher_loop watched_dir on_event evs n
               else watcher_loop watched_dir on_event evs (on_event ev rel n)))"

section \<open>Lossy strings are valid\<close>

lemma utf8_head_take: "utf8_head s = Inr k \<Longrightarrow> utf8_head (take k s) = Inr k \<and> k \<le> length s"
  by (auto simp: utf8_head_def utf8_multi_def split: if_splits list.splits)

lemma utf8_valid_unit:
  assumes "utf8_head s = Inr k" "s \<noteq> []"
  shows "utf8_valid (take k s)"
proof -
  have k: "0 < k" using utf8_head_bounds(1) assms by (cases s) auto
  have h: "utf8_head (take k s) = Inr k" using utf8_head_take [OF assms(1)] by simp
  have "take k s \<noteq> []" using k assms(2) by auto
  then show ?thesis using h by (subst utf8_valid.simps) simp
qed

lemma utf8_valid_replacement: "utf8_valid [char_of (239::nat), char_of (191::nat), char_of (189::nat)]"
proof -
  have "utf8_head [char_of (239::nat), char_of (191::nat), char_of (189::nat)] = Inr 3"
    by (simp add: utf8_head_def utf8_multi_def second_ok_def is_cont_def)
  then show ?thesis by (subst utf8_valid.simps) simp
qed

lemma utf8_valid_to_string_lossy: "utf8_valid (to_string_lossy s)"
proof (induction s rule: to_string_lossy.induct)
  case (1 s)
  show ?case
  proof (cases "s = []")
    case False
    show ?thesis
    proof (cases "utf8_head s")
      case (Inl k)
      then show ?thesis
        using "1.IH"(1) [OF False Inl] False utf8_valid_append [OF utf8_valid_replacement]
        by (subst to_string_lossy.simps) simp
    next
      case (Inr k)
      then show ?thesis
        using "1.IH"(2) [OF False Inr] False utf8_valid_append [OF utf8_valid_unit [OF Inr False]]
        by (subst to_string_lossy.simps) simp
    qed
  qed simp
qed

section \<open>What is never announced\<close>

lemma path_is_skippable_iff:
  "path_is_skippable p \<longleftrightarrow> (\<exists>c\<in>set p. normal c \<and> utf8_valid c \<and> skippable_name c)"
  by (induction p) auto

lemma strip_path_prefix_append [simp]: "strip_path_prefix root (root @ q) = Some q"
  by (simp add: strip_path_prefix_def)

lemma hex_utf8: "\<forall>c\<in>set s. is_ascii_hexdigit c \<Longrightarrow> utf8_valid s"
  using hexdigit_plain by (intro utf8_valid_ascii) blast

lemma conflict_backup_skippable:
  assumes "id_ok ids"
  shows "normal (conflict_backup_name ids n i) \<and> utf8_valid (conflict_backup_name ids n i)
     \<and> skippable_name (conflict_backup_name ids n i)"
proof -
  have "utf8_valid (to_string_lossy n @ ''.conflict-local-'' @ short_peer_id ids i)"
    by (intro utf8_valid_append utf8_valid_to_string_lossy hex_utf8 utf8_valid_ascii)
      (use short_peer_id_eq(3) [OF assms] in auto)
  moreover have "sublist ''.conflict-local-'' (conflict_backup_name ids n i)"
    by (auto simp: conflict_backup_name_def sublist_def)
  ultimately show ?thesis
    using conflict_backup_normal find_sub_None_iff [of "''.conflict-local-''" "conflict_backup_name ids n i"]
    by (auto simp: skippable_name_def conflict_backup_name_def)
qed

lemma temp_name_skippable:
  "utf8_valid mid \<Longrightarrow> normal (''.dirhive.'' @ mid @ ''.tmp'') \<and> utf8_valid (''.dirhive.'' @ mid @ ''.tmp'')
     \<and> skippable_name (''.dirhive.'' @ mid @ ''.tmp'')"
proof (intro conjI)
  show "normal (''.dirhive.'' @ mid @ ''.tmp'')" by (rule temp_normal)
  show "skippable_name (''.dirhive.'' @ mid @ ''.tmp'')" by (simp add: skippable_name_def)
  have "utf8_valid ''.dirhive.''" "utf8_valid ''.tmp''" by (rule utf8_valid_ascii; simp)+
  then show "utf8_valid (''.dirhive.'' @ mid @ ''.tmp'')" if "utf8_valid mid"
    using that by (intro utf8_valid_append)
qed

text \<open>Any event that touches a conflict backup or a temporary file of the receiver is skipped.\<close>

lemma own_files_skipped:
  assumes "id_ok ids" "utf8_valid mid"
    and "d @ [conflict_backup_name ids n i] \<in> set (ev_paths ev) \<or> d @ [''.dirhive.'' @ mid @ ''.tmp''] \<in> set (ev_paths ev)"
    and "prefix root d"
  shows "should_skip_under_root ev root"
proof -
  obtain e where e: "d = root @ e" using assms(4) by (auto simp: prefix_def)
  have "\<exists>x. root @ e @ [x] \<in> set (ev_paths ev) \<and> normal x \<and> utf8_valid x \<and> skippable_name x"
    using assms(3) e conflict_backup_skippable [OF assms(1)] temp_name_skippable [OF assms(2)] by auto
  then obtain x where x: "root @ e @ [x] \<in> set (ev_paths ev)" "path_is_skippable (e @ [x])"
    by (auto simp: path_is_skippable_iff)
  show ?thesis
    unfolding should_skip_under_root_def list_ex_iff using x by (auto intro!: bexI [of _ "root @ e @ [x]"])
qed

text \<open>What the handler passes on mentions no skippable component below the root.\<close>

lemma watcher_handler_sound:
  "ev \<in> set (watcher_handler root batches) \<Longrightarrow>
     ev_kind ev \<noteq> Access \<and> ev_kind ev \<noteq> OtherEvent \<and> \<not> should_skip_under_root ev root
     \<and> (\<exists>evs. Inr evs \<in> set batches \<and> ev \<in> set evs)"
  by (induction root batches rule: watcher_handler.induct) (auto simp: should_skip_under_root_def)

lemma watcher_handler_complete:
  "Inr evs \<in> set batches \<Longrightarrow> ev \<in> set evs \<Longrightarrow> \<not> should_skip_under_root ev root \<Longrightarrow>
     ev \<in> set (watcher_handler root batches)"
  by (induction root batches rule: watcher_handler.induct) auto

text \<open>The callback only ever sees non-empty paths below the watched directory.\<close>

lemma watcher_loop_invariant:
  assumes "\<And>ev rel n. P n \<Longrightarrow> rel \<noteq> [] \<Longrightarrow> watched @ rel \<in> set (ev_paths ev) \<Longrightarrow> P (f ev rel n)"
  shows "P n \<Longrightarrow> P (watcher_loop watched f evs n)"
proof (induction evs arbitrary: n)
  case (Cons ev evs)
  show ?case
  proof (cases "\<exists>rel rest. ev_paths ev = (watched @ rel) # rest \<and> rel \<noteq> []")
    case True
    then obtain rel rest where r: "ev_paths ev = (watched @ rel) # rest" "rel \<noteq> []" by blast
    then have "P (f ev rel n)" using assms [OF Cons.prems, of rel ev] by simp
    then show ?thesis using Cons.IH r by simp
  next
    case False
    then have "watcher_loop watched f (ev # evs) n = watcher_loop watched f evs n"
      by (auto simp: strip_path_prefix_def prefix_def split: list.splits)
    then show ?thesis using Cons.IH Cons.prems by simp
  qed
qed simp

end
