(* ===== verification/Daemon_State.thy ===== *)
theory Daemon_State
  imports Watcher
begin

text \<open>
  \<open>src/src/daemon/state.rs\<close>: the state of the daemon process, which is the extension part of a node.
  \<open>'g\<close> is the type of gossip sender handles.  A panic of the constructor is \<open>None\<close>.  The queue of
  changes seen before the first join is modelled with its lock in \<open>Join_Gate\<close>.
\<close>

record daemon_paths =
  watched_dir_canonical :: path
  socket_path :: path
  lock_path :: path
  allowlist_path :: path
  folder_secret_path :: path
  key_path :: path
  blobs_dir :: path
  log_path :: path
  bootstrap_peers_path :: path

datatype runtime_status = Uninitialized | InitializedButNotSubscribed | Active

fun group_initialized :: "runtime_status \<Rightarrow> bool" where
  "group_initialized s = (s \<noteq> Uninitialized)"

fun gossip_subscribed :: "runtime_status \<Rightarrow> bool" where
  "gossip_subscribed s = (s = Active)"

fun restart_required :: "runtime_status \<Rightarrow> bool" where
  "restart_required s = (s = InitializedButNotSubscribed)"

record 'g gossip_runtime =
  gr_status :: runtime_status
  gr_sender :: "'g option"

definition gossip_runtime_invariant :: "'g gossip_runtime \<Rightarrow> bool" where
  "gossip_runtime_invariant g \<longleftrightarrow> (gr_sender g \<noteq> None) = (gr_status g = Active)"

record 'g daemon_state =
  ds_paths :: daemon_paths
  ds_pending :: pending_tracker
  self_endpoint_id :: endpoint_id
  gossip_runtime :: "'g gossip_runtime"
  start_instant :: nat
  last_seen_at :: "(endpoint_id \<times> int) list"
  gossip_joined :: bool
  pending_initial_broadcasts :: "path list"

text \<open>A daemon: the node of its host with the daemon's own state.\<close>

type_synonym ('b, 'g) daemon = "('b, 'g daemon_state) peer_node_scheme"

definition daemon_state_new ::
  "daemon_paths \<Rightarrow> pending_tracker \<Rightarrow> endpoint_id \<Rightarrow> 'g option \<Rightarrow> runtime_status \<Rightarrow> nat \<Rightarrow> 'g daemon_state option" where
  "daemon_state_new paths pending endpoint_id sender status now =
     (if (sender \<noteq> None) \<noteq> (status = Active) then None
      else Some \<lparr>ds_paths = paths, ds_pending = pending, self_endpoint_id = endpoint_id,
                 gossip_runtime = \<lparr>gr_status = status, gr_sender = sender\<rparr>,
                 start_instant = now, last_seen_at = [], gossip_joined = False,
                 pending_initial_broadcasts = []\<rparr>)"

definition mark_first_join :: "'g daemon_state \<Rightarrow> bool \<times> 'g daemon_state" where
  "mark_first_join ds =
     (if gossip_joined ds then (False, ds) else (True, ds\<lparr>gossip_joined := True\<rparr>))"

definition enqueue_initial_broadcast :: "path \<Rightarrow> 'g daemon_state \<Rightarrow> bool \<times> 'g daemon_state" where
  "enqueue_initial_broadcast rel ds =
     (if gossip_joined ds then (False, ds)
      else (True, ds\<lparr>pending_initial_broadcasts := List.insert rel (pending_initial_broadcasts ds)\<rparr>))"

definition drain_pending_initial :: "'g daemon_state \<Rightarrow> path list \<times> 'g daemon_state" where
  "drain_pending_initial ds = (pending_initial_broadcasts ds, ds\<lparr>pending_initial_broadcasts := []\<rparr>)"

definition uptime_secs :: "nat \<Rightarrow> 'g daemon_state \<Rightarrow> nat" where
  "uptime_secs now ds = (now - start_instant ds) div 1000"

definition mark_peer_seen :: "endpoint_id \<Rightarrow> int \<Rightarrow> 'g daemon_state \<Rightarrow> 'g daemon_state" where
  "mark_peer_seen peer now ds =
     (let cur = (case map_of (last_seen_at ds) peer of Some t \<Rightarrow> t | None \<Rightarrow> 0) in
      if now > cur then ds\<lparr>last_seen_at := AList.update peer now (last_seen_at ds)\<rparr> else ds)"

definition current_runtime_status :: "'g daemon_state \<Rightarrow> runtime_status" where
  "current_runtime_status ds = gr_status (gossip_runtime ds)"

definition enter_initialized_but_not_subscribed :: "'g daemon_state \<Rightarrow> 'g daemon_state" where
  "enter_initialized_but_not_subscribed ds =
     ds\<lparr>gossip_runtime := \<lparr>gr_status = InitializedButNotSubscribed, gr_sender = None\<rparr>\<rparr>"

definition enter_active :: "'g \<Rightarrow> 'g daemon_state \<Rightarrow> 'g daemon_state" where
  "enter_active sender ds = ds\<lparr>gossip_runtime := \<lparr>gr_status = Active, gr_sender = Some sender\<rparr>\<rparr>"

definition enter_uninitialized :: "'g daemon_state \<Rightarrow> 'g daemon_state" where
  "enter_uninitialized ds = ds\<lparr>gossip_runtime := \<lparr>gr_status = Uninitialized, gr_sender = None\<rparr>\<rparr>"

definition gossip_sender_cloned :: "'g daemon_state \<Rightarrow> 'g option" where
  "gossip_sender_cloned ds = gr_sender (gossip_runtime ds)"

section \<open>The runtime status and the sender agree\<close>

text \<open>The ways the daemon changes its state, and the states they lead to.\<close>

inductive daemon_step :: "'g daemon_state \<Rightarrow> 'g daemon_state \<Rightarrow> bool" where
  "daemon_step ds (snd (mark_first_join ds))"
| "daemon_step ds (snd (enqueue_initial_broadcast rel ds))"
| "daemon_step ds (snd (drain_pending_initial ds))"
| "daemon_step ds (mark_peer_seen peer t ds)"
| "daemon_step ds (enter_initialized_but_not_subscribed ds)"
| "daemon_step ds (enter_active g ds)"
| "daemon_step ds (enter_uninitialized ds)"

inductive daemon_reachable :: "'g daemon_state \<Rightarrow> bool" where
  start: "daemon_state_new p pt i s st now = Some ds \<Longrightarrow> daemon_reachable ds"
| step: "daemon_reachable ds \<Longrightarrow> daemon_step ds ds' \<Longrightarrow> daemon_reachable ds'"

lemmas daemon_op_defs =
  mark_first_join_def enqueue_initial_broadcast_def drain_pending_initial_def mark_peer_seen_def
  enter_initialized_but_not_subscribed_def enter_active_def enter_uninitialized_def

lemma daemon_step_invariant:
  "daemon_step ds ds' \<Longrightarrow> gossip_runtime_invariant (gossip_runtime ds) \<Longrightarrow> gossip_runtime_invariant (gossip_runtime ds')"
  by (induction rule: daemon_step.induct) (auto simp: daemon_op_defs gossip_runtime_invariant_def Let_def)

lemma daemon_reachable_invariant:
  "daemon_reachable ds \<Longrightarrow> gossip_runtime_invariant (gossip_runtime ds)"
proof (induction rule: daemon_reachable.induct)
  case (start p pt i s st now ds)
  then show ?case by (auto simp: daemon_state_new_def gossip_runtime_invariant_def split: if_splits)
next
  case (step ds ds')
  then show ?case using daemon_step_invariant by blast
qed

lemma restart_required_iff:
  "restart_required s \<longleftrightarrow> group_initialized s \<and> \<not> gossip_subscribed s"
  by (cases s) auto

section \<open>The last-seen times\<close>

text \<open>
  A missing entry counts as 0.  A mark never lowers a time, and afterwards the entry is the maximum of
  the marks: the order of the marks does not matter.
\<close>

definition seen_time :: "'g daemon_state \<Rightarrow> endpoint_id \<Rightarrow> int" where
  "seen_time ds i = (case map_of (last_seen_at ds) i of Some t \<Rightarrow> t | None \<Rightarrow> 0)"

lemma mark_peer_seen_time:
  "seen_time (mark_peer_seen i t ds) j = (if j = i then max t (seen_time ds i) else seen_time ds j)"
  by (auto simp: seen_time_def mark_peer_seen_def Let_def split: option.splits)

lemma mark_peer_seen_fold:
  "seen_time (fold (\<lambda>(i, t) ds. mark_peer_seen i t ds) ms ds) j =
     fold (\<lambda>(i, t) m. if i = j then max t m else m) ms (seen_time ds j)"
  by (induction ms arbitrary: ds) (auto simp: mark_peer_seen_time)

lemma mark_peer_seen_commute:
  "seen_time (mark_peer_seen i t (mark_peer_seen j u ds)) k = seen_time (mark_peer_seen j u (mark_peer_seen i t ds)) k"
  by (auto simp: mark_peer_seen_time max.left_commute max.commute)

lemma mark_peer_seen_keys:
  "keys_distinct (last_seen_at ds) \<Longrightarrow> keys_distinct (last_seen_at (mark_peer_seen i t ds))"
  by (auto simp: mark_peer_seen_def Let_def)

end
