(* ===== verification/Join_Gate.thy ===== *)
theory Join_Gate
  imports Daemon_State
begin

text \<open>
  The queue of changes observed before the node has joined the gossip mesh, under concurrency:
  \<open>enqueue_initial_broadcast\<close> (the watcher tasks) against \<open>mark_first_join\<close> and
  \<open>drain_pending_initial\<close> (the neighbor-up callbacks).  A step is one lock operation or one atomic
  access; the flag is set outside the lock, so that it may change inside a critical section of the
  watcher.  Any number of tasks of both kinds take part.
\<close>

datatype watcher_pc =
    WIdle                          \<comment> \<open>before \<open>lock()\<close>\<close>
  | WLocked path                   \<comment> \<open>holds the lock, before the load of the flag\<close>
  | WInsert path                   \<comment> \<open>the load returned false, before \<open>insert\<close>\<close>
  | WQueued path                   \<comment> \<open>returned true: the caller forgets the path\<close>
  | WDirect path                   \<comment> \<open>returned false: the caller broadcasts the path itself\<close>

datatype neighbor_pc =
    NIdle                          \<comment> \<open>before the compare-and-exchange\<close>
  | NFirst                         \<comment> \<open>won it, before the drain\<close>
  | NDrained "path set"            \<comment> \<open>has drained: these paths are broadcast now\<close>
  | NLater                         \<comment> \<open>lost it: returns\<close>

record gate_state =
  g_flag :: bool
  g_queue :: "path set"
  g_lock :: "nat option"
  g_watcher :: "nat \<Rightarrow> watcher_pc"
  g_neighbor :: "nat \<Rightarrow> neighbor_pc"

inductive gate_step :: "gate_state \<Rightarrow> gate_state \<Rightarrow> bool" where
  w_lock: "g_watcher s t = WIdle \<Longrightarrow> g_lock s = None \<Longrightarrow>
     gate_step s (s\<lparr>g_lock := Some t, g_watcher := (g_watcher s)(t := WLocked p)\<rparr>)"
| w_joined: "g_watcher s t = WLocked p \<Longrightarrow> g_flag s \<Longrightarrow>
     gate_step s (s\<lparr>g_lock := None, g_watcher := (g_watcher s)(t := WDirect p)\<rparr>)"
| w_not_joined: "g_watcher s t = WLocked p \<Longrightarrow> \<not> g_flag s \<Longrightarrow>
     gate_step s (s\<lparr>g_watcher := (g_watcher s)(t := WInsert p)\<rparr>)"
| w_insert: "g_watcher s t = WInsert p \<Longrightarrow>
     gate_step s (s\<lparr>g_queue := insert p (g_queue s), g_lock := None, g_watcher := (g_watcher s)(t := WQueued p)\<rparr>)"
| w_again: "g_watcher s t = WDirect p \<Longrightarrow> gate_step s (s\<lparr>g_watcher := (g_watcher s)(t := WIdle)\<rparr>)"
| n_first: "g_neighbor s t = NIdle \<Longrightarrow> \<not> g_flag s \<Longrightarrow>
     gate_step s (s\<lparr>g_flag := True, g_neighbor := (g_neighbor s)(t := NFirst)\<rparr>)"
| n_later: "g_neighbor s t = NIdle \<Longrightarrow> g_flag s \<Longrightarrow>
     gate_step s (s\<lparr>g_neighbor := (g_neighbor s)(t := NLater)\<rparr>)"
| n_drain: "g_neighbor s t = NFirst \<Longrightarrow> g_lock s = None \<Longrightarrow>
     gate_step s (s\<lparr>g_queue := {}, g_neighbor := (g_neighbor s)(t := NDrained (g_queue s))\<rparr>)"

inductive gate_reachable :: "gate_state \<Rightarrow> bool" where
  init: "gate_reachable \<lparr>g_flag = False, g_queue = {}, g_lock = None, g_watcher = \<lambda>_. WIdle, g_neighbor = \<lambda>_. NIdle\<rparr>"
| step: "gate_reachable s \<Longrightarrow> gate_step s s' \<Longrightarrow> gate_reachable s'"

section \<open>The steps are the code's operations\<close>

text \<open>Run without interruption, the steps of a task are the sequential operations.\<close>

definition gate_of :: "'g daemon_state \<Rightarrow> gate_state \<Rightarrow> bool" where
  "gate_of ds s \<longleftrightarrow> g_flag s = gossip_joined ds \<and> g_queue s = set (pending_initial_broadcasts ds)"

lemma enqueue_steps:
  assumes "gate_of ds s" "g_lock s = None" "g_watcher s t = WIdle"
  shows "\<exists>s'. gate_step\<^sup>*\<^sup>* s s' \<and> gate_of (snd (enqueue_initial_broadcast p ds)) s' \<and> g_lock s' = None
    \<and> g_watcher s' t = (if fst (enqueue_initial_broadcast p ds) then WQueued p else WDirect p)"
proof -
  let ?s1 = "s\<lparr>g_lock := Some t, g_watcher := (g_watcher s)(t := WLocked p)\<rparr>"
  have 1: "gate_step s ?s1" by (rule w_lock [OF assms(3,2)])
  show ?thesis
  proof (cases "gossip_joined ds")
    case True
    let ?s2 = "?s1\<lparr>g_lock := None, g_watcher := (g_watcher ?s1)(t := WDirect p)\<rparr>"
    have "gate_step ?s1 ?s2" by (rule w_joined) (use True assms(1) in \<open>simp_all add: gate_of_def\<close>)
    then have "gate_step\<^sup>*\<^sup>* s ?s2" using 1 by (meson r_into_rtranclp rtranclp_trans)
    then show ?thesis using True assms(1)
      by (intro exI [of _ ?s2]) (simp add: enqueue_initial_broadcast_def gate_of_def)
  next
    case False
    let ?s2 = "?s1\<lparr>g_watcher := (g_watcher ?s1)(t := WInsert p)\<rparr>"
    let ?s3 = "?s2\<lparr>g_queue := insert p (g_queue ?s2), g_lock := None, g_watcher := (g_watcher ?s2)(t := WQueued p)\<rparr>"
    have "gate_step ?s1 ?s2" by (rule w_not_joined) (use False assms(1) in \<open>simp_all add: gate_of_def\<close>)
    moreover have "gate_step ?s2 ?s3" by (rule w_insert) simp
    ultimately have "gate_step\<^sup>*\<^sup>* s ?s3" using 1 by (meson r_into_rtranclp rtranclp_trans)
    then show ?thesis using False assms(1)
      by (intro exI [of _ ?s3]) (simp add: enqueue_initial_broadcast_def gate_of_def)
  qed
qed

lemma join_and_drain_steps:
  assumes "gate_of ds s" "g_lock s = None" "g_neighbor s t = NIdle" "mark_first_join ds = (True, ds1)"
  shows "\<exists>s'. gate_step\<^sup>*\<^sup>* s s' \<and> gate_of (snd (drain_pending_initial ds1)) s'
    \<and> g_neighbor s' t = NDrained (set (fst (drain_pending_initial ds1)))"
proof -
  have j: "\<not> gossip_joined ds" "ds1 = ds\<lparr>gossip_joined := True\<rparr>"
    using assms(4) by (auto simp: mark_first_join_def split: if_splits)
  let ?s1 = "s\<lparr>g_flag := True, g_neighbor := (g_neighbor s)(t := NFirst)\<rparr>"
  let ?s2 = "?s1\<lparr>g_queue := {}, g_neighbor := (g_neighbor ?s1)(t := NDrained (g_queue ?s1))\<rparr>"
  have "gate_step s ?s1" by (rule n_first) (use j assms(1,3) in \<open>simp_all add: gate_of_def\<close>)
  moreover have "gate_step ?s1 ?s2" by (rule n_drain) (use assms(2) in simp_all)
  ultimately have "gate_step\<^sup>*\<^sup>* s ?s2" by (meson r_into_rtranclp rtranclp_trans)
  then show ?thesis using j assms(1)
    by (intro exI [of _ ?s2]) (simp add: drain_pending_initial_def gate_of_def)
qed

section \<open>No path is lost\<close>

text \<open>
  The lock is exact; a queued path is in the queue or was drained; once the first joiner has drained,
  the queue is empty and no watcher is about to insert.
\<close>

definition drained_paths :: "gate_state \<Rightarrow> path set" where
  "drained_paths s = {p. \<exists>t q. g_neighbor s t = NDrained q \<and> p \<in> q}"

definition gate_inv :: "gate_state \<Rightarrow> bool" where
  "gate_inv s \<longleftrightarrow>
     (\<forall>t p. (g_watcher s t = WLocked p \<or> g_watcher s t = WInsert p) \<longrightarrow> g_lock s = Some t)
     \<and> (\<forall>t p. g_watcher s t = WQueued p \<longrightarrow> p \<in> g_queue s \<union> drained_paths s)
     \<and> (\<not> g_flag s \<longrightarrow> (\<forall>t. g_neighbor s t = NIdle))
     \<and> (\<forall>t t'. g_neighbor s t \<notin> {NIdle, NLater} \<longrightarrow> g_neighbor s t' \<notin> {NIdle, NLater} \<longrightarrow> t = t')
     \<and> (g_flag s \<longrightarrow> (\<forall>t. g_neighbor s t \<noteq> NFirst) \<longrightarrow>
          g_queue s = {} \<and> (\<forall>t p. g_watcher s t \<noteq> WInsert p))"

lemma gate_invD:
  assumes "gate_inv s"
  shows "g_watcher s t = WLocked p \<Longrightarrow> g_lock s = Some t" "g_watcher s t = WInsert p \<Longrightarrow> g_lock s = Some t"
    "g_watcher s t = WQueued p \<Longrightarrow> p \<in> g_queue s \<or> p \<in> drained_paths s"
    "\<not> g_flag s \<Longrightarrow> g_neighbor s t = NIdle"
    "g_neighbor s t \<notin> {NIdle, NLater} \<Longrightarrow> g_neighbor s t' \<notin> {NIdle, NLater} \<Longrightarrow> t = t'"
    "g_flag s \<Longrightarrow> (\<And>t. g_neighbor s t \<noteq> NFirst) \<Longrightarrow> g_queue s = {}"
    "g_flag s \<Longrightarrow> (\<And>t. g_neighbor s t \<noteq> NFirst) \<Longrightarrow> g_watcher s t \<noteq> WInsert p"
  using assms unfolding gate_inv_def by blast+

lemma gate_invI:
  assumes "\<And>t p. g_watcher s t = WLocked p \<or> g_watcher s t = WInsert p \<Longrightarrow> g_lock s = Some t"
    and "\<And>t p. g_watcher s t = WQueued p \<Longrightarrow> p \<in> g_queue s \<or> p \<in> drained_paths s"
    and "\<And>t. \<not> g_flag s \<Longrightarrow> g_neighbor s t = NIdle"
    and "\<And>t t'. g_neighbor s t \<notin> {NIdle, NLater} \<Longrightarrow> g_neighbor s t' \<notin> {NIdle, NLater} \<Longrightarrow> t = t'"
    and "g_flag s \<Longrightarrow> (\<And>t. g_neighbor s t \<noteq> NFirst) \<Longrightarrow> g_queue s = {}"
    and "\<And>t p. g_flag s \<Longrightarrow> (\<And>t. g_neighbor s t \<noteq> NFirst) \<Longrightarrow> g_watcher s t \<noteq> WInsert p"
  shows "gate_inv s"
  unfolding gate_inv_def using assms by blast

text \<open>A step of a watcher that leaves flag and callbacks alone.\<close>

lemma gate_inv_watcher_step:
  assumes inv: "gate_inv s" and n: "g_neighbor s' = g_neighbor s" "g_flag s' = g_flag s"
    and w: "g_watcher s' = (g_watcher s)(t := pc)"
    and l: "\<And>t' p. t' \<noteq> t \<Longrightarrow> g_watcher s t' = WLocked p \<or> g_watcher s t' = WInsert p \<Longrightarrow> g_lock s' = Some t'"
    and lt: "\<And>p. pc = WLocked p \<or> pc = WInsert p \<Longrightarrow> g_lock s' = Some t"
    and q: "g_queue s \<subseteq> g_queue s'" "\<And>p. pc = WQueued p \<Longrightarrow> p \<in> g_queue s'"
    and e: "g_flag s \<Longrightarrow> (\<And>t. g_neighbor s t \<noteq> NFirst) \<Longrightarrow> g_queue s' = {} \<and> (\<forall>p. pc \<noteq> WInsert p)"
  shows "gate_inv s'"
proof (rule gate_invI)
  have d: "drained_paths s' = drained_paths s" using n by (simp add: drained_paths_def)
  fix t' t'' p
  show "g_lock s' = Some t'" if "g_watcher s' t' = WLocked p \<or> g_watcher s' t' = WInsert p"
    using that w l [of t' p] lt [of p] by (cases "t' = t") auto
  show "p \<in> g_queue s' \<or> p \<in> drained_paths s'" if "g_watcher s' t' = WQueued p"
    using that w q gate_invD(3) [OF inv, of t' p] d by (cases "t' = t") auto
  show "g_neighbor s' t' = NIdle" if "\<not> g_flag s'" using that n gate_invD(4) [OF inv] by simp
  show "t' = t''" if "g_neighbor s' t' \<notin> {NIdle, NLater}" "g_neighbor s' t'' \<notin> {NIdle, NLater}"
    using that n gate_invD(5) [OF inv] by simp
  show "g_queue s' = {}" if "g_flag s'" "\<And>t. g_neighbor s' t \<noteq> NFirst" using that n e by simp
  show "g_watcher s' t' \<noteq> WInsert p" if "g_flag s'" "\<And>t. g_neighbor s' t \<noteq> NFirst"
    using that n e w gate_invD(7) [OF inv, of t' p] by (cases "t' = t") auto
qed

lemma gate_inv_step:
  assumes "gate_inv s" "gate_step s s'"
  shows "gate_inv s'"
  using assms(2)
proof (cases rule: gate_step.cases)
  case (w_lock t p)
  show ?thesis
  proof (rule gate_inv_watcher_step [OF assms(1), of s' t "WLocked p"])
    show "g_lock s' = Some t'" if "t' \<noteq> t" "g_watcher s t' = WLocked p' \<or> g_watcher s t' = WInsert p'" for t' p'
      using that w_lock gate_invD(1,2) [OF assms(1), of t' p'] by auto
  qed (use w_lock gate_invD(6) [OF assms(1)] in auto)
next
  case (w_joined t p)
  have h: "g_lock s = Some t" using gate_invD(1) [OF assms(1)] w_joined by blast
  show ?thesis
  proof (rule gate_inv_watcher_step [OF assms(1), of s' t "WDirect p"])
    show "g_lock s' = Some t'" if "t' \<noteq> t" "g_watcher s t' = WLocked p' \<or> g_watcher s t' = WInsert p'" for t' p'
      using that h gate_invD(1,2) [OF assms(1), of t' p'] by auto
  qed (use w_joined gate_invD(6) [OF assms(1)] in auto)
next
  case (w_not_joined t p)
  have h: "g_lock s = Some t" using gate_invD(1) [OF assms(1)] w_not_joined by blast
  show ?thesis
  proof (rule gate_inv_watcher_step [OF assms(1), of s' t "WInsert p"])
    show "g_lock s' = Some t'" if "t' \<noteq> t" "g_watcher s t' = WLocked p' \<or> g_watcher s t' = WInsert p'" for t' p'
      using that h gate_invD(1,2) [OF assms(1), of t' p'] by auto
  qed (use w_not_joined h in auto)
next
  case (w_insert t p)
  have h: "g_lock s = Some t" using gate_invD(2) [OF assms(1)] w_insert by blast
  show ?thesis
  proof (rule gate_inv_watcher_step [OF assms(1), of s' t "WQueued p"])
    show "g_lock s' = Some t'" if "t' \<noteq> t" "g_watcher s t' = WLocked p' \<or> g_watcher s t' = WInsert p'" for t' p'
      using that h gate_invD(1,2) [OF assms(1), of t' p'] by auto
    show "g_queue s' = {} \<and> (\<forall>p'. WQueued p \<noteq> WInsert p')" if "g_flag s" "\<And>t. g_neighbor s t \<noteq> NFirst"
      using gate_invD(7) [OF assms(1) that, of t p] w_insert by simp
  qed (use w_insert in auto)
next
  case (w_again t p)
  show ?thesis
  proof (rule gate_inv_watcher_step [OF assms(1), of s' t WIdle])
    show "g_lock s' = Some t'" if "t' \<noteq> t" "g_watcher s t' = WLocked p' \<or> g_watcher s t' = WInsert p'" for t' p'
      using that w_again gate_invD(1,2) [OF assms(1), of t' p'] by auto
  qed (use w_again gate_invD(6) [OF assms(1)] in auto)
next
  case (n_first t)
  have i: "g_neighbor s t' = NIdle" for t' using gate_invD(4) [OF assms(1)] n_first by blast
  have d: "drained_paths s' = drained_paths s" using n_first i by (auto simp: drained_paths_def)
  show ?thesis
  proof (rule gate_invI)
    fix t' t'' p
    show "g_lock s' = Some t'" if "g_watcher s' t' = WLocked p \<or> g_watcher s' t' = WInsert p"
      using that n_first gate_invD(1,2) [OF assms(1), of t' p] by auto
    show "p \<in> g_queue s' \<or> p \<in> drained_paths s'" if "g_watcher s' t' = WQueued p"
      using that n_first gate_invD(3) [OF assms(1), of t' p] d by auto
    show "t' = t''" if "g_neighbor s' t' \<notin> {NIdle, NLater}" "g_neighbor s' t'' \<notin> {NIdle, NLater}"
      using that n_first i by (auto split: if_splits)
    show "g_queue s' = {}" if "\<And>t. g_neighbor s' t \<noteq> NFirst" using that [of t] n_first by simp
    show "g_watcher s' t' \<noteq> WInsert p" if "\<And>t. g_neighbor s' t \<noteq> NFirst" using that [of t] n_first by simp
  qed (use n_first in simp)
next
  case (n_later t)
  have d: "drained_paths s' = drained_paths s"
  proof -
    have "g_neighbor s' t' = NDrained q \<longleftrightarrow> g_neighbor s t' = NDrained q" for t' q using n_later by auto
    then show ?thesis by (simp add: drained_paths_def)
  qed
  have nf: "g_neighbor s t1 \<noteq> NFirst" if "\<And>t. g_neighbor s' t \<noteq> NFirst" for t1
    using that [of t1] n_later by (auto split: if_splits)
  show ?thesis
  proof (rule gate_invI)
    fix t' t'' p
    show "g_lock s' = Some t'" if "g_watcher s' t' = WLocked p \<or> g_watcher s' t' = WInsert p"
      using that n_later gate_invD(1,2) [OF assms(1), of t' p] by auto
    show "p \<in> g_queue s' \<or> p \<in> drained_paths s'" if "g_watcher s' t' = WQueued p"
      using that n_later gate_invD(3) [OF assms(1), of t' p] d by auto
    show "t' = t''" if "g_neighbor s' t' \<notin> {NIdle, NLater}" "g_neighbor s' t'' \<notin> {NIdle, NLater}"
      using that n_later gate_invD(5) [OF assms(1), of t' t''] by (auto split: if_splits)
    show "g_queue s' = {}" if "g_flag s'" "\<And>t. g_neighbor s' t \<noteq> NFirst"
      using gate_invD(6) [OF assms(1)] nf [OF that(2)] n_later by simp
    show "g_watcher s' t' \<noteq> WInsert p" if "g_flag s'" "\<And>t. g_neighbor s' t \<noteq> NFirst"
      using gate_invD(7) [OF assms(1), of t' p] nf [OF that(2)] n_later by simp
  qed (use n_later in simp)
next
  case (n_drain t)
  have f: "g_flag s" using assms(1) n_drain by (auto simp: gate_inv_def)
  have u: "g_neighbor s t' \<in> {NIdle, NLater}" if "t' \<noteq> t" for t'
  proof (rule ccontr)
    assume "g_neighbor s t' \<notin> {NIdle, NLater}"
    moreover have "g_neighbor s t \<notin> {NIdle, NLater}" using n_drain by simp
    ultimately have "t' = t" using assms(1) unfolding gate_inv_def by blast
    then show False using that by simp
  qed
  have d: "drained_paths s' = g_queue s"
  proof -
    have "g_neighbor s' t' = NDrained q \<longleftrightarrow> t' = t \<and> q = g_queue s" for t' q
      using n_drain u [of t'] by auto
    then show ?thesis by (auto simp: drained_paths_def)
  qed
  have o: "drained_paths s = {}"
  proof -
    have "g_neighbor s t' \<noteq> NDrained q" for t' q
      using u [of t'] n_drain by (cases "t' = t") auto
    then show ?thesis by (auto simp: drained_paths_def)
  qed
  have nw: "g_watcher s t' \<noteq> WInsert p" for t' p
    using gate_invD(2) [OF assms(1), of t' p] n_drain by auto
  show ?thesis
  proof (rule gate_invI)
    fix t1 t2 p
    show "g_lock s' = Some t1" if "g_watcher s' t1 = WLocked p \<or> g_watcher s' t1 = WInsert p"
      using that n_drain gate_invD(1,2) [OF assms(1), of t1 p] by auto
    show "p \<in> g_queue s' \<or> p \<in> drained_paths s'" if "g_watcher s' t1 = WQueued p"
      using that n_drain gate_invD(3) [OF assms(1), of t1 p] d o by auto
    show "g_neighbor s' t1 = NIdle" if "\<not> g_flag s'" using that f n_drain by simp
    show "t1 = t2" if "g_neighbor s' t1 \<notin> {NIdle, NLater}" "g_neighbor s' t2 \<notin> {NIdle, NLater}"
    proof -
      have "t1 = t" "t2 = t" using that u [of t1] u [of t2] n_drain by (auto split: if_splits)
      then show ?thesis by simp
    qed
    show "g_queue s' = {}" using n_drain by simp
    show "g_watcher s' t1 \<noteq> WInsert p" using nw n_drain by simp
  qed
qed

lemma gate_inv_reachable: "gate_reachable s \<Longrightarrow> gate_inv s"
proof (induction rule: gate_reachable.induct)
  case init
  show ?case by (simp add: gate_inv_def drained_paths_def)
next
  case (step s s')
  then show ?case using gate_inv_step by blast
qed

text \<open>
  A path whose enqueueing returned true waits for the first join or has been drained; when a join has
  happened and its callback has drained, none is left behind.
\<close>

lemma no_path_lost:
  assumes "gate_reachable s" "g_watcher s t = WQueued p"
  shows "(p \<in> g_queue s \<and> (\<not> g_flag s \<or> (\<exists>t'. g_neighbor s t' = NFirst))) \<or> p \<in> drained_paths s"
  using gate_inv_reachable [OF assms(1)] assms(2) unfolding gate_inv_def by blast

text \<open>At most one callback ever wins the compare-and-exchange.\<close>

lemma one_first_join:
  assumes "gate_reachable s" "g_neighbor s t \<notin> {NIdle, NLater}" "g_neighbor s t' \<notin> {NIdle, NLater}"
  shows "t = t'"
  using gate_inv_reachable [OF assms(1)] assms(2,3) unfolding gate_inv_def by blast

end
