(* ===== verification/Redact.thy ===== *)
theory Redact
  imports Join_Gate
begin

text \<open>
  The log tail of \<open>src/src/daemon/dispatch.rs\<close>: the last lines of the log with invite tickets and
  long hexadecimal tokens replaced.  The lemmas show that neither survives.
\<close>

section \<open>Redaction\<close>

text \<open>The UTF-8 encodings of the characters for which \<open>char::is_whitespace\<close> holds.\<close>

definition whitespace_chars :: "str list" where
  "whitespace_chars =
     [[CHR 0x09], [CHR 0x0A], [CHR 0x0B], [CHR 0x0C], [CHR 0x0D], [CHR 0x20], [CHR 0xC2, CHR 0x85],
      [CHR 0xC2, CHR 0xA0], [CHR 0xE1, CHR 0x9A, CHR 0x80], [CHR 0xE2, CHR 0x80, CHR 0x80],
      [CHR 0xE2, CHR 0x80, CHR 0x81], [CHR 0xE2, CHR 0x80, CHR 0x82], [CHR 0xE2, CHR 0x80, CHR 0x83],
      [CHR 0xE2, CHR 0x80, CHR 0x84], [CHR 0xE2, CHR 0x80, CHR 0x85], [CHR 0xE2, CHR 0x80, CHR 0x86],
      [CHR 0xE2, CHR 0x80, CHR 0x87], [CHR 0xE2, CHR 0x80, CHR 0x88], [CHR 0xE2, CHR 0x80, CHR 0x89],
      [CHR 0xE2, CHR 0x80, CHR 0x8A], [CHR 0xE2, CHR 0x80, CHR 0xA8], [CHR 0xE2, CHR 0x80, CHR 0xA9],
      [CHR 0xE2, CHR 0x80, CHR 0xAF], [CHR 0xE2, CHR 0x81, CHR 0x9F], [CHR 0xE3, CHR 0x80, CHR 0x80]]"

text \<open>\<open>find(|c| c.is_whitespace() || c == '"' || c == ',').unwrap_or(len)\<close>, character by character.\<close>

function token_end :: "str \<Rightarrow> nat" where
  "token_end s =
     (if s = [] then 0
      else (let n = (case utf8_head s of Inr n \<Rightarrow> n | Inl n \<Rightarrow> n);
                c = take n s in
            if List.member whitespace_chars c \<or> c = [CHR 0x22] \<or> c = '','' then 0
            else n + token_end (drop n s)))"
  by pat_completeness auto
termination
proof (relation "measure length", goal_cases)
  case 1
  show ?case by simp
next
  case (2 s n c)
  then show ?case using utf8_head_bounds by (cases s) (fastforce split: sum.splits)+
qed

declare token_end.simps [simp del]

function redact_pattern_loop :: "str \<Rightarrow> str \<Rightarrow> str" where
  "redact_pattern_loop pat rest =
     (if pat = [] then rest
      else (case find_sub pat rest of
              None \<Rightarrow> rest
            | Some pos \<Rightarrow>
                (let after = drop (pos + length pat) rest in
                 take pos rest @ ''<redacted>'' @ redact_pattern_loop pat (drop (token_end after) after))))"
  by pat_completeness auto
termination
proof (relation "measure (\<lambda>(p, s). length s)", goal_cases)
  case 1
  show ?case by simp
next
  case (2 pat rest pos after)
  then have "pos + length pat \<le> length rest" "0 < length pat" using find_sub_Some_length by auto
  then have "0 < pos + length pat" "0 < length rest" by auto
  then have "length (drop (token_end after) after) < length rest" using 2 by (simp add: diff_less)
  then show ?case by simp
qed

declare redact_pattern_loop.simps [simp del]

text \<open>The program only searches for non-empty prefixes.\<close>

definition redact_pattern :: "str \<Rightarrow> str \<Rightarrow> str" where
  "redact_pattern s pat = redact_pattern_loop pat s"

definition MIN_REDACT_HEX_LEN :: nat where
  "MIN_REDACT_HEX_LEN = 32"

definition flush_hex :: "nat \<Rightarrow> str \<Rightarrow> str" where
  "flush_hex min_len buf = (if length buf \<ge> min_len then ''<redacted>'' else buf)"

text \<open>\<open>buf\<close> is the current run; the output of the loop from here on.\<close>

fun redact_hex_loop :: "nat \<Rightarrow> str \<Rightarrow> str \<Rightarrow> str" where
  "redact_hex_loop min_len buf [] = flush_hex min_len buf"
| "redact_hex_loop min_len buf (c # cs) =
     (if is_ascii_hexdigit c then redact_hex_loop min_len (buf @ [c]) cs
      else flush_hex min_len buf @ c # redact_hex_loop min_len [] cs)"

definition redact_hex_token :: "str \<Rightarrow> nat \<Rightarrow> str" where
  "redact_hex_token s min_len = redact_hex_loop min_len [] s"

definition redact_secrets :: "str \<Rightarrow> str" where
  "redact_secrets line = redact_hex_token (redact_pattern line ''dirhive1-'') MIN_REDACT_HEX_LEN"

section \<open>The tail of the log\<close>

text \<open>\<open>str::lines\<close>: a final empty piece is no line, and a line end is \<open>\\n\<close> or \<open>\\r\\n\<close>.\<close>

definition strip_cr :: "str \<Rightarrow> str" where
  "strip_cr s = (if s \<noteq> [] \<and> last s = CHR 0x0D then butlast s else s)"

definition str_lines :: "str \<Rightarrow> str list" where
  "str_lines s =
     (let ps = split_on (CHR 0x0A) s in
      map strip_cr (butlast ps) @ (if last ps = [] then [] else [last ps]))"

text \<open>\<open>read_to_string\<close> also fails on bytes that are not UTF-8.\<close>

definition tail_lines_redacted :: "path \<Rightarrow> nat \<Rightarrow> 'z world_scheme \<Rightarrow> (err + str list) \<times> 'z world_scheme" where
  "tail_lines_redacted lp n w =
     (case path_exists lp w of
        (False, w1) \<Rightarrow> (Inr [], w1)
      | (True, w1) \<Rightarrow>
          and_then (io_err (''read log '' @ display lp) (fs_read lp w1)) (\<lambda>b w2.
            if \<not> utf8_valid b then
              (Inl (Ctx (''read log '' @ display lp) (Msg ''stream did not contain valid UTF-8'')), w2)
            else (Inr (rev (map redact_secrets (take n (rev (str_lines b))))), w2)))"

section \<open>No ticket survives\<close>

text \<open>
  A string built from pieces without the pattern, glued by a separator none of whose characters is
  in the pattern, does not contain the pattern.
\<close>

lemma sublist_append_cases:
  "sublist p (a @ b) \<Longrightarrow> \<not> sublist p a \<Longrightarrow> \<not> sublist p b \<Longrightarrow>
     \<exists>u v. p = u @ v \<and> u \<noteq> [] \<and> v \<noteq> [] \<and> suffix u a \<and> prefix v b"
proof -
  assume a: "sublist p (a @ b)" "\<not> sublist p a" "\<not> sublist p b"
  then obtain x y where xy: "a @ b = x @ p @ y" by (auto simp: sublist_def)
  consider (1) us where "a = x @ us" "us @ b = p @ y" | (2) us where "a @ us = x" "b = us @ p @ y"
    using xy by (auto simp: append_eq_append_conv2)
  then show ?thesis
  proof cases
    case 1
    consider (3) vs where "us = p @ vs" | (4) vs where "us @ vs = p" "b = vs @ y"
      using 1(2) by (auto simp: append_eq_append_conv2)
    then show ?thesis
    proof cases
      case 3
      then have "sublist p a" using 1 by (auto simp: sublist_def)
      then show ?thesis using a by simp
    next
      case 4
      have "vs \<noteq> []"
      proof
        assume "vs = []"
        then have "a = x @ p @ []" using 4 1 by simp
        then show False using a(2) unfolding sublist_def by blast
      qed
      moreover have "us \<noteq> []"
      proof
        assume "us = []"
        then have "b = [] @ p @ y" using 4 by simp
        then show False using a(3) unfolding sublist_def by blast
      qed
      ultimately show ?thesis using 4 1 by (intro exI [of _ us] exI [of _ vs]) (auto simp: suffix_def prefix_def)
    qed
  next
    case 2
    then have "sublist p b" by (auto simp: sublist_def)
    then show ?thesis using a by simp
  qed
qed

lemma not_sublist_glue:
  assumes "\<not> sublist p a" "\<not> sublist p b" "s \<noteq> []" "set s \<inter> set p = {}" "p \<noteq> []"
  shows "\<not> sublist p (a @ s @ b)"
proof
  assume "sublist p (a @ s @ b)"
  moreover have sb: "\<not> sublist p (s @ b)"
  proof
    assume c: "sublist p (s @ b)"
    have "\<not> sublist p s"
    proof
      assume "sublist p s"
      then have "set p \<subseteq> set s" by (auto simp: sublist_def)
      then show False using assms(4,5) by (cases p) auto
    qed
    then obtain u v where "p = u @ v" "u \<noteq> []" "suffix u s"
      using sublist_append_cases [OF c _ assms(2)] by blast
    then have "set u \<subseteq> set s \<inter> set p" by (auto simp: suffix_def)
    then show False using assms(4) \<open>u \<noteq> []\<close> by (cases u) auto
  qed
  ultimately obtain u v where uv: "p = u @ v" "v \<noteq> []" "prefix v (s @ b)"
    using sublist_append_cases [of p a "s @ b"] assms(1) by blast
  then have "hd v \<in> set s" using assms(3) by (cases v; cases s) auto
  moreover have "hd v \<in> set p" using uv by (cases v) auto
  ultimately show False using assms(4) by blast
qed

lemma find_sub_take: "find_sub p s = Some i \<Longrightarrow> p \<noteq> [] \<Longrightarrow> \<not> sublist p (take i s)"
proof
  assume f: "find_sub p s = Some i" "p \<noteq> []" "sublist p (take i s)"
  then obtain x y where xy: "take i s = x @ p @ y" by (auto simp: sublist_def)
  have len: "length x + length p + length y = min i (length s)" using arg_cong [OF xy, of length] by simp
  then have "length x < i" using f(2) by (cases p) auto
  then have "\<not> prefix p (drop (length x) s)" using find_sub_first [OF f(1)] by blast
  moreover have "prefix p (drop (length x) s)"
  proof -
    have "s = x @ p @ y @ drop i s" using xy by (metis append.assoc append_take_drop_id)
    then have "drop (length x) s = p @ y @ drop i s" by (metis append_eq_conv_conj)
    then show ?thesis by simp
  qed
  ultimately show False by blast
qed

text \<open>
  The separator \<open><redacted>\<close> shares letters with \<open>dirhive1-\<close>, but it starts and ends with one that the
  pattern lacks.
\<close>

lemma not_sublist_bracketed:
  assumes "\<not> sublist p a" "\<not> sublist p b" "\<not> sublist p m" "p \<noteq> []" "CHR ''<'' \<notin> set p" "CHR ''>'' \<notin> set p"
  shows "\<not> sublist p (a @ ''<'' @ m @ ''>'' @ b)"
  using not_sublist_glue [OF assms(1) not_sublist_glue [OF assms(3,2), of "''>''"], of "''<''"] assms(4-6) by simp

definition ticket_free :: "str \<Rightarrow> bool" where
  "ticket_free s \<longleftrightarrow> \<not> sublist ''dirhive1-'' s"

lemma ticket_free_redacted:
  assumes "ticket_free a" "ticket_free b"
  shows "ticket_free (a @ ''<redacted>'' @ b)"
proof -
  have "\<not> sublist ''dirhive1-'' ''redacted''" by code_simp
  then show ?thesis
    using not_sublist_bracketed [of "''dirhive1-''" a b "''redacted''"] assms by (simp add: ticket_free_def)
qed

lemma redact_pattern_ticket_free: "ticket_free (redact_pattern s ''dirhive1-'')"
proof -
  have "ticket_free (redact_pattern_loop p rest)" if "p = ''dirhive1-''" for p rest
    using that
  proof (induction p rest rule: redact_pattern_loop.induct)
    case (1 p rest)
    show ?case
    proof (cases "find_sub p rest")
      case None
      then show ?thesis using 1 find_sub_None_iff [of p rest]
        by (subst redact_pattern_loop.simps) (simp add: ticket_free_def)
    next
      case (Some pos)
      have ne: "p \<noteq> []" using 1 by simp
      have a: "ticket_free (take pos rest)" using find_sub_take [OF Some ne] 1(2) by (simp add: ticket_free_def)
      let ?after = "drop (pos + length p) rest"
      have b: "ticket_free (redact_pattern_loop p (drop (token_end ?after) ?after))"
        using 1(1) [OF ne Some _ ] 1(2) by simp
      show ?thesis using ticket_free_redacted [OF a b] Some ne
        by (subst redact_pattern_loop.simps) (simp add: Let_def)
    qed
  qed
  then show ?thesis by (simp add: redact_pattern_def)
qed

text \<open>Replacing hexadecimal runs creates no ticket prefix.\<close>

lemma ticket_free_part: "ticket_free (a @ b @ c) \<Longrightarrow> ticket_free b"
  unfolding ticket_free_def by (meson sublist_appendI sublist_order.order_trans)

lemma redact_hex_loop_ticket_free:
  "ticket_free (a @ buf @ s) \<Longrightarrow> ticket_free (a @ redact_hex_loop m buf s)"
proof (induction s arbitrary: a buf)
  case Nil
  then show ?case
    using ticket_free_redacted [of a "[]"] ticket_free_part [of "[]" a buf]
    by (auto simp: flush_hex_def ticket_free_def)
next
  case (Cons c cs)
  show ?case
  proof (cases "is_ascii_hexdigit c")
    case True
    then show ?thesis using Cons.IH [of a "buf @ [c]"] Cons.prems by simp
  next
    case False
    have "ticket_free (a @ flush_hex m buf @ c # cs)"
      using ticket_free_redacted [of a "c # cs"] ticket_free_part [of "[]" a "buf @ c # cs"]
        ticket_free_part [of "a @ buf" "c # cs" "[]"] Cons.prems
      by (simp add: flush_hex_def)
    then show ?thesis using Cons.IH [of "a @ flush_hex m buf @ [c]" "[]"] False by simp
  qed
qed

lemma redact_secrets_ticket_free: "ticket_free (redact_secrets s)"
  using redact_hex_loop_ticket_free [of "[]" "[]"] redact_pattern_ticket_free
  by (simp add: redact_secrets_def redact_hex_token_def)

section \<open>No long hexadecimal token survives\<close>

definition hex_runs_below :: "nat \<Rightarrow> str \<Rightarrow> bool" where
  "hex_runs_below n s \<longleftrightarrow> (\<forall>r. sublist r s \<longrightarrow> (\<forall>c\<in>set r. is_ascii_hexdigit c) \<longrightarrow> length r < n)"

lemma hex_runs_below_short: "length s < n \<Longrightarrow> hex_runs_below n s"
  unfolding hex_runs_below_def by (meson le_less_trans sublist_length_le)

lemma hex_runs_below_append:
  assumes "hex_runs_below n a" "hex_runs_below n b"
    and "(a = [] \<or> \<not> is_ascii_hexdigit (last a)) \<or> (b = [] \<or> \<not> is_ascii_hexdigit (hd b))"
  shows "hex_runs_below n (a @ b)"
  unfolding hex_runs_below_def
proof (intro allI impI)
  fix r assume r: "sublist r (a @ b)" "\<forall>c\<in>set r. is_ascii_hexdigit c"
  show "length r < n"
  proof (cases "sublist r a \<or> sublist r b")
    case True
    then show ?thesis using assms(1,2) r(2) by (auto simp: hex_runs_below_def)
  next
    case False
    then obtain u v where uv: "r = u @ v" "u \<noteq> []" "v \<noteq> []" "suffix u a" "prefix v b"
      using sublist_append_cases [OF r(1)] by blast
    have "last u \<in> set r" "hd v \<in> set r" using uv by auto
    then have "is_ascii_hexdigit (last u)" "is_ascii_hexdigit (hd v)" using r(2) by blast+
    moreover have "a \<noteq> []" "last a = last u" "b \<noteq> []" "hd b = hd v"
      using uv by (auto simp: suffix_def prefix_def)
    ultimately show ?thesis using assms(3) by auto
  qed
qed

lemma flush_hex_below: "10 < m \<Longrightarrow> hex_runs_below m (flush_hex m buf)"
  by (auto simp: flush_hex_def intro: hex_runs_below_short)

lemma redact_hex_loop_below:
  assumes "10 < m"
  shows "hex_runs_below m a \<Longrightarrow> (a = [] \<or> \<not> is_ascii_hexdigit (last a)) \<Longrightarrow>
           hex_runs_below m (a @ redact_hex_loop m buf s)"
proof (induction s arbitrary: a buf)
  case Nil
  then show ?case using hex_runs_below_append [OF Nil.prems(1) flush_hex_below [OF assms]] by simp
next
  case (Cons c cs)
  show ?case
  proof (cases "is_ascii_hexdigit c")
    case True
    then show ?thesis using Cons.IH [of a "buf @ [c]"] Cons.prems by simp
  next
    case False
    have 1: "hex_runs_below m (a @ flush_hex m buf)"
      using hex_runs_below_append [OF Cons.prems(1) flush_hex_below [OF assms]] Cons.prems(2) by simp
    have 2: "hex_runs_below m [c]" using assms by (intro hex_runs_below_short) simp
    have "hex_runs_below m ((a @ flush_hex m buf) @ [c])"
      using hex_runs_below_append [OF 1 2] False by simp
    then show ?thesis using Cons.IH [of "a @ flush_hex m buf @ [c]" "[]"] False by simp
  qed
qed

lemma redact_secrets_no_long_hex: "hex_runs_below 32 (redact_secrets s)"
  using redact_hex_loop_below [of 32 "[]"] hex_runs_below_short [of "[]" 32]
  by (simp add: redact_secrets_def redact_hex_token_def MIN_REDACT_HEX_LEN_def)

section \<open>A reference for the redaction of hexadecimal tokens\<close>

text \<open>
  The string cut into its maximal runs of hexadecimal digits and its other characters.
\<close>

function hex_pieces :: "str \<Rightarrow> str list" where
  "hex_pieces [] = []"
| "hex_pieces (c # cs) =
     (if is_ascii_hexdigit c then (c # takeWhile is_ascii_hexdigit cs) # hex_pieces (dropWhile is_ascii_hexdigit cs)
      else [c] # hex_pieces cs)"
  by pat_completeness auto
termination
  by (relation "measure length") (simp_all add: length_dropWhile_le less_Suc_eq_le)

definition redact_piece :: "nat \<Rightarrow> str \<Rightarrow> str" where
  "redact_piece k p = (if list_all is_ascii_hexdigit p \<and> k \<le> length p then ''<redacted>'' else p)"

lemma concat_hex_pieces: "concat (hex_pieces s) = s"
  by (induction s rule: hex_pieces.induct) simp_all

lemma hex_pieces_separate:
  "successively (\<lambda>p q. \<not> (list_all is_ascii_hexdigit p \<and> list_all is_ascii_hexdigit q)) (hex_pieces s)"
proof (induction s rule: hex_pieces.induct)
  case (2 c cs)
  show ?case
  proof (cases "is_ascii_hexdigit c")
    case True
    then show ?thesis using 2(1) hd_dropWhile [of is_ascii_hexdigit cs]
      by (cases "dropWhile is_ascii_hexdigit cs") (auto simp del: dropWhile_eq_Nil_conv)
  next
    case False
    then show ?thesis using 2(2) by (cases "hex_pieces cs") auto
  qed
qed simp

lemma hex_pieces_uniform:
  "list_all (\<lambda>p. p \<noteq> [] \<and> (list_all is_ascii_hexdigit p \<or> length p = 1)) (hex_pieces s)"
  by (induction s rule: hex_pieces.induct) (auto simp: list_all_iff dest: set_takeWhileD)

text \<open>The loop, with a run already collected.\<close>

lemma redact_hex_loop_run:
  "redact_hex_loop k buf s =
     flush_hex k (buf @ takeWhile is_ascii_hexdigit s)
     @ (case dropWhile is_ascii_hexdigit s of [] \<Rightarrow> [] | c # cs \<Rightarrow> c # redact_hex_loop k [] cs)"
  by (induction s arbitrary: buf) simp_all

lemma redact_hex_reference:
  assumes "0 < k"
  shows "redact_hex_token s k = concat (map (redact_piece k) (hex_pieces s))"
proof -
  have flush: "flush_hex k [] = []" using assms by (simp add: flush_hex_def)
  have "redact_hex_loop k [] s = concat (map (redact_piece k) (hex_pieces s))"
  proof (induction s rule: hex_pieces.induct)
    case 1
    then show ?case by (simp add: flush)
  next
    case (2 c cs)
    show ?case
    proof (cases "is_ascii_hexdigit c")
      case True
      have "list_all is_ascii_hexdigit (takeWhile is_ascii_hexdigit cs)"
        by (auto simp: list_all_iff dest: set_takeWhileD)
      then have "flush_hex k (c # takeWhile is_ascii_hexdigit cs) = redact_piece k (c # takeWhile is_ascii_hexdigit cs)"
        using True by (simp add: flush_hex_def redact_piece_def)
      moreover have "(case dropWhile is_ascii_hexdigit cs of [] \<Rightarrow> [] | c # cs \<Rightarrow> c # redact_hex_loop k [] cs)
          = redact_hex_loop k [] (dropWhile is_ascii_hexdigit cs)"
        using hd_dropWhile [of is_ascii_hexdigit cs] by (cases "dropWhile is_ascii_hexdigit cs") (simp_all add: flush del: dropWhile_eq_Nil_conv)
      ultimately show ?thesis using 2(1) True redact_hex_loop_run [of k "[c]" cs] by simp
    next
      case False
      then show ?thesis using 2(2) by (simp add: flush redact_piece_def)
    qed
  qed
  then show ?thesis by (simp add: redact_hex_token_def)
qed

section \<open>The tail\<close>

text \<open>
  The tail is the redaction of the last \<open>n\<close> lines, in their order; a missing log has none.
\<close>

lemma rev_take_rev: "rev (take n (rev xs)) = drop (length xs - n) xs"
  by (simp add: rev_take)

lemma tail_lines_redacted_inv:
  assumes "tail_lines_redacted p n w = (r, w')"
  shows "fs_step w w'" "fs w' = fs w" "r = Inr ls \<Longrightarrow> length ls \<le> n \<and> (\<forall>l\<in>set ls. ticket_free l \<and> hex_runs_below 32 l)"
    "r = Inr ls \<Longrightarrow> ls = [] \<or> (\<exists>b. fst (k_read p (fs w)) = Inr b
        \<and> ls = map redact_secrets (drop (length (str_lines b) - n) (str_lines b)))"
proof -
  obtain e w1 where 1: "path_exists p w = (e, w1)" by fastforce
  note i1 = path_exists_inv [OF 1]
  obtain r2 w2 where 2: "fs_read p w1 = (r2, w2)" by fastforce
  note i2 = fs_read_inv [OF 2]
  have f: "fs_step w w'" "fs w' = fs w"
    using assms 1 2 i1 i2 fs_step_trans [of w w1]
    by (auto simp: tail_lines_redacted_def and_then_def io_err_def split: bool.splits sum.splits if_splits)
  show "fs_step w w'" "fs w' = fs w" by (fact f)+
  assume r: "r = Inr ls"
  have c: "ls = [] \<or> (\<exists>b. r2 = Inr b \<and> ls = rev (map redact_secrets (take n (rev (str_lines b)))))"
    using assms 1 2 r
    by (auto simp: tail_lines_redacted_def and_then_def io_err_def split: bool.splits sum.splits if_splits)
  then show "length ls \<le> n \<and> (\<forall>l\<in>set ls. ticket_free l \<and> hex_runs_below 32 l)"
    using redact_secrets_ticket_free redact_secrets_no_long_hex by auto
  show "ls = [] \<or> (\<exists>b. fst (k_read p (fs w)) = Inr b
        \<and> ls = map redact_secrets (drop (length (str_lines b) - n) (str_lines b)))"
  proof (cases "ls = []")
    case False
    then obtain b where b: "r2 = Inr b" "ls = rev (map redact_secrets (take n (rev (str_lines b))))" using c by blast
    have "fst (k_read p (fs w)) = Inr b" using i2 i1 b(1) by auto
    then show ?thesis using b(2) by (metis rev_map rev_take_rev)
  qed simp
qed

end
