(* ===== verification/Rpc.thy ===== *)
theory Rpc
  imports Redact
begin

text \<open>
  The values that travel over the daemon's Unix socket: the JSON values the handlers build, the
  request and the response of \<open>src/src/daemon/listener.rs\<close>, and the text of an error
  (\<open>{e:#}\<close>).  Parsing and printing JSON is \<open>serde_json\<close>, a parameter.
\<close>

datatype json =
    JNull
  | JBool bool
  | JInt int
  | JStr str
  | JArr "json list"
  | JObj "(str \<times> json) list"

fun json_get :: "str \<Rightarrow> json \<Rightarrow> json option" where
  "json_get k (JObj kvs) = map_of kvs k"
| "json_get k _ = None"

text \<open>A \<open>PathBuf\<close> serializes only when it is UTF-8.\<close>

definition json_path :: "path \<Rightarrow> json option" where
  "json_path p = (if utf8_valid (display p) then Some (JStr (display p)) else None)"

definition json_opt :: "('a \<Rightarrow> json) \<Rightarrow> 'a option \<Rightarrow> json" where
  "json_opt f v = (case v of None \<Rightarrow> JNull | Some x \<Rightarrow> f x)"

record rpc_request =
  rq_method :: str
  rq_params :: json

record rpc_response =
  rr_result :: "json option"
  rr_error :: "str option"

definition rpc_ok :: "json \<Rightarrow> rpc_response" where
  "rpc_ok result = \<lparr>rr_result = Some result, rr_error = None\<rparr>"

definition rpc_err :: "str \<Rightarrow> rpc_response" where
  "rpc_err msg = \<lparr>rr_result = None, rr_error = Some msg\<rparr>"

lemma rpc_response_simps [simp]:
  "rr_result (rpc_ok j) = Some j" "rr_error (rpc_ok j) = None"
  "rr_result (rpc_err e) = None" "rr_error (rpc_err e) = Some e"
  "rpc_ok j \<noteq> rpc_err e" "rpc_err e \<noteq> rpc_ok j"
  "rpc_ok j = rpc_ok j' \<longleftrightarrow> j = j'" "rpc_err e = rpc_err e' \<longleftrightarrow> e = e'"
  by (auto simp: rpc_ok_def rpc_err_def)

text \<open>
  The parameters of the \<open>sync.*\<close> methods, as the derived \<open>Deserialize\<close> of their parameter structs
  reads them, and the text of an \<open>io::Error\<close>.
\<close>

record 'b rpc_api =
  rp_peer :: "'b peer_api"
  rp_allow_codec :: allowlist_codec
  rp_boot_codec :: bootstrap_codec
  rp_addr :: "'b \<Rightarrow> endpoint_addr"
  rp_accept_params :: "json \<Rightarrow> str + str \<times> str option"
  rp_allow_params :: "json \<Rightarrow> str + str \<times> str option"
  rp_revoke_params :: "json \<Rightarrow> str + str"
  rp_limit_params :: "json \<Rightarrow> str + nat option"
  rp_lines_params :: "json \<Rightarrow> str + nat option"
  rp_entry_json :: "pending_entry \<Rightarrow> json"
  rp_show_io :: "io_kind \<Rightarrow> str"

text \<open>\<open>{e:#}\<close>: the chain of contexts, outermost first.\<close>

fun err_display :: "(io_kind \<Rightarrow> str) \<Rightarrow> err \<Rightarrow> str" where
  "err_display io (Msg s) = s"
| "err_display io (Io k) = io k"
| "err_display io (Ctx c e) = c @ '': '' @ err_display io e"

definition rpc_api_ok :: "'b rpc_api \<Rightarrow> bool" where
  "rpc_api_ok rp \<longleftrightarrow>
     peer_api_ok (rp_peer rp) \<and> allowlist_codec_ok (rp_allow_codec rp) \<and> bootstrap_codec_ok (rp_boot_codec rp)"

lemma rpc_api_okD:
  "rpc_api_ok rp \<Longrightarrow> peer_api_ok (rp_peer rp)" "rpc_api_ok rp \<Longrightarrow> allowlist_codec_ok (rp_allow_codec rp)"
  "rpc_api_ok rp \<Longrightarrow> bootstrap_codec_ok (rp_boot_codec rp)"
  by (simp_all add: rpc_api_ok_def)

end
