(* ===== verification/Dispatch.thy ===== *)
theory Dispatch
  imports Rpc
begin

text \<open>
  \<open>src/src/daemon/dispatch.rs\<close> and \<open>run_health_check\<close> of \<open>src/src/lib.rs\<close>: the nine \<open>sync.*\<close>
  methods over a daemon.  A handler returns its result with the new state of the daemon; a panic
  (\<open>json!\<close> on a path that is not UTF-8) is \<open>None\<close>.
\<close>

section \<open>The health check\<close>

record health_info_static =
  hs_key_path :: path
  hs_key_exists :: bool
  hs_blobs_dir :: path
  hs_pending_dir :: path
  hs_watched_dir :: "path option"
  hs_watched_dir_exists :: bool

record health_info_dynamic =
  hd_peer_count :: "32 word"
  hd_open_all :: bool
  hd_uptime_secs :: nat
  hd_group_initialized :: bool
  hd_gossip_subscribed :: bool
  hd_restart_required :: bool

record health_info =
  hi_static :: health_info_static
  hi_dynamic :: "health_info_dynamic option"

text \<open>
  The daemon state of the code includes the allowlist, which a node holds beside it.
\<close>

definition health_dynamic :: "nat \<Rightarrow> 'g daemon_state \<times> allow_list \<Rightarrow> health_info_dynamic" where
  "health_dynamic now s =
     (let status = current_runtime_status (fst s) in
      \<lparr>hd_peer_count = word_of_nat (al_len (snd s)), hd_open_all = is_open_all (snd s),
       hd_uptime_secs = uptime_secs now (fst s), hd_group_initialized = group_initialized status,
       hd_gossip_subscribed = gossip_subscribed status, hd_restart_required = restart_required status\<rparr>)"

definition run_health_check ::
  "env \<Rightarrow> ('g daemon_state \<times> allow_list) option \<Rightarrow> 'z world_scheme \<Rightarrow> (err + health_info) \<times> 'z world_scheme" where
  "run_health_check env daemon_state w =
     (case (case daemon_state of
              Some s \<Rightarrow>
                Inr (key_path (ds_paths (fst s)), blobs_dir (ds_paths (fst s)),
                     pt_pending_root (ds_pending (fst s)), Some (watched_dir_canonical (ds_paths (fst s))))
            | None \<Rightarrow>
                res_bind (default_key_path env) (\<lambda>k.
                res_bind (default_blobs_dir env) (\<lambda>b.
                res_bind (default_pending_dir env) (\<lambda>p. Inr (k, b, p, None))))) of
        Inl e \<Rightarrow> (Inl e, w)
      | Inr (kp, bd, pd, watched_dir) \<Rightarrow>
          (case path_exists kp w of
             (key_exists, w1) \<Rightarrow>
               (case (case watched_dir of None \<Rightarrow> (False, w1) | Some p \<Rightarrow> path_exists p w1) of
                  (watched_dir_exists, w2) \<Rightarrow>
                    (Inr \<lparr>hi_static = \<lparr>hs_key_path = kp, hs_key_exists = key_exists, hs_blobs_dir = bd,
                                      hs_pending_dir = pd, hs_watched_dir = watched_dir,
                                      hs_watched_dir_exists = watched_dir_exists\<rparr>,
                          hi_dynamic = map_option (health_dynamic (mono_ms w2)) daemon_state\<rparr>, w2))))"

text \<open>
  The derived \<open>Serialize\<close>: the static fields at the top level, \<open>dynamic_info\<close> nested.
\<close>

definition dynamic_json :: "health_info_dynamic \<Rightarrow> json" where
  "dynamic_json d =
     JObj [(''peer_count'', JInt (uint (hd_peer_count d))), (''open_all'', JBool (hd_open_all d)),
           (''uptime_secs'', JInt (int (hd_uptime_secs d))),
           (''group_initialized'', JBool (hd_group_initialized d)),
           (''gossip_subscribed'', JBool (hd_gossip_subscribed d)),
           (''restart_required'', JBool (hd_restart_required d))]"

definition health_info_json :: "health_info \<Rightarrow> json option" where
  "health_info_json h =
     (let s = hi_static h in
      case (json_path (hs_key_path s), json_path (hs_blobs_dir s), json_path (hs_pending_dir s),
            (case hs_watched_dir s of None \<Rightarrow> Some JNull | Some p \<Rightarrow> json_path p)) of
        (Some k, Some b, Some p, Some wd) \<Rightarrow>
          Some (JObj [(''key_path'', k), (''key_exists'', JBool (hs_key_exists s)), (''blobs_dir'', b),
                      (''pending_dir'', p), (''watched_dir'', wd),
                      (''watched_dir_exists'', JBool (hs_watched_dir_exists s)),
                      (''dynamic_info'', json_opt dynamic_json (hi_dynamic h))])
      | _ \<Rightarrow> None)"

section \<open>The handlers\<close>

text \<open>The daemon's own state in a node, and an allowlist operation on the node's allowlist.\<close>

abbreviation daemon_of :: "('b, 'g) daemon \<Rightarrow> 'g daemon_state" where
  "daemon_of n \<equiv> peer_node.more n"

abbreviation paths_of :: "('b, 'g) daemon \<Rightarrow> daemon_paths" where
  "paths_of n \<equiv> ds_paths (peer_node.more n)"

abbreviation status_of :: "('b, 'g) daemon \<Rightarrow> runtime_status" where
  "status_of n \<equiv> current_runtime_status (peer_node.more n)"

definition on_allowlist ::
  "(allow_list \<Rightarrow> ('b, 'z) peer_node_scheme \<Rightarrow> (err + 'a) \<times> allow_list \<times> ('b, 'z) peer_node_scheme)
     \<Rightarrow> ('b, 'z) peer_node_scheme \<Rightarrow> (err + 'a) \<times> ('b, 'z) peer_node_scheme" where
  "on_allowlist f n = (case f (allow n) n of (r, al, n1) \<Rightarrow> (r, n1\<lparr>allow := al\<rparr>))"

definition rpc_health_check :: "env \<Rightarrow> ('b, 'g) daemon \<Rightarrow> (err + json) \<times> ('b, 'g) daemon" where
  "rpc_health_check env n =
     and_then (with_context ''run_health_check'' (run_health_check env (Some (daemon_of n, allow n)) n)) (\<lambda>info n1.
       (case health_info_json info of
          None \<Rightarrow> (Inl (Ctx ''serialize HealthInfo'' (Msg ''path contains invalid UTF-8 characters'')), n1)
        | Some j \<Rightarrow> (Inr j, n1)))"

definition rpc_status :: "'b rpc_api \<Rightarrow> ('b, 'g) daemon \<Rightarrow> (err + json) option \<times> ('b, 'g) daemon" where
  "rpc_status rp n =
     (let status = status_of n in
      case list_pending (pa_pending (rp_peer rp)) (pt_pending_root (ds_pending (daemon_of n)))
             (pt_repo_hash (ds_pending (daemon_of n))) n of
        (pending, n1) \<Rightarrow>
          (let pending_count = (case pending of Inl _ \<Rightarrow> 0 | Inr v \<Rightarrow> length v) in
           case json_path (watched_dir_canonical (paths_of n)) of
             None \<Rightarrow> (None, n1)
           | Some wd \<Rightarrow>
               (case path_exists (key_path (paths_of n)) n1 of
                  (key_exists, n2) \<Rightarrow>
                    (Some (Inr (JObj
                       [(''watched_dir'', wd),
                        (''peer_count'', JInt (uint (word_of_nat (al_len (allow n)) :: 32 word))),
                        (''open_all'', JBool (is_open_all (allow n))),
                        (''recent_pending_count'', JInt (int pending_count)),
                        (''key_exists'', JBool key_exists),
                        (''uptime_secs'', JInt (int (uptime_secs (mono_ms n) (daemon_of n)))),
                        (''group_initialized'', JBool (group_initialized status)),
                        (''gossip_subscribed'', JBool (gossip_subscribed status)),
                        (''restart_required'', JBool (restart_required status))])), n2))))"

text \<open>\<open>rnd\<close> is what the system's random generator returns.\<close>

definition folder_secret_for_invite ::
  "tempfile_api \<Rightarrow> bytes \<Rightarrow> ('b, 'g) daemon \<Rightarrow> (err + bytes) \<times> ('b, 'g) daemon" where
  "folder_secret_for_invite tf rnd n =
     and_then (try_load_folder_secret (folder_secret_path (paths_of n)) n) (\<lambda>cur n1.
       case cur of
         Some s \<Rightarrow> (Inr s, n1)
       | None \<Rightarrow>
           and_then (generate_and_persist_folder_secret rnd tf (folder_secret_path (paths_of n)) n1) (\<lambda>s n2.
             (Inr s, peer_node.more_update enter_initialized_but_not_subscribed n2)))"

definition rpc_invite ::
  "'b rpc_api \<Rightarrow> bytes \<Rightarrow> ('b, 'g) daemon \<Rightarrow> (err + json) \<times> ('b, 'g) daemon" where
  "rpc_invite rp rnd n =
     and_then (folder_secret_for_invite (pa_tempfile (rp_peer rp)) rnd n) (\<lambda>folder_secret n1.
       case encode (pa_codec (rp_peer rp)) (ticket_new (rp_addr rp (blobs n1)) folder_secret) of
         Inl e \<Rightarrow> (Inl e, n1)
       | Inr ticket \<Rightarrow>
           (Inr (JObj [(''ticket'', JStr ticket),
                       (''restart_required'', JBool (restart_required (status_of n1)))]), n1))"

definition adopt_folder_secret ::
  "tempfile_api \<Rightarrow> bytes \<Rightarrow> ('b, 'g) daemon \<Rightarrow> (err + unit) \<times> ('b, 'g) daemon" where
  "adopt_folder_secret tf secret n =
     (let p = folder_secret_path (paths_of n) in
      and_then (try_load_folder_secret p n) (\<lambda>cur n1.
        case cur of
          None \<Rightarrow>
            and_then (persist_folder_secret tf p secret n1) (\<lambda>_ n2.
              (Inr (), peer_node.more_update enter_initialized_but_not_subscribed n2))
        | Some existing \<Rightarrow>
            if existing = secret then (Inr (), n1)
            else (Inl (Msg (''this daemon is already initialized with a different folder_secret; delete ''
                            @ display p @ '' to reset'')), n1)))"

definition rpc_accept_invite ::
  "'b rpc_api \<Rightarrow> json \<Rightarrow> ('b, 'g) daemon \<Rightarrow> (err + json) \<times> ('b, 'g) daemon" where
  "rpc_accept_invite rp params n =
     (case ctx ''parse accept-invite params'' (rp_accept_params rp params) of
        Inl e \<Rightarrow> (Inl e, n)
      | Inr (ticket, label) \<Rightarrow>
          (case decode (pa_codec (rp_peer rp)) ticket of
             Inl e \<Rightarrow> (Inl e, n)
           | Inr invite \<Rightarrow>
               (let inviter_addr = it_endpoint invite;
                    inviter_id = addr_id inviter_addr;
                    tf = pa_tempfile (rp_peer rp);
                    ids = pa_ids (rp_peer rp) in
                and_then (adopt_folder_secret tf (it_folder_secret invite) n) (\<lambda>_ n1.
                and_then (on_allowlist (add_and_save ids (rp_allow_codec rp) tf inviter_id
                            (peer_info_new label (epoch_secs n1)) (allowlist_path (paths_of n1))) n1) (\<lambda>_ n2.
                and_then (with_context (''persist inviter addr to '' @ display (bootstrap_peers_path (paths_of n2)))
                            (add_or_replace (rp_boot_codec rp) tf (bootstrap_peers_path (paths_of n2)) inviter_addr n2)) (\<lambda>_ n3.
                  (Inr (JObj [(''peer_id'', JStr (id_to_string ids inviter_id)),
                              (''label'', json_opt JStr label),
                              (''my_peer_id'', JStr (id_to_string ids (self_endpoint_id (daemon_of n3)))),
                              (''restart_required'', JBool (restart_required (status_of n3)))]), n3)))))))"

definition parse_peer_id :: "id_api \<Rightarrow> str \<Rightarrow> err + endpoint_id" where
  "parse_peer_id ids s =
     (case id_from_str ids s of
        Inl e \<Rightarrow> Inl (Msg (''invalid peer_id '' @ [CHR 0x27] @ s @ [CHR 0x27] @ '': '' @ e))
      | Inr i \<Rightarrow> Inr i)"

definition rpc_allow_peer ::
  "'b rpc_api \<Rightarrow> json \<Rightarrow> ('b, 'g) daemon \<Rightarrow> (err + json) \<times> ('b, 'g) daemon" where
  "rpc_allow_peer rp params n =
     (case ctx ''parse allow-peer params'' (rp_allow_params rp params) of
        Inl e \<Rightarrow> (Inl e, n)
      | Inr (pid, label) \<Rightarrow>
          (case parse_peer_id (pa_ids (rp_peer rp)) pid of
             Inl e \<Rightarrow> (Inl e, n)
           | Inr i \<Rightarrow>
               (let already_in = al_contains (allow n) i \<and> \<not> is_open_all (allow n);
                    added = (\<not> already_in) in
                and_then (if added then
                            on_allowlist (add_and_save (pa_ids (rp_peer rp)) (rp_allow_codec rp) (pa_tempfile (rp_peer rp))
                              i (peer_info_new label (epoch_secs n)) (allowlist_path (paths_of n))) n
                          else (Inr (), n)) (\<lambda>_ n1.
                  (Inr (JObj [(''added'', JBool added), (''peer_id'', JStr pid), (''label'', json_opt JStr label)]), n1)))))"

definition peer_json ::
  "id_api \<Rightarrow> (endpoint_id \<times> int) list \<Rightarrow> endpoint_id \<times> peer_info \<Rightarrow> json" where
  "peer_json ids seen kv =
     JObj [(''peer_id'', JStr (id_to_string ids (fst kv))), (''label'', json_opt JStr (pi_label (snd kv))),
           (''added_at'', JInt (pi_added_at (snd kv))),
           (''last_seen_at'', json_opt JInt (map_of seen (fst kv)))]"

definition rpc_list_peers :: "'b rpc_api \<Rightarrow> ('b, 'g) daemon \<Rightarrow> (err + json) \<times> ('b, 'g) daemon" where
  "rpc_list_peers rp n =
     (Inr (JObj [(''peers'', JArr (map (peer_json (pa_ids (rp_peer rp)) (last_seen_at (daemon_of n))) (al_list (allow n)))),
                 (''open_all'', JBool (is_open_all (allow n)))]), n)"

definition rpc_revoke ::
  "'b rpc_api \<Rightarrow> json \<Rightarrow> ('b, 'g) daemon \<Rightarrow> (err + json) \<times> ('b, 'g) daemon" where
  "rpc_revoke rp params n =
     (case ctx ''parse revoke params'' (rp_revoke_params rp params) of
        Inl e \<Rightarrow> (Inl e, n)
      | Inr pid \<Rightarrow>
          (case parse_peer_id (pa_ids (rp_peer rp)) pid of
             Inl e \<Rightarrow> (Inl e, n)
           | Inr i \<Rightarrow>
               and_then (on_allowlist (remove_and_save (pa_ids (rp_peer rp)) (rp_allow_codec rp)
                           (pa_tempfile (rp_peer rp)) i (allowlist_path (paths_of n))) n) (\<lambda>removed n1.
                 (Inr (JObj [(''removed'', JBool (removed \<noteq> None)), (''peer_id'', JStr pid)]), n1))))"

definition rpc_list_pending ::
  "'b rpc_api \<Rightarrow> json \<Rightarrow> ('b, 'g) daemon \<Rightarrow> (err + json) \<times> ('b, 'g) daemon" where
  "rpc_list_pending rp params n =
     (let limit = (case rp_limit_params rp params of Inl _ \<Rightarrow> None | Inr l \<Rightarrow> l) in
      and_then (list_pending (pa_pending (rp_peer rp)) (pt_pending_root (ds_pending (daemon_of n)))
                  (pt_repo_hash (ds_pending (daemon_of n))) n) (\<lambda>entries n1.
        (Inr (JObj [(''entries'', JArr (map (rp_entry_json rp)
                (case limit of None \<Rightarrow> entries | Some k \<Rightarrow> take k entries)))]), n1)))"

definition rpc_recent_log ::
  "'b rpc_api \<Rightarrow> json \<Rightarrow> ('b, 'g) daemon \<Rightarrow> (err + json) \<times> ('b, 'g) daemon" where
  "rpc_recent_log rp params n =
     (let lines = (case rp_lines_params rp params of Inl _ \<Rightarrow> None | Inr l \<Rightarrow> l);
          lines_cap = min (case lines of None \<Rightarrow> 50 | Some k \<Rightarrow> k) 100 in
      and_then (tail_lines_redacted (log_path (paths_of n)) lines_cap n) (\<lambda>ls n1.
        (Inr (JObj [(''lines'', JArr (map JStr ls))]), n1)))"

section \<open>Dispatch\<close>

definition rpc_handler ::
  "'b rpc_api \<Rightarrow> env \<Rightarrow> bytes \<Rightarrow> rpc_request \<Rightarrow> ('b, 'g) daemon \<Rightarrow> (err + json) option \<times> ('b, 'g) daemon" where
  "rpc_handler rp env rnd req n =
     (let m = rq_method req;
          run = apfst Some in
      if m = ''sync.health-check'' then run (rpc_health_check env n)
      else if m = ''sync.status'' then rpc_status rp n
      else if m = ''sync.invite'' then run (rpc_invite rp rnd n)
      else if m = ''sync.accept-invite'' then run (rpc_accept_invite rp (rq_params req) n)
      else if m = ''sync.allow-peer'' then run (rpc_allow_peer rp (rq_params req) n)
      else if m = ''sync.list-peers'' then run (rpc_list_peers rp n)
      else if m = ''sync.revoke'' then run (rpc_revoke rp (rq_params req) n)
      else if m = ''sync.list-pending'' then run (rpc_list_pending rp (rq_params req) n)
      else if m = ''sync.recent-log'' then run (rpc_recent_log rp (rq_params req) n)
      else (Some (Inl (Msg (''unknown method: '' @ m))), n))"

definition rpc_dispatch ::
  "'b rpc_api \<Rightarrow> env \<Rightarrow> bytes \<Rightarrow> rpc_request \<Rightarrow> ('b, 'g) daemon \<Rightarrow> rpc_response option \<times> ('b, 'g) daemon" where
  "rpc_dispatch rp env rnd req n =
     (case rpc_handler rp env rnd req n of
        (None, n1) \<Rightarrow> (None, n1)
      | (Some (Inr v), n1) \<Rightarrow> (Some (rpc_ok v), n1)
      | (Some (Inl e), n1) \<Rightarrow> (Some (rpc_err (err_display (rp_show_io rp) e)), n1))"

end
