(* ===== verification/Dispatch_Laws.thy ===== *)
theory Dispatch_Laws
  imports Dispatch
begin

text \<open>
  What the \<open>sync.*\<close> methods do to a daemon: which methods change nothing, what the others leave
  alone, and the contract of invite, accept-invite, allow-peer and revoke over the three private
  files.
\<close>

section \<open>Steps of the file system only\<close>

lemma and_then_fs_step:
  assumes "fs_step w (snd res)" "\<And>x w1. fs_step w1 (snd (k x w1))"
  shows "fs_step w (snd (and_then res k))"
proof (cases res)
  case (Pair r1 w1)
  show ?thesis
  proof (cases r1)
    case (Inl e)
    then show ?thesis using assms(1) Pair by simp
  next
    case (Inr x)
    then show ?thesis using fs_step_trans [of w w1 "snd (k x w1)"] assms Pair by simp
  qed
qed

lemma io_err_snd [simp]: "snd (io_err c res) = snd res"
  by (auto simp: io_err_def split: prod.splits sum.splits)

lemma with_context_snd [simp]: "snd (with_context c res) = snd res"
  by (auto simp: with_context_def split: prod.splits sum.splits)

lemma with_context_Inr_iff: "with_context c res = (Inr x, w) \<longleftrightarrow> res = (Inr x, w)"
  by (auto simp: with_context_def split: prod.splits sum.splits)

lemma syscall_snd_fs_step: "fs_step w (snd (syscall op w))"
  using syscall_fs_step by (metis prod.collapse)

lemma ensure_dir_700_fs_step: "fs_step w (snd (ensure_dir_700 d w))"
proof -
  have "fs_step w (snd (create_dir_all d w))" using create_dir_all_fs_step by (metis prod.collapse)
  then show ?thesis
    unfolding ensure_dir_700_def metadata_def set_permissions_def
    by (intro and_then_fs_step) (auto simp: syscall_snd_fs_step)
qed

lemma ensure_parent_700_fs_step: "fs_step w (snd (ensure_parent_700 p w))"
  by (auto simp: ensure_parent_700_def ensure_dir_700_fs_step split: option.splits)

lemma write_via_tempfile_snd_fs_step: "fs_step w (snd (write_via_tempfile tf d pre md b t w))"
  using write_via_tempfile_fs_step by (metis prod.collapse)

lemma write_case_fs_step:
  "fs_step w (snd (case write_via_tempfile tf d pre md b t w of (Inl e, w1) \<Rightarrow> (Inl (g e), w1) | (Inr _, w1) \<Rightarrow> (Inr (), w1)))"
  using write_via_tempfile_snd_fs_step [of w tf d pre md b t] by (auto split: prod.splits sum.splits)

lemma atomic_write_fs_step: "fs_step w (snd (atomic_write_0o600 tf p b w))"
  by (auto simp: atomic_write_0o600_def write_case_fs_step split: option.splits)

lemma persist_folder_secret_fs_step: "fs_step w (snd (persist_folder_secret tf p s w))"
  unfolding persist_folder_secret_def
  by (rule and_then_fs_step [OF ensure_parent_700_fs_step atomic_write_fs_step])

lemma write_atomic_fs_step: "fs_step w (snd (write_atomic_0o600 tf p b w))"
  unfolding write_atomic_0o600_def
  by (rule and_then_fs_step [OF ensure_parent_700_fs_step])
    (auto simp: write_case_fs_step split: option.splits)

lemma save_bootstrap_fs_step: "fs_step w (snd (save_bootstrap_peers a tf p ps w))"
  unfolding save_bootstrap_peers_def
  by (rule and_then_fs_step [OF ensure_parent_700_fs_step])
    (auto simp: write_case_fs_step split: option.splits sum.splits)

lemma fs_read_fs_step: "fs_step w (snd (fs_read p w))"
  by (simp add: fs_read_def syscall_snd_fs_step)

lemma load_bootstrap_fs_step: "fs_step w (snd (load_bootstrap_peers a p w))"
  using fs_read_fs_step [of w p] by (auto simp: load_bootstrap_peers_def split: prod.splits sum.splits)

lemma try_load_folder_secret_fs_step: "fs_step w (snd (try_load_folder_secret p w))"
  using fs_read_fs_step [of w p] by (auto simp: try_load_folder_secret_def split: prod.splits sum.splits)

lemma try_load_folder_secret_inv:
  assumes "try_load_folder_secret p w = (r, w')"
  shows "fs_step w w'" "fs w' = fs w" "r = Inr (Some s) \<Longrightarrow> length s = 16 \<and> fst (k_read p (fs w)) = Inr s"
    "r = Inr None \<Longrightarrow> fst (k_read p (fs w)) = Inl NotFound"
proof -
  obtain r1 w1 where 1: "fs_read p w = (r1, w1)" by fastforce
  note i = fs_read_inv [OF 1]
  show "fs_step w w'" "fs w' = fs w" "r = Inr (Some s) \<Longrightarrow> length s = 16 \<and> fst (k_read p (fs w)) = Inr s"
    "r = Inr None \<Longrightarrow> fst (k_read p (fs w)) = Inl NotFound"
    using assms 1 i
    by (auto simp: try_load_folder_secret_def FOLDER_SECRET_BYTES_def split: sum.splits if_splits)
qed

lemma add_or_replace_fs_step: "fs_step w (snd (add_or_replace a tf p x w))"
  unfolding add_or_replace_def
  by (rule and_then_fs_step [OF load_bootstrap_fs_step save_bootstrap_fs_step])

lemma add_and_save_fs_step: "fs_step w (snd (snd (add_and_save ids a tf i info p al w)))"
  using write_atomic_fs_step [of w tf p] by (auto simp: add_and_save_def split: prod.splits sum.splits) (metis snd_conv)+

lemma remove_and_save_fs_step: "fs_step w (snd (snd (remove_and_save ids a tf i p al w)))"
  using write_atomic_fs_step [of w tf p] by (auto simp: remove_and_save_def split: prod.splits sum.splits) (metis snd_conv)+

section \<open>What every request leaves alone\<close>

text \<open>
  Whatever the foreign functions do: a request never touches the blob store, the registries of the
  synchronisation or the clocks, and the daemon's own state only by entering
  \<open>InitializedButNotSubscribed\<close>.
\<close>

definition rpc_frame :: "('b, 'g) daemon \<Rightarrow> ('b, 'g) daemon \<Rightarrow> bool" where
  "rpc_frame n n' \<longleftrightarrow>
     blobs n' = blobs n \<and> sync n' = sync n \<and> umask n' = umask n \<and> mono_ms n' = mono_ms n \<and> sys_time n' = sys_time n
     \<and> (al_open_all (allow n') \<longrightarrow> al_open_all (allow n))
     \<and> (daemon_of n' = daemon_of n \<or> daemon_of n' = enter_initialized_but_not_subscribed (daemon_of n))"

lemma enter_twice [simp]:
  "enter_initialized_but_not_subscribed (enter_initialized_but_not_subscribed ds) = enter_initialized_but_not_subscribed ds"
  by (simp add: enter_initialized_but_not_subscribed_def)

lemma rpc_frame_refl [simp]: "rpc_frame n n"
  by (simp add: rpc_frame_def)

lemma rpc_frame_trans: "rpc_frame n n1 \<Longrightarrow> rpc_frame n1 n2 \<Longrightarrow> rpc_frame n n2"
  by (auto simp: rpc_frame_def)

lemma fs_step_rpc_frame: "fs_step n n' \<Longrightarrow> rpc_frame n n'"
  using fs_step_node [of n n'] fs_step_fields [of n n'] by (simp add: rpc_frame_def)

lemma and_then_frame:
  assumes "rpc_frame n (snd res)" "\<And>x n1. rpc_frame n1 (snd (k x n1))"
  shows "rpc_frame n (snd (and_then res k))"
  using assms rpc_frame_trans by (cases res; cases "fst res") fastforce+

lemma rpc_frame_initialized:
  "rpc_frame n n1 \<Longrightarrow> rpc_frame n (peer_node.more_update enter_initialized_but_not_subscribed n1)"
  by (auto simp: rpc_frame_def)

lemma on_allowlist_frame:
  assumes "fs_step n (snd (snd (f (allow n) n)))" "al_open_all (fst (snd (f (allow n) n))) \<longrightarrow> al_open_all (allow n)"
  shows "rpc_frame n (snd (on_allowlist f n))"
proof -
  obtain r al n1 where f: "f (allow n) n = (r, al, n1)" by (cases "f (allow n) n") auto
  then show ?thesis using assms fs_step_node [of n n1] fs_step_fields [of n n1]
    by (simp add: on_allowlist_def rpc_frame_def)
qed

lemma add_and_save_frame: "rpc_frame n (snd (on_allowlist (add_and_save ids a tf i info p) n))"
  using open_all_irreversible(3) by (intro on_allowlist_frame add_and_save_fs_step) blast

lemma remove_and_save_frame: "rpc_frame n (snd (on_allowlist (remove_and_save ids a tf i p) n))"
  using open_all_irreversible(4) by (intro on_allowlist_frame remove_and_save_fs_step) blast

lemma add_or_replace_frame: "rpc_frame n (snd (add_or_replace a tf p x n))"
  by (rule fs_step_rpc_frame [OF add_or_replace_fs_step])

lemma folder_secret_for_invite_frame: "rpc_frame n (snd (folder_secret_for_invite tf rnd n))"
  unfolding folder_secret_for_invite_def
proof (rule and_then_frame)
  show "rpc_frame n (snd (try_load_folder_secret (folder_secret_path (paths_of n)) n))"
    by (rule fs_step_rpc_frame [OF try_load_folder_secret_fs_step])
  fix x :: "bytes option" and n1 :: "('a, 'b) daemon"
  have "rpc_frame n1 (snd (generate_and_persist_folder_secret rnd tf p n1))" for p
    unfolding generate_eq by (intro fs_step_rpc_frame and_then_fs_step persist_folder_secret_fs_step) simp
  then have "rpc_frame n1 (snd (and_then (generate_and_persist_folder_secret rnd tf p n1)
      (\<lambda>s n2. (Inr s, peer_node.more_update enter_initialized_but_not_subscribed n2))))" for p
    by (rule and_then_frame) (simp add: rpc_frame_initialized)
  then show "rpc_frame n1 (snd (case x of
      None \<Rightarrow> and_then (generate_and_persist_folder_secret rnd tf (folder_secret_path (paths_of n)) n1)
                (\<lambda>s n2. (Inr s, peer_node.more_update enter_initialized_but_not_subscribed n2))
    | Some s \<Rightarrow> (Inr s, n1)))"
    by (cases x) auto
qed

lemma adopt_folder_secret_frame: "rpc_frame n (snd (adopt_folder_secret tf s n))"
  unfolding adopt_folder_secret_def Let_def
proof (rule and_then_frame)
  show "rpc_frame n (snd (try_load_folder_secret (folder_secret_path (paths_of n)) n))"
    by (rule fs_step_rpc_frame [OF try_load_folder_secret_fs_step])
  fix x :: "bytes option" and n1 :: "('a, 'b) daemon"
  have "rpc_frame n1 (snd (and_then (persist_folder_secret tf p s n1)
      (\<lambda>_ n2. (Inr (), peer_node.more_update enter_initialized_but_not_subscribed n2))))" for p
    by (rule and_then_frame [OF fs_step_rpc_frame [OF persist_folder_secret_fs_step]])
      (simp add: rpc_frame_initialized)
  then show "rpc_frame n1 (snd (case x of
      None \<Rightarrow> and_then (persist_folder_secret tf (folder_secret_path (paths_of n)) s n1)
                (\<lambda>_ n2. (Inr (), peer_node.more_update enter_initialized_but_not_subscribed n2))
    | Some existing \<Rightarrow>
        if existing = s then (Inr (), n1)
        else (Inl (Msg (''this daemon is already initialized with a different folder_secret; delete ''
                        @ display (folder_secret_path (paths_of n)) @ '' to reset'')), n1)))"
    by (cases x) auto
qed

section \<open>The methods that only read\<close>

definition read_only :: "'z world_scheme \<Rightarrow> 'z world_scheme \<Rightarrow> bool" where
  "read_only w w' \<longleftrightarrow> fs_step w w' \<and> fs w' = fs w"

lemma read_only_refl [simp]: "read_only w w"
  by (simp add: read_only_def)

lemma read_only_trans: "read_only w w1 \<Longrightarrow> read_only w1 w2 \<Longrightarrow> read_only w w2"
  using fs_step_trans [of w w1 w2] by (simp add: read_only_def)

lemma read_only_node:
  "read_only n n' \<Longrightarrow> fs n' = fs n \<and> allow n' = allow n \<and> daemon_of n' = daemon_of n \<and> rpc_frame n n'"
  using fs_step_node [of n n'] fs_step_rpc_frame [of n n'] by (simp add: read_only_def)

lemma and_then_read_only:
  "read_only w (snd res) \<Longrightarrow> (\<And>x w1. read_only w1 (snd (k x w1))) \<Longrightarrow> read_only w (snd (and_then res k))"
  using read_only_trans by (cases res; cases "fst res") fastforce+

lemma path_exists_read_only: "read_only w (snd (path_exists p w))"
  using path_exists_inv [of p w] by (simp add: read_only_def) (metis prod.collapse)

lemma fs_read_read_only: "read_only w (snd (fs_read p w))"
  using fs_read_inv [of p w] by (simp add: read_only_def) (metis prod.collapse)

lemma read_dir_read_only: "read_only w (snd (read_dir p w))"
  using syscall_readonly(1,2) [of "k_read_dir p" w] by (simp add: read_only_def read_dir_def) (metis prod.collapse)

lemma list_pending_loop_read_only: "read_only w (snd (list_pending_loop a dir ns es w))"
proof (induction ns arbitrary: es w)
  case (Cons n ns)
  obtain r w1 where 1: "fs_read (dir @ [n]) w = (r, w1)" by fastforce
  then have "read_only w w1" using fs_read_read_only [of w "dir @ [n]"] by simp
  then have "read_only w (snd (list_pending_loop a dir ns es' w1))" for es'
    using read_only_trans [OF _ Cons.IH] by blast
  then show ?case using 1 Cons.IH \<open>read_only w w1\<close> by (auto split: sum.splits)
qed simp

lemma list_pending_read_only: "read_only w (snd (list_pending a root rh w))"
proof -
  have e: "read_only w w1" if "path_exists (path_join root rh) w = (b, w1)" for b w1
    using that path_exists_read_only [of w "path_join root rh"] by simp
  have k: "read_only w1 (snd (and_then (io_err c (read_dir d w1)) (\<lambda>ns w2.
      and_then (list_pending_loop a d ns [] w2) (\<lambda>entries w3. (Inr (f entries), w3)))))"
    for c d f and w1 :: "'a world_scheme"
    by (intro and_then_read_only) (auto simp: read_dir_read_only list_pending_loop_read_only)
  obtain b w1 where 1: "path_exists (path_join root rh) w = (b, w1)" by fastforce
  show ?thesis
  proof (cases b)
    case True
    then show ?thesis using read_only_trans [OF e [OF 1] k] 1 by (simp add: list_pending_def Let_def)
  next
    case False
    then show ?thesis using e [OF 1] 1 by (simp add: list_pending_def Let_def)
  qed
qed

lemma tail_lines_read_only: "read_only w (snd (tail_lines_redacted p n w))"
  using tail_lines_redacted_inv(1,2) [of p n w] by (simp add: read_only_def) (metis prod.collapse)

lemma run_health_check_read_only: "read_only w (snd (run_health_check env s w))"
proof -
  have r: "read_only w1 w2" if "path_exists p w1 = (b, w2)" for p b w2 and w1 :: "'a world_scheme"
    using path_exists_read_only [of w1 p] that by simp
  then have r2: "read_only w w2" if "path_exists p w = (b, w1)" "path_exists p' w1 = (b', w2)" for p b w1 p' b' w2
    using that read_only_trans by blast
  show ?thesis
    by (auto simp: run_health_check_def res_bind_def split: option.splits sum.splits prod.splits intro: r r2)
qed

lemma rpc_health_check_read_only: "read_only n (snd (rpc_health_check env n))"
  unfolding rpc_health_check_def
  by (intro and_then_read_only) (auto simp: run_health_check_read_only split: option.splits)

lemma rpc_status_read_only: "read_only n (snd (rpc_status rp n))"
proof -
  let ?c = "list_pending (pa_pending (rp_peer rp)) (pt_pending_root (ds_pending (daemon_of n)))
             (pt_repo_hash (ds_pending (daemon_of n))) n"
  obtain r n1 where 1: "?c = (r, n1)" by fastforce
  obtain b n2 where 2: "path_exists (key_path (paths_of n)) n1 = (b, n2)" by fastforce
  have "read_only n n1" "read_only n1 n2"
    using list_pending_read_only 1 path_exists_read_only 2 by (metis snd_conv)+
  then show ?thesis using read_only_trans by (auto simp: rpc_status_def Let_def 1 2 split: option.splits)
qed

lemma rpc_list_pending_read_only: "read_only n (snd (rpc_list_pending rp params n))"
  unfolding rpc_list_pending_def Let_def
  by (intro and_then_read_only) (auto simp: list_pending_read_only)

lemma rpc_recent_log_read_only: "read_only n (snd (rpc_recent_log rp params n))"
  unfolding rpc_recent_log_def Let_def
  by (intro and_then_read_only) (auto simp: tail_lines_read_only)

lemmas rpc_read_only =
  rpc_health_check_read_only rpc_status_read_only rpc_list_pending_read_only rpc_recent_log_read_only

text \<open>The methods that change the daemon are these four.\<close>

definition changing_methods :: "str set" where
  "changing_methods = {''sync.invite'', ''sync.accept-invite'', ''sync.allow-peer'', ''sync.revoke''}"

lemma rpc_dispatch_snd: "snd (rpc_dispatch rp env rnd req n) = snd (rpc_handler rp env rnd req n)"
  by (auto simp: rpc_dispatch_def split: prod.splits option.splits sum.splits)

lemma rpc_dispatch_read_only:
  assumes "rq_method req \<notin> changing_methods"
  shows "read_only n (snd (rpc_dispatch rp env rnd req n))"
  using assms
  by (auto simp: rpc_dispatch_snd rpc_handler_def changing_methods_def Let_def rpc_list_peers_def rpc_read_only)

lemma rpc_dispatch_frame: "rpc_frame n (snd (rpc_dispatch rp env rnd req n))"
proof (cases "rq_method req \<in> changing_methods")
  case False
  then show ?thesis using rpc_dispatch_read_only read_only_node by blast
next
  case True
  have "rpc_frame n (snd (rpc_invite rp rnd n))"
    unfolding rpc_invite_def
    by (intro and_then_frame folder_secret_for_invite_frame) (auto split: sum.splits)
  moreover have "rpc_frame n (snd (rpc_accept_invite rp p n))" for p
    unfolding rpc_accept_invite_def Let_def
    by (auto split: sum.splits simp: add_or_replace_frame
        intro!: and_then_frame adopt_folder_secret_frame add_and_save_frame)
  moreover have "rpc_frame n (snd (rpc_allow_peer rp p n))" for p
    unfolding rpc_allow_peer_def Let_def
    by (auto split: sum.splits intro!: and_then_frame add_and_save_frame)
  moreover have "rpc_frame n (snd (rpc_revoke rp p n))" for p
    unfolding rpc_revoke_def
    by (auto split: sum.splits intro!: and_then_frame remove_and_save_frame)
  ultimately show ?thesis using True
    by (auto simp: rpc_dispatch_snd rpc_handler_def changing_methods_def Let_def)
qed

lemma rpc_dispatch_invariant:
  assumes "gossip_runtime_invariant (gossip_runtime (daemon_of n))"
  shows "gossip_runtime_invariant (gossip_runtime (daemon_of (snd (rpc_dispatch rp env rnd req n))))"
  using rpc_dispatch_frame [of n rp env rnd req] assms
  by (auto simp: rpc_frame_def gossip_runtime_invariant_def enter_initialized_but_not_subscribed_def)

section \<open>The private files together\<close>

text \<open>
  The private files of the daemon are plain entries of their directories, none lies below another,
  and no component looks like a temporary file.  Every save keeps this.
\<close>

definition store_layout :: "fs \<Rightarrow> path set \<Rightarrow> bool" where
  "store_layout f ps \<longleftrightarrow>
     (\<forall>p\<in>ps. store_path f p \<and> (\<forall>t. node_at f p \<noteq> Some (Symlink t)) \<and> (\<forall>c\<in>set p. \<not> suffix ''.tmp'' c)
        \<and> (\<forall>q\<in>ps. \<not> prefix p (butlast q)))"

lemma store_layoutD:
  assumes "store_layout f ps" "p \<in> ps"
  shows "store_path f p" "p \<noteq> []" "dir_path f (butlast p)" "plain f p" "\<forall>c\<in>set p. normal c"
proof -
  show sp: "store_path f p" using assms by (simp add: store_layout_def)
  then show ne: "p \<noteq> []" and dp: "dir_path f (butlast p)" by (simp_all add: store_path_def)
  show n: "\<forall>c\<in>set p. normal c" by (rule store_path_normal [OF sp])
  have "dir_at f q" if e: "p = q @ r" "r \<noteq> []" "node_at f q \<noteq> None" for q r
  proof -
    have "prefix q (butlast p)" using e(1,2) by (simp add: butlast_append)
    then show ?thesis using dp e(3) by (simp add: dir_path_def)
  qed
  then show "plain f p" using n assms by (auto simp: plain_def store_layout_def)
qed

lemma store_layout_frame:
  assumes l: "store_layout f ps" and p: "p \<in> ps" and fr: "store_frame p f f'"
    and s: "node_at f' p = node_at f p \<or> (\<exists>b m. node_at f' p = Some (File b m))"
  shows "store_layout f' ps"
proof -
  have keep: "node_at f' r = node_at f r \<or> (dir_at f' r \<and> (node_at f r = None \<or> dir_at f r))"
    if "r \<noteq> p" "\<forall>c\<in>set r. \<not> suffix ''.tmp'' c" "r \<noteq> []" for r
    using fr that last_in_set [of r] unfolding store_frame_def by blast
  show ?thesis
    unfolding store_layout_def
  proof (rule ballI, intro conjI)
    fix q assume q: "q \<in> ps"
    have t: "\<forall>c\<in>set q. \<not> suffix ''.tmp'' c" and sp: "store_path f q" and nl: "\<forall>t. node_at f q \<noteq> Some (Symlink t)"
      and below: "\<forall>r\<in>ps. \<not> prefix r (butlast q)" "\<forall>r\<in>ps. \<not> prefix q (butlast r)"
      using l q by (auto simp: store_layout_def)
    show "\<forall>c\<in>set q. \<not> suffix ''.tmp'' c" by (rule t)
    show "\<forall>r\<in>ps. \<not> prefix q (butlast r)" by (rule below(2))
    show "\<forall>t. node_at f' q \<noteq> Some (Symlink t)"
      using s nl keep [OF _ t] sp by (cases "q = p") (auto simp: store_path_def dir_at_def)
    have "dir_at f' r" if r: "prefix r (butlast q)" "node_at f' r \<noteq> None" for r
    proof (cases "r = []")
      case False
      have "r \<noteq> p" using below(1) p r(1) by blast
      moreover have "set r \<subseteq> set q" using set_mono_prefix [OF r(1)] in_set_butlastD [of _ q] by blast
      ultimately have "node_at f' r = node_at f r \<or> dir_at f' r" using keep [of r] t False by blast
      moreover have "node_at f r \<noteq> None \<longrightarrow> dir_at f r" using sp r(1) by (simp add: store_path_def dir_path_def)
      ultimately show ?thesis using r(2) by (auto simp: dir_at_def)
    qed (simp add: dir_at_def)
    then show "store_path f' q" using sp by (simp add: store_path_def dir_path_def)
  qed
qed

lemma secure_post_layout:
  assumes "store_layout f ps" "p \<in> ps" "secure_post p b w (r, w')" "f = fs w"
  shows "store_layout (fs w') ps"
  using store_layout_frame [of f ps p "fs w'"] assms by (auto simp: secure_post_def split: sum.splits)

lemma try_load_plain:
  assumes "try_load_folder_secret p w = (Inr cur, w')" "store_layout (fs w) ps" "p \<in> ps" "wf_fs (fs w)"
  shows "case cur of
           Some s \<Rightarrow> length s = 16 \<and> (\<exists>m. node_at (fs w) p = Some (File s m))
         | None \<Rightarrow> node_at (fs w) p = None"
proof -
  note k = k_read_plain [OF assms(4) store_layoutD(4) [OF assms(2,3)]]
  show ?thesis
    using try_load_folder_secret_inv(3,4) [OF assms(1)] k
    by (cases cur; cases "node_at (fs w) p") (auto split: node.splits)
qed

section \<open>Invite\<close>

lemma try_load_file:
  assumes "wf_fs (fs w)" "\<forall>c\<in>set p. normal c" "node_at (fs w) p = Some (File s m)" "length s = 16" "faults w = []"
  shows "try_load_folder_secret p w = (Inr (Some s), w)"
  using fs_read_file [OF assms(1-3,5)] assms(4) by (simp add: try_load_folder_secret_def FOLDER_SECRET_BYTES_def)

text \<open>
  The folder secret of an invite: the one on disk; a new one only when there is none, and then the
  daemon is initialized but not subscribed.
\<close>

lemma folder_secret_for_invite_spec:
  assumes r: "folder_secret_for_invite tf rnd n = (Inr s, n')"
    and wf: "wf_fs (fs n)" and l: "store_layout (fs n) ps" and p: "folder_secret_path (paths_of n) \<in> ps"
    and tf: "tempfile_ok tf" and rnd: "length rnd = 16"
  defines "p \<equiv> folder_secret_path (paths_of n)"
  shows "length s = 16" "\<exists>m. node_at (fs n') p = Some (File s m)" "wf_fs (fs n')" "store_layout (fs n') ps"
    "allow n' = allow n" "blobs n' = blobs n"
    "daemon_of n' = (if node_at (fs n) p = None then enter_initialized_but_not_subscribed (daemon_of n) else daemon_of n)"
proof -
  obtain cur n1 where 1: "try_load_folder_secret p n = (Inr cur, n1)"
    using r by (auto simp: folder_secret_for_invite_def and_then_Inr_iff p_def)
  note i = try_load_folder_secret_inv(1,2) [OF 1]
  note nd = fs_step_node [OF i(1)]
  have all: "length s = 16 \<and> (\<exists>m. node_at (fs n') p = Some (File s m)) \<and> wf_fs (fs n') \<and> store_layout (fs n') ps
    \<and> allow n' = allow n \<and> blobs n' = blobs n
    \<and> daemon_of n' = (if node_at (fs n) p = None then enter_initialized_but_not_subscribed (daemon_of n) else daemon_of n)"
  proof (cases cur)
    case (Some s0)
    then show ?thesis
      using r 1 i nd wf l try_load_plain [OF 1 l p [folded p_def] wf]
      by (auto simp: folder_secret_for_invite_def p_def)
  next
    case None
    obtain n2 where 2: "persist_folder_secret tf p rnd n1 = (Inr (), n2)" "s = rnd"
      "n' = peer_node.more_update enter_initialized_but_not_subscribed n2"
      using r 1 None by (auto simp: folder_secret_for_invite_def p_def [symmetric] generate_eq and_then_Inr_iff)
    have sp: "store_path (fs n1) p" using store_layoutD(1) [OF l p [folded p_def]] i(2) by simp
    have w1: "wf_fs (fs n1)" using wf i(2) by simp
    have c: "secure_post p rnd n1 (Inr (), n2)" using persist_contract [OF w1 sp tf, of rnd] 2(1) by simp
    then have fs2: "fs_step n1 n2" "wf_fs (fs n2)" "node_at (fs n2) p = Some (File rnd 384)"
      by (auto simp: secure_post_def)
    have "store_layout (fs n2) ps" using secure_post_layout [OF _ p [folded p_def] c] l i(2) by simp
    then show ?thesis
      using 2 rnd fs2 nd fs_step_node [OF fs2(1)] try_load_plain [OF 1 l p [folded p_def] wf] None by auto
  qed
  then show "length s = 16" "\<exists>m. node_at (fs n') p = Some (File s m)" "wf_fs (fs n')" "store_layout (fs n') ps"
    "allow n' = allow n" "blobs n' = blobs n"
    "daemon_of n' = (if node_at (fs n) p = None then enter_initialized_but_not_subscribed (daemon_of n) else daemon_of n)"
    by blast+
qed

lemma ds_paths_enter [simp]:
  "ds_paths (enter_initialized_but_not_subscribed ds) = ds_paths ds"
  "current_runtime_status (enter_initialized_but_not_subscribed ds) = InitializedButNotSubscribed"
  by (simp_all add: enter_initialized_but_not_subscribed_def current_runtime_status_def)

text \<open>
  The answer to an invite: a ticket of the daemon's own address and of the secret that is on disk.
  A second invite returns the same answer.
\<close>

lemma rpc_invite_spec:
  assumes r: "rpc_invite rp rnd n = (Inr j, n')"
    and wf: "wf_fs (fs n)" and l: "store_layout (fs n) ps" and p: "folder_secret_path (paths_of n) \<in> ps"
    and ok: "peer_api_ok (rp_peer rp)" and rnd: "length rnd = 16"
  shows "\<exists>s ticket. j = JObj [(''ticket'', JStr ticket), (''restart_required'', JBool (restart_required (status_of n')))]
      \<and> encode (pa_codec (rp_peer rp)) (ticket_new (rp_addr rp (blobs n')) s) = Inr ticket \<and> length s = 16
      \<and> (\<exists>m. node_at (fs n') (folder_secret_path (paths_of n)) = Some (File s m))"
    and "status_of n' = (if node_at (fs n) (folder_secret_path (paths_of n)) = None then InitializedButNotSubscribed else status_of n)"
    and "paths_of n' = paths_of n" "wf_fs (fs n')" "store_layout (fs n') ps"
proof -
  obtain s n1 where f1: "folder_secret_for_invite (pa_tempfile (rp_peer rp)) rnd n = (Inr s, n1)"
    and k: "(case encode (pa_codec (rp_peer rp)) (ticket_new (rp_addr rp (blobs n1)) s) of Inl e \<Rightarrow> (Inl e, n1)
       | Inr ticket \<Rightarrow> (Inr (JObj [(''ticket'', JStr ticket), (''restart_required'', JBool (restart_required (status_of n1)))]), n1)) = (Inr j, n')"
    using r unfolding rpc_invite_def and_then_Inr_iff by blast
  have n1: "n1 = n'" using k by (auto split: sum.splits)
  note f = f1 [unfolded n1]
  have e: "(case encode (pa_codec (rp_peer rp)) (ticket_new (rp_addr rp (blobs n')) s) of Inl e \<Rightarrow> Inl e
       | Inr ticket \<Rightarrow> Inr (JObj [(''ticket'', JStr ticket), (''restart_required'', JBool (restart_required (status_of n')))])) = Inr j"
    using k n1 by (auto split: sum.splits)
  note sp = folder_secret_for_invite_spec [OF f wf l p peer_api_okD(4) [OF ok] rnd]
  show "\<exists>s ticket. j = JObj [(''ticket'', JStr ticket), (''restart_required'', JBool (restart_required (status_of n')))]
      \<and> encode (pa_codec (rp_peer rp)) (ticket_new (rp_addr rp (blobs n')) s) = Inr ticket \<and> length s = 16
      \<and> (\<exists>m. node_at (fs n') (folder_secret_path (paths_of n)) = Some (File s m))"
    using e sp(1,2) by (auto split: sum.splits)
  show "status_of n' = (if node_at (fs n) (folder_secret_path (paths_of n)) = None then InitializedButNotSubscribed else status_of n)"
    "paths_of n' = paths_of n"
    using sp(7) by auto
  show "wf_fs (fs n')" "store_layout (fs n') ps" by (rule sp(3), rule sp(4))
qed

lemma rpc_invite_again:
  assumes r: "rpc_invite rp rnd n = (Inr j, n')"
    and wf: "wf_fs (fs n)" and l: "store_layout (fs n) ps" and p: "folder_secret_path (paths_of n) \<in> ps"
    and ok: "peer_api_ok (rp_peer rp)" and rnd: "length rnd = 16" and nf: "faults n' = []"
  shows "rpc_invite rp rnd' n' = (Inr j, n')"
proof -
  note s = rpc_invite_spec [OF r wf l p ok rnd]
  obtain x ticket m where x: "j = JObj [(''ticket'', JStr ticket), (''restart_required'', JBool (restart_required (status_of n')))]"
      "encode (pa_codec (rp_peer rp)) (ticket_new (rp_addr rp (blobs n')) x) = Inr ticket" "length x = 16"
      "node_at (fs n') (folder_secret_path (paths_of n)) = Some (File x m)" using s(1) by blast
  have "try_load_folder_secret (folder_secret_path (paths_of n')) n' = (Inr (Some x), n')"
    using try_load_file [OF s(4) store_layoutD(5) [OF s(5) p] x(4,3) nf] s(3) by simp
  then show ?thesis using x(1,2) by (simp add: rpc_invite_def folder_secret_for_invite_def)
qed

section \<open>Accept-invite\<close>

lemma adopt_folder_secret_spec:
  assumes r: "adopt_folder_secret tf s n = (Inr (), n')"
    and wf: "wf_fs (fs n)" and l: "store_layout (fs n) ps" and p: "folder_secret_path (paths_of n) \<in> ps"
    and tf: "tempfile_ok tf"
  defines "p \<equiv> folder_secret_path (paths_of n)"
  shows "(\<exists>m. node_at (fs n') p = Some (File s m)) \<and> wf_fs (fs n') \<and> store_layout (fs n') ps \<and> allow n' = allow n
    \<and> daemon_of n' = (if node_at (fs n) p = None then enter_initialized_but_not_subscribed (daemon_of n) else daemon_of n)"
proof -
  obtain cur n1 where 1: "try_load_folder_secret p n = (Inr cur, n1)"
    using r by (auto simp: adopt_folder_secret_def and_then_Inr_iff p_def Let_def)
  note i = try_load_folder_secret_inv(1,2) [OF 1]
  note nd = fs_step_node [OF i(1)]
  note tp = try_load_plain [OF 1 l p [folded p_def] wf]
  show ?thesis
  proof (cases cur)
    case (Some s0)
    then have "s0 = s" "n' = n1" using r 1 by (auto simp: adopt_folder_secret_def p_def Let_def split: if_splits)
    then show ?thesis using i nd wf l tp Some by auto
  next
    case None
    obtain n2 where 2: "persist_folder_secret tf p s n1 = (Inr (), n2)"
      "n' = peer_node.more_update enter_initialized_but_not_subscribed n2"
      using r 1 None by (auto simp: adopt_folder_secret_def Let_def p_def [symmetric] and_then_Inr_iff)
    have sp: "store_path (fs n1) p" using store_layoutD(1) [OF l p [folded p_def]] i(2) by simp
    have w1: "wf_fs (fs n1)" using wf i(2) by simp
    have c: "secure_post p s n1 (Inr (), n2)" using persist_contract [OF w1 sp tf, of s] 2(1) by simp
    then have fs2: "fs_step n1 n2" "wf_fs (fs n2)" "node_at (fs n2) p = Some (File s 384)"
      by (auto simp: secure_post_def)
    have "store_layout (fs n2) ps" using secure_post_layout [OF _ p [folded p_def] c] l i(2) by simp
    then show ?thesis using 2 fs2 nd fs_step_node [OF fs2(1)] tp None by auto
  qed
qed

lemma accept_invite_other_secret:
  assumes "decode (pa_codec (rp_peer rp)) ticket = Inr invite" "rp_accept_params rp params = Inr (ticket, label)"
    and "wf_fs (fs n)" "\<forall>c\<in>set (folder_secret_path (paths_of n)). normal c"
    and "node_at (fs n) (folder_secret_path (paths_of n)) = Some (File s m)" "s \<noteq> it_folder_secret invite"
  shows "isl (fst (rpc_accept_invite rp params n)) \<and> read_only n (snd (rpc_accept_invite rp params n))"
proof -
  let ?p = "folder_secret_path (paths_of n)"
  obtain r n1 where 1: "try_load_folder_secret ?p n = (r, n1)" by fastforce
  note i = try_load_folder_secret_inv [OF 1]
  have k: "fst (k_read ?p (fs n)) = Inr s"
    using k_read_plain [OF assms(3) file_plain [OF assms(3-5)]] assms(5) by simp
  have "isl (fst (adopt_folder_secret tf (it_folder_secret invite) n)) \<and> snd (adopt_folder_secret tf (it_folder_secret invite) n) = n1" for tf
  proof (cases r)
    case (Inl e)
    then show ?thesis using 1 by (simp add: adopt_folder_secret_def Let_def)
  next
    case (Inr cur)
    then have "cur = Some s" using i(3,4) k by (cases cur) auto
    then show ?thesis using 1 Inr assms(6) by (simp add: adopt_folder_secret_def Let_def)
  qed
  then have "\<exists>e. adopt_folder_secret tf (it_folder_secret invite) n = (Inl e, n1)" for tf
    by (metis isl_def prod.collapse)
  then obtain e where a: "adopt_folder_secret (pa_tempfile (rp_peer rp)) (it_folder_secret invite) n = (Inl e, n1)" by blast
  show ?thesis using a assms(1,2) i(1,2) by (simp add: rpc_accept_invite_def Let_def read_only_def)
qed

text \<open>
  A successful accept-invite leaves all three files in agreement with the ticket.
\<close>

lemma on_allowlist_Inr:
  "on_allowlist f n = (Inr x, n') \<longleftrightarrow> (\<exists>al n1. f (allow n) n = (Inr x, al, n1) \<and> n' = n1\<lparr>allow := al\<rparr>)"
  by (auto simp: on_allowlist_def split: prod.splits)

lemma and_then_chain:
  "and_then r1 (\<lambda>_ n1. and_then (A n1) (\<lambda>_ n2. and_then (with_context (c n2) (B n2)) (\<lambda>_ n3. (Inr (R n3), n3)))) = (Inr j, n')
     \<longleftrightarrow> (\<exists>n1 n2. r1 = (Inr (), n1) \<and> A n1 = (Inr (), n2) \<and> B n2 = (Inr (), n') \<and> j = R n')"
  by (auto simp: and_then_Inr_iff with_context_Inr_iff)

lemma accept_invite_spec:
  assumes r: "rpc_accept_invite rp params n = (Inr j, n')"
    and d: "decode (pa_codec (rp_peer rp)) ticket = Inr invite" "rp_accept_params rp params = Inr (ticket, label)"
    and wf: "wf_fs (fs n)" and l: "store_layout (fs n) {fsp, alp, bsp}" "distinct [fsp, alp, bsp]"
    and p: "fsp = folder_secret_path (paths_of n)" "alp = allowlist_path (paths_of n)" "bsp = bootstrap_peers_path (paths_of n)"
    and ok: "rpc_api_ok rp" and al: "al_wf (allow n)"
  shows "\<exists>m. node_at (fs n') fsp = Some (File (it_folder_secret invite) m)"
    and "allow n' = al_add (addr_id (it_endpoint invite)) (peer_info_new label (epoch_secs n)) (allow n)"
    and "allowlist_file.holds (pa_ids (rp_peer rp)) (rp_allow_codec rp) (fs n') alp (al_abs (allow n'))"
    and "\<exists>ps. bootstrap.holds (rp_boot_codec rp) (fs n') bsp (replace_or_push (it_endpoint invite) ps)"
    and "status_of n' = (if node_at (fs n) fsp = None then InitializedButNotSubscribed else status_of n)"
proof -
  let ?tf = "pa_tempfile (rp_peer rp)" and ?ids = "pa_ids (rp_peer rp)"
  let ?add = "add_and_save ?ids (rp_allow_codec rp) ?tf (addr_id (it_endpoint invite))"
  have tf: "tempfile_ok ?tf" and ids: "id_ok ?ids" using ok by (auto simp: rpc_api_ok_def peer_api_okD)
  obtain n1 n2 where
    1: "adopt_folder_secret ?tf (it_folder_secret invite) n = (Inr (), n1)" and
    2: "on_allowlist (?add (peer_info_new label (epoch_secs n1)) (allowlist_path (paths_of n1))) n1 = (Inr (), n2)" and
    3: "add_or_replace (rp_boot_codec rp) ?tf (bootstrap_peers_path (paths_of n2)) (it_endpoint invite) n2 = (Inr (), n')"
    using r [unfolded rpc_accept_invite_def d Let_def ctx_simps sum.case prod.case and_then_chain] by blast
  note a = adopt_folder_secret_spec [OF 1 wf l(1) _ tf]
  have fsp: "fsp \<in> {fsp, alp, bsp}" and alp: "alp \<in> {fsp, alp, bsp}" and bsp: "bsp \<in> {fsp, alp, bsp}" by auto
  have a1: "\<exists>m. node_at (fs n1) fsp = Some (File (it_folder_secret invite) m)" "wf_fs (fs n1)" "store_layout (fs n1) {fsp, alp, bsp}"
    "allow n1 = allow n" "paths_of n1 = paths_of n"
    "status_of n1 = (if node_at (fs n) fsp = None then InitializedButNotSubscribed else status_of n)"
    using a fsp p by auto
  have t1: "epoch_secs n1 = epoch_secs n"
    using adopt_folder_secret_frame [of n ?tf "it_folder_secret invite"] 1 by (simp add: rpc_frame_def epoch_secs_def)
  obtain al' w2 where ad: "?add (peer_info_new label (epoch_secs n)) alp (allow n) n1 = (Inr (), al', w2)" "n2 = w2\<lparr>allow := al'\<rparr>"
    using 2 a1(4,5) p(2) t1 by (auto simp: on_allowlist_Inr)
  have env: "al_env ?ids (rp_allow_codec rp) ?tf alp (allow n) (fs n1)"
    using ids ok tf al a1(2) store_layoutD(1) [OF a1(3) alp] by (simp add: al_env_def rpc_api_okD)
  note as = add_and_save_spec [OF env ad(1)]
  have al': "al' = al_add (addr_id (it_endpoint invite)) (peer_info_new label (epoch_secs n)) (allow n)"
    and h2: "allowlist_file.holds ?ids (rp_allow_codec rp) (fs w2) alp (al_abs al')"
    using as(5) by blast+
  obtain m where m: "node_at (fs n1) fsp = Some (File (it_folder_secret invite) m)" using a1(1) by blast
  have f2: "node_at (fs w2) fsp = Some (File (it_folder_secret invite) m)"
    using store_frame_file [OF as(3) _ m] l(2) by auto
  obtain b2 m2 where b2: "node_at (fs w2) alp = Some (File b2 m2)" "dec_allowlist ?ids (rp_allow_codec rp) alp b2 = Inr (al_abs al')"
    using h2 by (auto simp: allowlist_file.holds_def)
  have l2: "store_layout (fs w2) {fsp, alp, bsp}"
    using store_layout_frame [OF a1(3) alp as(3)] b2(1) by blast
  have n2: "paths_of n2 = paths_of n" "status_of n2 = status_of n1" "fs n2 = fs w2" "allow n2 = al'"
    using ad(2) fs_step_node [OF as(1)] a1(5) by simp_all
  obtain ps w3 where 4: "load_bootstrap_peers (rp_boot_codec rp) bsp n2 = (Inr ps, w3)"
    "save_bootstrap_peers (rp_boot_codec rp) ?tf bsp (replace_or_push (it_endpoint invite) ps) w3 = (Inr (), n')"
    using 3 n2(1) p(3) by (auto simp: add_or_replace_def and_then_Inr_iff)
  note lb = load_bootstrap_inv [OF 4(1)]
  have g: "tempfile_ok ?tf \<and> bootstrap_codec_ok (rp_boot_codec rp)" using tf ok by (simp add: rpc_api_okD)
  have w3: "wf_fs (fs w3)" "store_path (fs w3) bsp"
    using lb(2) n2(3) as(2) store_layoutD(1) [OF l2 bsp] by simp_all
  note sh = bootstrap.save_holds [OF w3 g 4(2)] and se = bootstrap.save_elsewhere [OF w3 g, where v = "replace_or_push (it_endpoint invite) ps"]
  have keep: "node_at (fs n') q = Some (File c k)" if "node_at (fs w2) q = Some (File c k)" "q \<noteq> bsp" for q c k
    using se [of q c k] that lb(2) n2(3) 4(2) by simp
  have nd: "allow n' = allow n2" "daemon_of n' = daemon_of n2"
    using fs_step_node [OF lb(1)] fs_step_node [OF sh(3)] by simp_all
  show "\<exists>m. node_at (fs n') fsp = Some (File (it_folder_secret invite) m)" using keep [OF f2] l(2) by auto
  show "allow n' = al_add (addr_id (it_endpoint invite)) (peer_info_new label (epoch_secs n)) (allow n)"
    using nd(1) n2(4) al' by simp
  show "allowlist_file.holds ?ids (rp_allow_codec rp) (fs n') alp (al_abs (allow n'))"
    using keep [OF b2(1)] b2(2) nd(1) n2(4) l(2) by (auto simp: allowlist_file.holds_def)
  show "\<exists>ps. bootstrap.holds (rp_boot_codec rp) (fs n') bsp (replace_or_push (it_endpoint invite) ps)" using sh(1) by blast
  show "status_of n' = (if node_at (fs n) fsp = None then InitializedButNotSubscribed else status_of n)"
    using nd(2) n2(2) a1(6) by simp
qed

section \<open>Allow and revoke\<close>

lemma add_and_save_Inr: "add_and_save ids a tf i info p al w = (Inr (), al', w') \<Longrightarrow> al' = al_add i info al"
  by (auto simp: add_and_save_def add_begin_spec split: sum.splits prod.splits)

lemma remove_and_save_Inr: "remove_and_save ids a tf i p al w = (Inr prev, al', w') \<Longrightarrow> al' = snd (al_remove i al)"
  by (auto simp: remove_and_save_def remove_begin_spec split: sum.splits prod.splits)

lemma rpc_allow_peer_allows:
  assumes "rpc_allow_peer rp params n = (Inr j, n')" "rp_allow_params rp params = Inr (pid, label)"
    and "id_from_str (pa_ids (rp_peer rp)) pid = Inr i"
  shows "al_contains (allow n') i \<and> \<not> is_open_all (allow n')"
proof (cases "al_contains (allow n) i \<and> \<not> is_open_all (allow n)")
  case True
  then show ?thesis using assms by (simp add: rpc_allow_peer_def parse_peer_id_def Let_def)
next
  case False
  then obtain n1 where "on_allowlist (add_and_save (pa_ids (rp_peer rp)) (rp_allow_codec rp) (pa_tempfile (rp_peer rp))
      i (peer_info_new label (epoch_secs n)) (allowlist_path (paths_of n))) n = (Inr (), n1)" "n' = n1"
    using assms by (auto simp: rpc_allow_peer_def parse_peer_id_def Let_def and_then_Inr_iff)
  then have "allow n' = al_add i (peer_info_new label (epoch_secs n)) (allow n)"
    using add_and_save_Inr by (auto simp: on_allowlist_Inr)
  then show ?thesis by (simp add: al_contains_def is_open_all_def al_add_def)
qed

lemma rpc_revoke_removes:
  assumes "rpc_revoke rp params n = (Inr j, n')" "rp_revoke_params rp params = Inr pid"
    and "id_from_str (pa_ids (rp_peer rp)) pid = Inr i"
  shows "map_of (al_peers (allow n')) i = None \<and> al_open_all (allow n') = al_open_all (allow n)"
proof -
  obtain prev n1 where "on_allowlist (remove_and_save (pa_ids (rp_peer rp)) (rp_allow_codec rp) (pa_tempfile (rp_peer rp))
      i (allowlist_path (paths_of n))) n = (Inr prev, n1)" "n' = n1"
    using assms by (auto simp: rpc_revoke_def parse_peer_id_def and_then_Inr_iff)
  then have "allow n' = snd (al_remove i (allow n))" using remove_and_save_Inr by (auto simp: on_allowlist_Inr)
  then show ?thesis by (simp add: al_remove_def)
qed

section \<open>The log\<close>

lemma rpc_recent_log_lines:
  assumes "rpc_recent_log rp params n = (Inr j, n')"
  shows "\<exists>ls. j = JObj [(''lines'', JArr (map JStr ls))] \<and> length ls \<le> 100 \<and> (\<forall>l\<in>set ls. ticket_free l \<and> hex_runs_below 32 l)"
proof -
  define k where "k = min (case (case rp_lines_params rp params of Inl _ \<Rightarrow> None | Inr l \<Rightarrow> l) of None \<Rightarrow> 50 | Some k \<Rightarrow> k) 100"
  obtain ls where t: "tail_lines_redacted (log_path (paths_of n)) k n = (Inr ls, n')" "j = JObj [(''lines'', JArr (map JStr ls))]"
    using assms by (auto simp: rpc_recent_log_def Let_def and_then_Inr_iff k_def)
  have "k \<le> 100" by (simp add: k_def)
  then show ?thesis using tail_lines_redacted_inv(3) [OF t(1) refl] t(2) by auto
qed

lemma rpc_dispatch_ok_iff:
  "rpc_dispatch rp env rnd req n = (Some (rpc_ok j), n') \<longleftrightarrow> rpc_handler rp env rnd req n = (Some (Inr j), n')"
  by (auto simp: rpc_dispatch_def split: prod.splits option.splits sum.splits)

end
