(* ===== verification/Instances.thy ===== *)
theory Instances
  imports Dispatch_Laws
begin

text \<open>
  Concrete foreign functions that satisfy the laws assumed of the crates, so that every property
  can be applied to a running program: wire formats with length prefixes, a base32-like text
  encoding, hexadecimal identities, a blob store that is a list of blobs, a temporary-file creator.
\<close>

section \<open>Writers and readers\<close>

definition put_nat :: "nat \<Rightarrow> str" where
  "put_nat n = replicate n (CHR 0x01) @ [CHR 0x00]"

fun get_nat :: "str \<Rightarrow> (nat \<times> str) option" where
  "get_nat [] = None"
| "get_nat (c # cs) = (if c = CHR 0x00 then Some (0, cs) else map_option (apfst Suc) (get_nat cs))"

lemma get_put_nat [simp]: "get_nat (put_nat n @ r) = Some (n, r)"
  by (induction n) (auto simp: put_nat_def)

definition put_str :: "str \<Rightarrow> str" where
  "put_str s = put_nat (length s) @ s"

definition get_str :: "str \<Rightarrow> (str \<times> str) option" where
  "get_str x = (case get_nat x of
     None \<Rightarrow> None | Some (n, r) \<Rightarrow> if length r < n then None else Some (take n r, drop n r))"

lemma get_put_str [simp]: "get_str (put_str s @ r) = Some (s, r)"
  by (simp add: put_str_def get_str_def)

fun get_many :: "(str \<Rightarrow> ('a \<times> str) option) \<Rightarrow> nat \<Rightarrow> str \<Rightarrow> ('a list \<times> str) option" where
  "get_many g 0 s = Some ([], s)"
| "get_many g (Suc n) s =
     (case g s of None \<Rightarrow> None | Some (x, r) \<Rightarrow> map_option (apfst ((#) x)) (get_many g n r))"

definition put_list :: "('a \<Rightarrow> str) \<Rightarrow> 'a list \<Rightarrow> str" where
  "put_list p xs = put_nat (length xs) @ concat (map p xs)"

definition get_list :: "(str \<Rightarrow> ('a \<times> str) option) \<Rightarrow> str \<Rightarrow> ('a list \<times> str) option" where
  "get_list g x = (case get_nat x of None \<Rightarrow> None | Some (n, r) \<Rightarrow> get_many g n r)"

lemma get_put_list [simp]:
  assumes "\<And>x r. g (p x @ r) = Some (x, r)"
  shows "get_list g (put_list p xs @ r) = Some (xs, r)"
proof -
  have "get_many g (length xs) (concat (map p xs) @ r) = Some (xs, r)"
    by (induction xs) (auto simp: assms)
  then show ?thesis by (simp add: get_list_def put_list_def)
qed

definition put_word :: "'w::len word \<Rightarrow> str" where
  "put_word w = put_nat (unat w)"

definition get_word :: "str \<Rightarrow> ('w::len word \<times> str) option" where
  "get_word x = map_option (apfst word_of_nat) (get_nat x)"

lemma get_put_word [simp]: "get_word (put_word w @ r) = Some (w, r)"
  by (simp add: put_word_def get_word_def)

definition put_int :: "int \<Rightarrow> str" where
  "put_int i = (if i < 0 then CHR 0x01 else CHR 0x00) # put_nat (nat \<bar>i\<bar>)"

definition get_int :: "str \<Rightarrow> (int \<times> str) option" where
  "get_int x = (case x of
     [] \<Rightarrow> None
   | c # r \<Rightarrow> map_option (apfst (\<lambda>n. if c = CHR 0x00 then int n else - int n)) (get_nat r))"

lemma get_put_int [simp]: "get_int (put_int i @ r) = Some (i, r)"
  by (simp add: put_int_def get_int_def)

definition put_opt :: "('a \<Rightarrow> str) \<Rightarrow> 'a option \<Rightarrow> str" where
  "put_opt p v = (case v of None \<Rightarrow> [CHR 0x00] | Some x \<Rightarrow> CHR 0x01 # p x)"

definition get_opt :: "(str \<Rightarrow> ('a \<times> str) option) \<Rightarrow> str \<Rightarrow> ('a option \<times> str) option" where
  "get_opt g x = (case x of
     [] \<Rightarrow> None
   | c # r \<Rightarrow> if c = CHR 0x00 then Some (None, r) else map_option (apfst Some) (g r))"

lemma get_put_opt [simp]:
  "(\<And>x r. g (p x @ r) = Some (x, r)) \<Longrightarrow> get_opt g (put_opt p v @ r) = Some (v, r)"
  by (simp add: put_opt_def get_opt_def split: option.splits)

definition put_bool :: "bool \<Rightarrow> str" where
  "put_bool b = [if b then CHR 0x01 else CHR 0x00]"

definition get_bool :: "str \<Rightarrow> (bool \<times> str) option" where
  "get_bool x = (case x of [] \<Rightarrow> None | c # r \<Rightarrow> Some (c \<noteq> CHR 0x00, r))"

lemma get_put_bool [simp]: "get_bool (put_bool b @ r) = Some (b, r)"
  by (simp add: put_bool_def get_bool_def)

text \<open>A reader run on a whole file.\<close>

definition parse_all :: "(str \<Rightarrow> ('a \<times> str) option) \<Rightarrow> str \<Rightarrow> str + 'a" where
  "parse_all g b = (case g b of Some (x, []) \<Rightarrow> Inr x | _ \<Rightarrow> Inl ''parse error'')"

lemma parse_all_put [simp]: "(\<And>r. g (p @ r) = Some (x, r)) \<Longrightarrow> parse_all g p = Inr x"
  unfolding parse_all_def by (metis append_Nil2 list.case(1) option.case(2) prod.case)

text \<open>The reader of a sequence of two parts.\<close>

definition get_then :: "('a \<times> str) option \<Rightarrow> ('a \<Rightarrow> str \<Rightarrow> ('b \<times> str) option) \<Rightarrow> ('b \<times> str) option" where
  "get_then v k = (case v of None \<Rightarrow> None | Some (x, r) \<Rightarrow> k x r)"

lemma get_then_Some [simp]: "get_then (Some (x, r)) k = k x r"
  by (simp add: get_then_def)

section \<open>Hexadecimal identities\<close>

definition hex_alphabet :: str where
  "hex_alphabet = ''0123456789abcdef''"

fun hex_short :: "nat \<Rightarrow> str" where
  "hex_short n = (if n < 16 then [hex_alphabet ! n] else hex_short (n div 16) @ [hex_alphabet ! (n mod 16)])"

declare hex_short.simps [simp del]

definition hex_digits :: "nat \<Rightarrow> nat \<Rightarrow> str" where
  "hex_digits k n = replicate (k - length (hex_short n)) (CHR ''0'') @ hex_short n"

fun position :: "char \<Rightarrow> str \<Rightarrow> nat" where
  "position c [] = 0"
| "position c (x # xs) = (if c = x then 0 else Suc (position c xs))"

definition hex_number :: "str \<Rightarrow> nat" where
  "hex_number s = foldl (\<lambda>a c. a * 16 + position c hex_alphabet) 0 s"

lemma position_nth: "distinct xs \<Longrightarrow> i < length xs \<Longrightarrow> position (xs ! i) xs = i"
  by (induction xs arbitrary: i) (auto simp: nth_Cons split: nat.splits)

lemma position_hex: "d < 16 \<Longrightarrow> position (hex_alphabet ! d) hex_alphabet = d"
  by (rule position_nth) (simp_all add: hex_alphabet_def)

lemma hex_number_append:
  "hex_number (s @ [hex_alphabet ! d]) = hex_number s * 16 + d" if "d < 16"
  using that by (simp add: hex_number_def position_hex)

lemma hex_number_short: "hex_number (hex_short n) = n"
proof (induction n rule: hex_short.induct)
  case (1 n)
  show ?case
  proof (cases "n < 16")
    case True
    then show ?thesis by (subst hex_short.simps) (simp add: hex_number_def position_hex)
  next
    case False
    then show ?thesis using 1 by (subst hex_short.simps) (simp add: hex_number_append)
  qed
qed

lemma hex_number_digits: "hex_number (hex_digits k n) = n"
proof -
  have "foldl (\<lambda>a c. a * 16 + position c hex_alphabet) 0 (replicate j (CHR ''0'')) = 0" for j
    by (induction j) (simp_all add: hex_alphabet_def)
  then show ?thesis using hex_number_short [of n] by (simp add: hex_number_def hex_digits_def)
qed

lemma hex_short_length: "n < 16 ^ k \<Longrightarrow> 0 < k \<Longrightarrow> length (hex_short n) \<le> k"
proof (induction n arbitrary: k rule: hex_short.induct)
  case (1 n)
  show ?case
  proof (cases "n < 16")
    case True
    then show ?thesis using 1 by (subst hex_short.simps) simp
  next
    case False
    then obtain j where k: "k = Suc j" "0 < j" using 1(2,3) by (cases k; cases "k = 1") auto
    then have "n div 16 < 16 ^ j" using 1(2) by (simp add: less_mult_imp_div_less mult.commute)
    then show ?thesis using 1(1) [OF False, of j] False k by (subst hex_short.simps) simp
  qed
qed

lemma hex_short_hex: "\<forall>c\<in>set (hex_short n). is_ascii_hexdigit c"
proof (induction n rule: hex_short.induct)
  case (1 n)
  have "\<forall>c\<in>set hex_alphabet. is_ascii_hexdigit c" by (simp add: hex_alphabet_def is_ascii_hexdigit_def)
  moreover have "hex_alphabet ! d \<in> set hex_alphabet" if "d < 16" for d
    using that by (intro nth_mem) (simp add: hex_alphabet_def)
  ultimately have "is_ascii_hexdigit (hex_alphabet ! d)" if "d < 16" for d using that by blast
  then show ?case using 1 by (subst hex_short.simps) auto
qed

lemma hex_digits_facts:
  "n < 16 ^ 64 \<Longrightarrow> length (hex_digits 64 n) = 64" "\<forall>c\<in>set (hex_digits k n). is_ascii_hexdigit c"
proof -
  show "n < 16 ^ 64 \<Longrightarrow> length (hex_digits 64 n) = 64"
    using hex_short_length [of n 64] by (simp add: hex_digits_def)
  have "is_ascii_hexdigit (CHR ''0'')" by (simp add: is_ascii_hexdigit_def)
  then show "\<forall>c\<in>set (hex_digits k n). is_ascii_hexdigit c"
    using hex_short_hex by (auto simp: hex_digits_def)
qed

fun raw_id :: "endpoint_id \<Rightarrow> 256 word" where
  "raw_id (EndpointId w) = w"

definition hex_ids :: id_api where
  "hex_ids =
     \<lparr>id_to_string = (\<lambda>i. hex_digits 64 (unat (raw_id i))),
      id_from_str = (\<lambda>s. if length s = 64 then Inr (EndpointId (word_of_nat (hex_number s))) else Inl ''invalid length''),
      hash_to_string = (\<lambda>h. case h of BlobHash b \<Rightarrow> hex_encode b),
      id_fmt_short = (\<lambda>i. take 10 (hex_digits 64 (unat (raw_id i))))\<rparr>"

lemma hex_ids_ok: "id_ok hex_ids"
proof -
  have "unat (raw_id i) < 16 ^ 64" for i using unsigned_less [of "raw_id i"] by simp
  moreover have "EndpointId (word_of_nat (hex_number (hex_digits 64 (unat (raw_id i))))) = i" for i
    by (cases i) (simp add: hex_number_digits)
  ultimately show ?thesis by (simp add: id_ok_def hex_ids_def hex_digits_facts)
qed

section \<open>The wire formats\<close>

definition put_id :: "endpoint_id \<Rightarrow> str" where
  "put_id i = put_word (raw_id i)"

definition get_id :: "str \<Rightarrow> (endpoint_id \<times> str) option" where
  "get_id x = map_option (apfst EndpointId) (get_word x)"

lemma get_put_id [simp]: "get_id (put_id i @ r) = Some (i, r)"
  by (cases i) (simp add: put_id_def get_id_def)

definition put_update :: "sync_update \<Rightarrow> str" where
  "put_update u = put_word (su_version u) @ (case su_body u of
     Upsert p h fmt from \<Rightarrow>
       put_bool True @ put_str p @ put_str (case h of BlobHash b \<Rightarrow> b) @ put_bool (fmt = Raw) @ put_id (peer_id from)
   | Tombstone p from \<Rightarrow> put_bool False @ put_str p @ put_id (peer_id from))"

definition get_update :: "str \<Rightarrow> (sync_update \<times> str) option" where
  "get_update x =
     get_then (get_word x) (\<lambda>v x. get_then (get_bool x) (\<lambda>b x. get_then (get_str x) (\<lambda>p x.
       if b then
         get_then (get_str x) (\<lambda>h x. get_then (get_bool x) (\<lambda>f x. get_then (get_id x) (\<lambda>i x.
           Some (\<lparr>su_version = v,
                  su_body = Upsert p (BlobHash h) (if f then Raw else HashSeq) \<lparr>peer_id = i\<rparr>\<rparr>, x))))
       else get_then (get_id x) (\<lambda>i x. Some (\<lparr>su_version = v, su_body = Tombstone p \<lparr>peer_id = i\<rparr>\<rparr>, x)))))"

lemma get_put_update [simp]: "get_update (put_update u @ r) = Some (u, r)"
proof (cases "su_body u")
  case (Upsert p h f i)
  then show ?thesis
    by (cases h; cases f) (simp_all add: put_update_def get_update_def sync_update.equality)
next
  case (Tombstone p i)
  then show ?thesis by (simp add: put_update_def get_update_def sync_update.equality)
qed

definition put_addr :: "endpoint_addr \<Rightarrow> str" where
  "put_addr a = put_id (addr_id a) @ put_str (addr_info a)"

definition get_addr :: "str \<Rightarrow> (endpoint_addr \<times> str) option" where
  "get_addr x = get_then (get_id x) (\<lambda>i x. get_then (get_str x) (\<lambda>s x. Some (\<lparr>addr_id = i, addr_info = s\<rparr>, x)))"

lemma get_put_addr [simp]: "get_addr (put_addr a @ r) = Some (a, r)"
  by (simp add: put_addr_def get_addr_def)

definition put_ticket_json :: "invite_ticket_json \<Rightarrow> str" where
  "put_ticket_json j = put_str (tj_endpoint_ticket j) @ put_str (tj_folder_secret j)"

definition get_ticket_json :: "str \<Rightarrow> (invite_ticket_json \<times> str) option" where
  "get_ticket_json x = get_then (get_str x) (\<lambda>e x. get_then (get_str x) (\<lambda>s x.
     Some (\<lparr>tj_endpoint_ticket = e, tj_folder_secret = s\<rparr>, x)))"

lemma get_put_ticket_json [simp]: "get_ticket_json (put_ticket_json j @ r) = Some (j, r)"
  by (simp add: put_ticket_json_def get_ticket_json_def)

text \<open>
  Three letters for each byte: each letter carries three bits (two in the third) between the fixed
  bits of an upper-case letter from \<open>A\<close> to \<open>O\<close>, so that all are in the alphabet of base32.
\<close>

fun letters_of :: "char \<Rightarrow> str" where
  "letters_of (Char b0 b1 b2 b3 b4 b5 b6 b7) =
     [Char True b0 b1 b2 False False True False, Char True b3 b4 b5 False False True False,
      Char True b6 b7 False False False True False]"

definition letters_encode :: "bytes \<Rightarrow> str" where
  "letters_encode b = concat (map letters_of b)"

fun letters_decode :: "str \<Rightarrow> bytes option" where
  "letters_decode [] = Some []"
| "letters_decode [c] = None"
| "letters_decode [c, d] = None"
| "letters_decode (c # d # e # s) =
     map_option ((#) (Char (digit1 c) (digit2 c) (digit3 c) (digit1 d) (digit2 d) (digit3 d) (digit1 e) (digit2 e)))
       (letters_decode s)"

lemma letters_decode_encode: "letters_decode (letters_encode b) = Some b"
proof (induction b)
  case (Cons c b)
  then show ?case by (cases c) (simp add: letters_encode_def)
qed (simp add: letters_encode_def)

lemma letters_base32: "\<forall>c\<in>set (letters_encode b). base32_char c"
proof -
  have "base32_char (Char True b0 b1 b2 False False True False)" for b0 b1 b2
    by (cases b0; cases b1; cases b2) (simp_all add: base32_char_def)
  moreover from this have "base32_char (Char True b0 b1 False False False True False)" for b0 b1 by blast
  ultimately have "\<forall>x\<in>set (letters_of c). base32_char x" for c by (cases c) simp
  then show ?thesis by (auto simp: letters_encode_def)
qed

definition wire_codec :: codec_api where
  "wire_codec =
     \<lparr>su_ser = (\<lambda>u. Inr (put_update u)), su_de = parse_all get_update,
      tj_ser = (\<lambda>j. Inr (put_ticket_json j)), tj_de = parse_all get_ticket_json,
      b32_encode = letters_encode, b32_decode = letters_decode,
      ticket_encode = put_addr, ticket_parse = parse_all get_addr\<rparr>"

lemma wire_codec_ok: "codec_ok wire_codec"
  by (simp add: codec_ok_def wire_codec_def letters_decode_encode letters_base32)

definition put_entry :: "pending_entry \<Rightarrow> str" where
  "put_entry e = (case e of
     PUpsert v p t s h n \<Rightarrow> put_bool True @ put_word v @ put_str p @ put_int t @ put_str s @ put_str h @ put_word n
   | PTombstone v p t s \<Rightarrow> put_bool False @ put_word v @ put_str p @ put_int t @ put_str s)"

definition get_entry :: "str \<Rightarrow> (pending_entry \<times> str) option" where
  "get_entry x =
     get_then (get_bool x) (\<lambda>b x. get_then (get_word x) (\<lambda>v x. get_then (get_str x) (\<lambda>p x.
     get_then (get_int x) (\<lambda>t x. get_then (get_str x) (\<lambda>s x.
       if b then get_then (get_str x) (\<lambda>h x. get_then (get_word x) (\<lambda>n x. Some (PUpsert v p t s h n, x)))
       else Some (PTombstone v p t s, x))))))"

lemma get_put_entry [simp]: "get_entry (put_entry e @ r) = Some (e, r)"
  by (cases e) (simp_all add: put_entry_def get_entry_def)

text \<open>A stand-in for the hash function: only its type matters for the laws.\<close>

definition file_pending :: pending_api where
  "file_pending =
     \<lparr>pe_ser = (\<lambda>e. Inr (put_entry e)), pe_de = parse_all get_entry,
      blake3 = (\<lambda>b. take 32 (b @ replicate 32 (CHR 0x00)))\<rparr>"

lemma file_pending_ok: "pending_api_ok file_pending"
  by (auto simp: pending_api_ok_def file_pending_def)

definition put_peer :: "str \<times> peer_info \<Rightarrow> str" where
  "put_peer kv = put_str (fst kv) @ put_opt put_str (pi_label (snd kv)) @ put_int (pi_added_at (snd kv))
     @ put_opt put_int (pi_last_seen_at (snd kv))"

definition get_peer :: "str \<Rightarrow> ((str \<times> peer_info) \<times> str) option" where
  "get_peer x =
     get_then (get_str x) (\<lambda>k x. get_then (get_opt get_str x) (\<lambda>l x. get_then (get_int x) (\<lambda>t x.
     get_then (get_opt get_int x) (\<lambda>s x. Some ((k, \<lparr>pi_label = l, pi_added_at = t, pi_last_seen_at = s\<rparr>), x)))))"

lemma get_put_peer [simp]: "get_peer (put_peer kv @ r) = Some (kv, r)"
  by (cases kv) (simp add: put_peer_def get_peer_def)

definition put_allow :: "allow_list_json \<Rightarrow> str" where
  "put_allow j = put_word (alj_version j) @ put_bool (alj_open_all j) @ put_list put_peer (alj_peers j)"

definition get_allow :: "str \<Rightarrow> (allow_list_json \<times> str) option" where
  "get_allow x =
     get_then (get_word x) (\<lambda>v x. get_then (get_bool x) (\<lambda>o_all x. get_then (get_list get_peer x) (\<lambda>ps x.
       Some (\<lparr>alj_version = v, alj_open_all = o_all, alj_peers = ps\<rparr>, x))))"

lemma get_put_allow [simp]: "get_allow (put_allow j @ r) = Some (j, r)"
  by (simp add: put_allow_def get_allow_def)

definition file_allow :: allowlist_codec where
  "file_allow = \<lparr>alj_ser = (\<lambda>j. Inr (put_allow j)), alj_de = parse_all get_allow\<rparr>"

lemma file_allow_ok: "allowlist_codec_ok file_allow"
  by (auto simp: allowlist_codec_ok_def file_allow_def)

definition put_boot :: "bootstrap_peers_json \<Rightarrow> str" where
  "put_boot j = put_word (bp_version j) @ put_list put_addr (bp_peers j)"

definition get_boot :: "str \<Rightarrow> (bootstrap_peers_json \<times> str) option" where
  "get_boot x = get_then (get_word x) (\<lambda>v x. get_then (get_list get_addr x) (\<lambda>ps x.
     Some (\<lparr>bp_version = v, bp_peers = ps\<rparr>, x)))"

lemma get_put_boot [simp]: "get_boot (put_boot j @ r) = Some (j, r)"
  by (simp add: put_boot_def get_boot_def)

definition file_boot :: bootstrap_codec where
  "file_boot = \<lparr>bp_ser = (\<lambda>j. Inr (put_boot j)), bp_de = parse_all get_boot\<rparr>"

lemma file_boot_ok: "bootstrap_codec_ok file_boot"
  by (auto simp: bootstrap_codec_ok_def file_boot_def)

section \<open>Temporary files, blobs and gossip\<close>

text \<open>A creator whose name is longer than every name in use.\<close>

definition fresh_mid :: "fs \<Rightarrow> str" where
  "fresh_mid f = replicate (sum_list (map (\<lambda>e. length (last (fst e))) f)) (CHR ''a'') @ ''1''"

definition tmp_create :: "path \<Rightarrow> str \<Rightarrow> str \<Rightarrow> fs \<Rightarrow> io_kind + (path \<times> path) \<times> fs" where
  "tmp_create d pre suf f =
     (case locate True f d of
        Inl e \<Rightarrow> Inl e
      | Inr l \<Rightarrow>
          (let n = pre @ fresh_mid f @ suf in
           case node_at f l of
             Some (Dir m) \<Rightarrow> Inr ((d @ [n], l @ [n]), AList.update (l @ [n]) (File '''' 384) f)
           | _ \<Rightarrow> Inl NotADirectory))"

lemma fresh_name: "node_at f (l @ [pre @ fresh_mid f @ suf]) = None"
proof -
  have "l @ [pre @ fresh_mid f @ suf] \<notin> fst ` set f"
  proof
    assume "l @ [pre @ fresh_mid f @ suf] \<in> fst ` set f"
    then obtain e where e: "e \<in> set f" "fst e = l @ [pre @ fresh_mid f @ suf]" by auto
    then have "length (last (fst e)) \<le> sum_list (map (\<lambda>e. length (last (fst e))) f)"
      using member_le_sum_list [of "length (last (fst e))" "map (\<lambda>e. length (last (fst e))) f"] by force
    then show False using e(2) by (simp add: fresh_mid_def)
  qed
  then show ?thesis by (simp add: node_at_def map_of_eq_None_iff)
qed

definition tmp_files :: tempfile_api where
  "tmp_files = \<lparr>tf_create = tmp_create, tf_persist = k_rename, tf_drop = (\<lambda>p f. snd (k_remove_file p f))\<rparr>"

lemma tmp_files_ok: "tempfile_ok tmp_files"
proof -
  have "\<exists>mid l. p = d @ [pre @ mid @ suf] \<and> locate True f d = Inr l \<and> dir_at f l
      \<and> q = l @ [pre @ mid @ suf] \<and> node_at f q = None \<and> f' = AList.update q (File '''' 384) f"
    if "tmp_create d pre suf f = Inr ((p, q), f')" for d pre suf f p q f'
    using that fresh_name [of f] by (intro exI [of _ "fresh_mid f"])
      (auto simp: tmp_create_def Let_def dir_at_def split: sum.splits option.splits node.splits)
  then show ?thesis by (simp add: tempfile_ok_def tmp_files_def)
qed

text \<open>
  The state of the iroh stack: the blobs stored here, the blobs of the peers, and the messages
  broadcast so far.
\<close>

record stack =
  st_local :: "bytes list"
  st_remote :: "bytes list"
  st_outbox :: "bytes list"

fun hash_bytes :: "blob_hash \<Rightarrow> bytes" where
  "hash_bytes (BlobHash b) = b"

definition stack_blobs :: "stack blob_api" where
  "stack_blobs =
     \<lparr>bl_add = (\<lambda>b s. (Inr (BlobHash b), s\<lparr>st_local := List.insert b (st_local s)\<rparr>)),
      bl_local_complete = (\<lambda>h fmt s. Inr (hash_bytes h \<in> set (st_local s))),
      bl_connect = (\<lambda>i s. (Inr (), s)),
      bl_fetch = (\<lambda>i h fmt s.
        if hash_bytes h \<in> set (st_remote s) then (Inr (), s\<lparr>st_local := List.insert (hash_bytes h) (st_local s)\<rparr>)
        else (Inl ''not found'', s)),
      bl_size = (\<lambda>h s. Inr (length (hash_bytes h))),
      bl_read = (\<lambda>h s. if hash_bytes h \<in> set (st_local s) then Inr (hash_bytes h) else Inl ''not found''),
      hash_new = BlobHash\<rparr>"

lemma stack_blobs_ok: "blob_ok stack_blobs"
proof -
  have "BlobHash (hash_bytes h) = h" for h by (cases h) simp
  then show ?thesis by (auto simp: blob_ok_def stack_blobs_def)
qed

definition stack_gossip :: "stack gossip_api" where
  "stack_gossip m s = (Inr (), s\<lparr>st_outbox := st_outbox s @ [m]\<rparr>)"

definition stack_peer :: "stack peer_api" where
  "stack_peer =
     \<lparr>pa_ids = hex_ids, pa_blob = stack_blobs, pa_codec = wire_codec, pa_tempfile = tmp_files,
      pa_pending = file_pending\<rparr>"

lemma stack_peer_ok: "peer_api_ok stack_peer"
  by (simp add: peer_api_ok_def stack_peer_def hex_ids_ok stack_blobs_ok wire_codec_ok tmp_files_ok file_pending_ok)

lemma stack_peer_simps [simp]:
  "pa_ids stack_peer = hex_ids" "pa_blob stack_peer = stack_blobs" "pa_codec stack_peer = wire_codec"
  "pa_tempfile stack_peer = tmp_files" "pa_pending stack_peer = file_pending"
  by (simp_all add: stack_peer_def)

text \<open>The size limit is compared in binary, so that evaluation does not count to ten million.\<close>

lemma MAX_FILE_SIZE_less [code_unfold]: "MAX_FILE_SIZE < n \<longleftrightarrow> (10485760 :: int) < int n"
  by (simp add: MAX_FILE_SIZE_def)

lemmas instances_ok =
  hex_ids_ok wire_codec_ok file_pending_ok file_allow_ok file_boot_ok tmp_files_ok stack_blobs_ok stack_peer_ok

end
