(* ===== verification/Samples.thy ===== *)
theory Samples
  imports Instances
begin

text \<open>
  Concrete hosts and messages for the witnesses: a watched directory \<open>/w\<close> with one file, a state
  directory \<open>/s\<close>, and two peers.\<close>

definition me :: endpoint_id where
  "me = EndpointId 1"

definition alice :: endpoint_id where
  "alice = EndpointId 2"

definition mallory :: endpoint_id where
  "mallory = EndpointId 3"

definition host_fs :: fs where
  "host_fs =
     [([''w''], Dir 493), ([''w'', ''a.txt''], File ''old'' 420), ([''w'', ''ln''], Symlink ''/s''), ([''s''], Dir 448)]"

definition host_stack :: stack where
  "host_stack = \<lparr>st_local = [], st_remote = [''new''], st_outbox = []\<rparr>"

definition alice_only :: allow_list where
  "alice_only = \<lparr>al_open_all = False, al_peers = [(alice, peer_info_new None 7)]\<rparr>"

definition host :: "stack peer_node" where
  "host =
     \<lparr>fs = host_fs, faults = [], umask = 18, mono_ms = 5, sys_time = Some (9, 3),
      blobs = host_stack, sync = sync_state_new, allow = alice_only\<rparr>"

definition sender_host :: "stack peer_node" where
  "sender_host = host\<lparr>fs := [([''w''], Dir 493), ([''w'', ''a.txt''], File ''new'' 420)]\<rparr>"

definition host_pending :: pending_tracker where
  "host_pending = \<lparr>pt_pending_root = [''s'', ''pending''], pt_repo_hash = ''00ff''\<rparr>"

definition msg_upsert :: "str \<Rightarrow> endpoint_id \<Rightarrow> bytes" where
  "msg_upsert p i = put_update \<lparr>su_version = 2, su_body = Upsert p (BlobHash ''new'') Raw \<lparr>peer_id = i\<rparr>\<rparr>"

definition msg_tombstone :: "str \<Rightarrow> endpoint_id \<Rightarrow> bytes" where
  "msg_tombstone p i = put_update \<lparr>su_version = 2, su_body = Tombstone p \<lparr>peer_id = i\<rparr>\<rparr>"

section \<open>Facts about the samples\<close>

lemma host_fields [simp]:
  "fs host = host_fs" "faults host = []" "blobs host = host_stack" "sync host = sync_state_new" "allow host = alice_only"
  "umask host = 18" "mono_ms host = 5" "sys_time host = Some (9, 3)"
  by (simp_all add: host_def)

lemma host_wf: "wf_fs host_fs"
  by (auto simp: wf_fs_def host_fs_def node_at_def dir_at_def split: if_splits)

lemma host_root: "real_dir host_fs [''w'']" "plain host_fs [''w'']"
proof -
  show r: "real_dir host_fs [''w'']" by (simp add: real_dir_def dir_at_def node_at_def host_fs_def normal_def)
  show "plain host_fs [''w'']" by (rule real_dir_plain [OF host_wf r])
qed

lemma host_file: "node_at host_fs [''w'', ''a.txt''] = Some (File ''old'' 420)"
  by (simp add: node_at_def host_fs_def)

lemma sender_host_facts:
  "wf_fs (fs sender_host)" "plain (fs sender_host) [''w'']"
  "node_at (fs sender_host) [''w'', ''a.txt''] = Some (File ''new'' 420)"
proof -
  show w: "wf_fs (fs sender_host)"
    by (auto simp: wf_fs_def sender_host_def node_at_def dir_at_def split: if_splits)
  have "real_dir (fs sender_host) [''w'']"
    by (simp add: real_dir_def dir_at_def node_at_def sender_host_def normal_def)
  then show "plain (fs sender_host) [''w'']" by (rule real_dir_plain [OF w])
  show "node_at (fs sender_host) [''w'', ''a.txt''] = Some (File ''new'' 420)"
    by (simp add: sender_host_def node_at_def)
qed

lemma host_dir_path: "dir_path host_fs [''s'', ''pending'', ''00ff'']"
proof -
  have "q = [] \<or> q = [''s''] \<or> q = [''s'', ''pending''] \<or> q = [''s'', ''pending'', ''00ff'']"
    if "prefix q [''s'', ''pending'', ''00ff'']" for q
    using that by (auto simp: prefix_Cons)
  then show ?thesis
    by (auto simp: dir_path_def normal_def node_at_def host_fs_def dir_at_def)
qed

lemma host_state_dir: "dir_path host_fs [''s'']"
  using dir_path_prefix [OF host_dir_path, of "[''s'']"] by simp

lemma host_store_path: "normal n \<Longrightarrow> \<not> suffix ''.tmp'' n \<Longrightarrow> store_path host_fs [''s'', n]"
  using host_state_dir by (simp add: store_path_def)

lemma host_missing: "node_at host_fs [''s'', n] = None"
  by (simp add: node_at_def host_fs_def)

lemma file_names:
  "normal ''endpoint.key''" "\<not> suffix ''.tmp'' ''endpoint.key''"
  "normal ''folder-secret.bin''" "\<not> suffix ''.tmp'' ''folder-secret.bin''"
  "normal ''allowlist.json''" "\<not> suffix ''.tmp'' ''allowlist.json''"
  "normal ''bootstrap-peers.json''" "\<not> suffix ''.tmp'' ''bootstrap-peers.json''"
  by code_simp+

lemma host_pending_dir: "pending_dir host_pending = [''s'', ''pending'', ''00ff'']"
  unfolding pending_dir_def host_pending_def by code_simp

lemma host_watch: "watch_inv [''w''] host_pending host_fs" "disjoint_dirs [''w''] (pending_dir host_pending)"
  using host_wf host_root host_dir_path by (simp_all add: watch_inv_def host_pending_dir disjoint_dirs_def)

lemma sample_upsert:
  "fst (dispatch_update stack_peer (msg_upsert ''a.txt'' alice) [''w''] host_pending None host) = Inr Applied"
  by code_simp

lemma sample_parse:
  "from_bytes wire_codec (msg_upsert p i) =
     (case validate_relative_path p of Inl e \<Rightarrow> Inl e | Inr _ \<Rightarrow>
        Inr \<lparr>su_version = 2, su_body = Upsert p (BlobHash ''new'') Raw \<lparr>peer_id = i\<rparr>\<rparr>)"
  "from_bytes wire_codec (msg_tombstone p i) =
     (case validate_relative_path p of Inl e \<Rightarrow> Inl e | Inr _ \<Rightarrow>
        Inr \<lparr>su_version = 2, su_body = Tombstone p \<lparr>peer_id = i\<rparr>\<rparr>)"
  by (simp_all add: from_bytes_def wire_codec_def msg_upsert_def msg_tombstone_def su_path_def
      SYNC_UPDATE_VERSION_def split: sum.splits)

lemma sample_valid: "validate_relative_path ''a.txt'' = Inr ()"
  by code_simp

section \<open>A daemon\<close>

definition some_params :: "str \<Rightarrow> json \<Rightarrow> str + str" where
  "some_params k j = (case json_get k j of Some (JStr s) \<Rightarrow> Inr s | _ \<Rightarrow> Inl (''missing field '' @ k))"

definition opt_param :: "str \<Rightarrow> json \<Rightarrow> str option" where
  "opt_param k j = (case json_get k j of Some (JStr s) \<Rightarrow> Some s | _ \<Rightarrow> None)"

definition nat_param :: "str \<Rightarrow> json \<Rightarrow> str + nat option" where
  "nat_param k j = (case json_get k j of
     None \<Rightarrow> Inr None | Some JNull \<Rightarrow> Inr None | Some (JInt i) \<Rightarrow> (if i < 0 then Inl ''invalid value'' else Inr (Some (nat i)))
   | Some _ \<Rightarrow> Inl ''invalid type'')"

definition stack_rpc :: "stack rpc_api" where
  "stack_rpc =
     \<lparr>rp_peer = stack_peer, rp_allow_codec = file_allow, rp_boot_codec = file_boot,
      rp_addr = (\<lambda>_. \<lparr>addr_id = me, addr_info = ''relay''\<rparr>),
      rp_accept_params = (\<lambda>j. case some_params ''ticket'' j of Inl e \<Rightarrow> Inl e | Inr t \<Rightarrow> Inr (t, opt_param ''label'' j)),
      rp_allow_params = (\<lambda>j. case some_params ''peer_id'' j of Inl e \<Rightarrow> Inl e | Inr t \<Rightarrow> Inr (t, opt_param ''label'' j)),
      rp_revoke_params = some_params ''peer_id'',
      rp_limit_params = nat_param ''limit'', rp_lines_params = nat_param ''lines'',
      rp_entry_json = (\<lambda>e. JStr (pe_rel_path e)), rp_show_io = (\<lambda>k. ''I/O error'')\<rparr>"

lemma stack_rpc_simps [simp]:
  "rp_peer stack_rpc = stack_peer" "rp_allow_codec stack_rpc = file_allow" "rp_boot_codec stack_rpc = file_boot"
  by (simp_all add: stack_rpc_def)

lemma stack_rpc_ok: "rpc_api_ok stack_rpc"
  by (simp add: rpc_api_ok_def instances_ok)

definition host_paths :: daemon_paths where
  "host_paths =
     \<lparr>watched_dir_canonical = [''w''], socket_path = [''s'', ''daemon.sock''], lock_path = [''s'', ''daemon.lock''],
      allowlist_path = [''s'', ''allowlist.json''], folder_secret_path = [''s'', ''folder-secret.bin''],
      key_path = [''s'', ''endpoint.key''], blobs_dir = [''s'', ''blobs''], log_path = [''s'', ''dirhive.log''],
      bootstrap_peers_path = [''s'', ''bootstrap-peers.json'']\<rparr>"

definition host_state :: "unit daemon_state" where
  "host_state =
     \<lparr>ds_paths = host_paths, ds_pending = host_pending, self_endpoint_id = me,
      gossip_runtime = \<lparr>gr_status = Uninitialized, gr_sender = None\<rparr>, start_instant = 0, last_seen_at = [],
      gossip_joined = False, pending_initial_broadcasts = []\<rparr>"

definition host_daemon :: "(stack, unit) daemon" where
  "host_daemon =
     \<lparr>fs = (([''s'', ''dirhive.log''], File ''token dirhive1-ABCDEF'' 420) # host_fs), faults = [], umask = 18, mono_ms = 5,
      sys_time = Some (9, 3), blobs = host_stack, sync = sync_state_new, allow = alice_only, \<dots> = host_state\<rparr>"

lemma host_daemon_fields [simp]:
  "fs host_daemon = ([''s'', ''dirhive.log''], File ''token dirhive1-ABCDEF'' 420) # host_fs" "faults host_daemon = []"
  "allow host_daemon = alice_only" "peer_node.more host_daemon = host_state" "blobs host_daemon = host_stack"
  "ds_paths host_state = host_paths" "folder_secret_path host_paths = [''s'', ''folder-secret.bin'']"
  "allowlist_path host_paths = [''s'', ''allowlist.json'']" "bootstrap_peers_path host_paths = [''s'', ''bootstrap-peers.json'']"
  by (simp_all add: host_daemon_def host_state_def host_paths_def)

lemma host_daemon_wf: "wf_fs (fs host_daemon)"
  by (auto simp: wf_fs_def host_fs_def node_at_def dir_at_def split: if_splits)

lemma host_daemon_state_dir: "dir_path (fs host_daemon) [''s'']"
proof -
  have "q = [] \<or> q = [''s'']" if "prefix q [''s'']" for q using that by (auto simp: prefix_Cons)
  then show ?thesis by (auto simp: dir_path_def normal_def node_at_def host_fs_def dir_at_def)
qed

lemma host_daemon_layout:
  "store_layout (fs host_daemon) {[''s'', ''folder-secret.bin''], [''s'', ''allowlist.json''], [''s'', ''bootstrap-peers.json'']}"
proof -
  have "\<not> suffix ''.tmp'' ''s''" by code_simp
  then show ?thesis
    using file_names host_daemon_state_dir
    by (auto simp: store_layout_def store_path_def node_at_def host_fs_def prefix_Cons)
qed

lemma host_daemon_empty:
  "node_at (fs host_daemon) [''s'', ''folder-secret.bin''] = None"
  by (simp add: node_at_def host_fs_def)

text \<open>The same daemon with its topic joined.\<close>

definition live_state :: "unit daemon_state" where
  "live_state = host_state\<lparr>gossip_runtime := \<lparr>gr_status = Active, gr_sender = Some ()\<rparr>, gossip_joined := True\<rparr>"

definition live_daemon :: "(stack, unit) daemon" where
  "live_daemon =
     \<lparr>fs = host_fs, faults = [], umask = 18, mono_ms = 5, sys_time = Some (9, 3), blobs = host_stack,
      sync = sync_state_new, allow = alice_only, \<dots> = live_state\<rparr>"

lemma live_daemon_fields [simp]:
  "fs live_daemon = host_fs" "faults live_daemon = []" "blobs live_daemon = host_stack" "sync live_daemon = sync_state_new"
  "allow live_daemon = alice_only" "peer_node.more live_daemon = live_state"
  "gossip_joined live_state" "pending_initial_broadcasts live_state = []" "ds_paths live_state = host_paths"
  by (simp_all add: live_daemon_def live_state_def host_state_def)

section \<open>An invite\<close>

text \<open>The ticket of a group of Alice, and a request that accepts it.\<close>

definition sample_ticket :: str where
  "sample_ticket =
     (case encode wire_codec (ticket_new \<lparr>addr_id = alice, addr_info = ''relay''\<rparr> (replicate 16 (CHR ''k''))) of
        Inr t \<Rightarrow> t | Inl _ \<Rightarrow> '''')"

lemma sample_ticket_decodes:
  "decode wire_codec sample_ticket = Inr (ticket_new \<lparr>addr_id = alice, addr_info = ''relay''\<rparr> (replicate 16 (CHR ''k'')))"
  using decode_encode [OF wire_codec_ok, of "ticket_new \<lparr>addr_id = alice, addr_info = ''relay''\<rparr> (replicate 16 (CHR ''k''))"]
  by (auto simp: sample_ticket_def ticket_new_def)

definition ticket_params :: json where
  "ticket_params = JObj [(''ticket'', JStr sample_ticket)]"

lemma ticket_params_read: "rp_accept_params stack_rpc ticket_params = Inr (sample_ticket, None)"
  by (simp add: stack_rpc_def ticket_params_def some_params_def opt_param_def)

end
