(* ===== verification/Props_Sync.thy ===== *)
theory Props_Sync
  imports Samples
begin

text \<open>
  The properties of the synchronisation path: path safety, who may write, what an applied update
  leaves on disk, what survives a conflict or a failure, and what is sent.
\<close>

section \<open>Paths from the network\<close>

text \<open>
  C1: A path that \<open>resolve_safe_path\<close> accepts is the root followed by one or more ordinary
  components; no component of it, the last one included, is a symbolic link; and nothing is changed.
\<close>

theorem resolved_path_is_safe:
  assumes "wf_fs (fs w)" "plain (fs w) root" "resolve_safe_path root rel w = (Inr p, w')"
  shows "p = root @ path_comps rel \<and> path_comps rel \<noteq> [] \<and> (\<forall>c\<in>set (path_comps rel). normal c)
    \<and> (\<forall>q t. prefix q p \<longrightarrow> node_at (fs w) q \<noteq> Some (Symlink t)) \<and> fs w' = fs w"
proof -
  note i = resolve_safe_path_inv [OF assms(3)]
  have p: "p = root @ path_comps rel" "validate_relative_path rel = Inr ()" using i(3) by blast+
  have pl: "plain (fs w) p" using i(4) assms by blast
  have "node_at (fs w) q \<noteq> Some (Symlink t)" if q: "prefix q p" for q t
  proof (cases "q = p")
    case True
    then show ?thesis using pl by (simp add: plain_def)
  next
    case False
    then obtain r where "p = q @ r" "r \<noteq> []" using q by (auto simp: prefix_def)
    then show ?thesis using plain_dirD [of "fs w" q r] pl by (auto simp: dir_at_def)
  qed
  then show ?thesis using p rel_path_comps [OF p(2)] i(2) by blast
qed

theorem resolved_path_is_safe_witness:
  "\<exists>p w'. resolve_safe_path [''w''] ''a.txt'' host = (Inr p, w') \<and> p = [''w''] @ path_comps ''a.txt'' \<and> fs w' = fs host"
proof -
  have "fst (resolve_safe_path [''w''] ''a.txt'' host) = Inr [''w'', ''a.txt'']" by code_simp
  then obtain w' where r: "resolve_safe_path [''w''] ''a.txt'' host = (Inr [''w'', ''a.txt''], w')"
    by (metis prod.collapse)
  show ?thesis using r resolved_path_is_safe [OF _ _ r] host_wf host_root by auto
qed

text \<open>
  \<open>validate_relative_path\<close> accepts exactly the non-empty sequences of ordinary components (not
  empty, not \<open>.\<close>, not \<open>..\<close>) joined by slashes, without backslashes.
\<close>

theorem valid_paths:
  "validate_relative_path p = Inr () \<longleftrightarrow>
     (\<exists>cs. cs \<noteq> [] \<and> p = join_with (CHR ''/'') cs
        \<and> (\<forall>c\<in>set cs. normal c \<and> CHR ''/'' \<notin> set c \<and> CHR 0x5C \<notin> set c))"
  using validate_iff by (simp add: rel_path_ok_def)

theorem valid_paths_witness:
  "validate_relative_path ''a/b'' = Inr () \<and> validate_relative_path ''../b'' \<noteq> Inr ()"
proof -
  have "validate_relative_path ''a/b'' = Inr ()"
    unfolding valid_paths by (rule exI [of _ "[''a'', ''b'']"]) (simp add: normal_def)
  moreover have "validate_relative_path ''../b'' \<noteq> Inr ()" by code_simp
  ultimately show ?thesis by blast
qed

section \<open>Who may write\<close>

text \<open>
  C17: A gossip stream whose messages are malformed or come from peers that are not allowed leaves
  the whole node as it was: file system, registries, blob store, log and all.
\<close>

theorem strangers_are_ignored:
  assumes "\<forall>c u. Received c \<in> set evs \<longrightarrow> from_bytes (pa_codec pa) c = Inr u \<longrightarrow> \<not> al_contains (allow n) (peer_id (su_from u))"
  shows "receive_loop pa root pt seen None evs n = n"
  using assms
proof (induction evs)
  case (Cons e evs)
  then have "receive_loop pa root pt seen None evs n = n" by (meson list.set_intros(2))
  moreover have "snd (dispatch_update pa c root pt seen n) = n" if "e = Received c" for c
  proof (cases "from_bytes (pa_codec pa) c")
    case (Inl x)
    then show ?thesis by (simp add: dispatch_rejects(1))
  next
    case (Inr u)
    then have "\<not> al_contains (allow n) (peer_id (su_from u))" using Cons.prems that by simp
    then show ?thesis using Inr by (simp add: dispatch_rejects(2))
  qed
  ultimately show ?case by (cases e) auto
qed simp

theorem strangers_are_ignored_witness:
  "receive_loop stack_peer [''w''] host_pending None None
     [Lagged, Received ''garbage'', Received (msg_upsert ''a.txt'' mallory)] host = host"
proof (rule strangers_are_ignored)
  have "\<not> al_contains alice_only mallory"
    by (simp add: al_contains_def alice_only_def alice_def mallory_def)
  moreover have "from_bytes wire_codec ''garbage'' \<noteq> Inr u" for u
  proof -
    have "\<not> isl (su_de wire_codec ''garbage'') \<longrightarrow> False" by code_simp
    then show ?thesis by (auto simp: from_bytes_iff)
  qed
  ultimately show "\<forall>c u. Received c \<in> set [Lagged, Received ''garbage'', Received (msg_upsert ''a.txt'' mallory)] \<longrightarrow>
      from_bytes (pa_codec stack_peer) c = Inr u \<longrightarrow> \<not> al_contains (allow host) (peer_id (su_from u))"
    by (auto simp: sample_parse sample_valid su_from_def)
qed

section \<open>What an update leaves\<close>

text \<open>
  C3: When an upsert is reported as applied, its sender was allowed, the target inside the watched
  directory holds a file whose hash is the announced one and whose size is within the limit, and
  the hash is recorded so that the watcher will not send it back.
\<close>

theorem applied_upsert_is_on_disk:
  assumes "dispatch_update pa payload root pt cb n = (Inr Applied, n')"
    and "from_bytes (pa_codec pa) payload = Inr u" "su_body u = Upsert path hash fmt fr"
    and "watch_inv root pt (fs n)" "disjoint_dirs root (pending_dir pt)" "peer_api_ok pa"
  shows "al_contains (allow n) (peer_id fr) \<and> last_written (sync n') (path_comps path) = Some hash
    \<and> (\<exists>b. hash_new (pa_blob pa) b = hash \<and> length b \<le> MAX_FILE_SIZE
         \<and> node_at (fs n') (root @ path_comps path) = Some (File b 384))"
  by (rule dispatch_upsert_applied [OF assms])

theorem applied_upsert_is_on_disk_witness:
  "\<exists>n'. dispatch_update stack_peer (msg_upsert ''a.txt'' alice) [''w''] host_pending None host = (Inr Applied, n')
    \<and> last_written (sync n') [''a.txt''] = Some (BlobHash ''new'')
    \<and> node_at (fs n') [''w'', ''a.txt''] = Some (File ''new'' 384)"
proof -
  obtain n' where d: "dispatch_update stack_peer (msg_upsert ''a.txt'' alice) [''w''] host_pending None host = (Inr Applied, n')"
    using sample_upsert by (metis prod.collapse)
  have pc: "path_comps ''a.txt'' = [''a.txt'']" by code_simp
  show ?thesis
    using d applied_upsert_is_on_disk [OF d, of _ "''a.txt''" "BlobHash ''new''" Raw "\<lparr>peer_id = alice\<rparr>"]
      host_watch stack_peer_ok by (auto simp: sample_parse sample_valid pc stack_blobs_def)
qed

text \<open>
  C5: When an upsert replaces a file with other content and no I/O error occurs, the old content is
  kept, with its mode, in the conflict backup beside it.
\<close>

theorem conflict_keeps_the_old_version:
  assumes "handle_upsert pa rel hash fmt i root n = (Inr Applied, n')"
    and "wf_fs (fs n)" "plain (fs n) root" "peer_api_ok pa" "faults n = []"
    and "node_at (fs n) (root @ path_comps rel) = Some (File old m)" "hash_new (pa_blob pa) old \<noteq> hash"
  shows "node_at (fs n') (backup_path (pa_ids pa) (target_dir root rel) (target_name rel) i) = Some (File old m)
    \<and> (\<exists>b. node_at (fs n') (root @ path_comps rel) = Some (File b 384) \<and> hash_new (pa_blob pa) b = hash)"
proof -
  obtain b where b: "hash_new (pa_blob pa) b = hash" "node_at (fs n') (root @ path_comps rel) = Some (File b 384)"
    "\<forall>old m. faults n = [] \<and> node_at (fs n) (root @ path_comps rel) = Some (File old m) \<and> old \<noteq> b \<longrightarrow>
       node_at (fs n') (backup_path (pa_ids pa) (target_dir root rel) (target_name rel) i) = Some (File old m)"
    using handle_upsert_fs(3) [OF assms(1-4)] by blast
  have "old \<noteq> b" using b(1) assms(7) by auto
  then show ?thesis using b assms(5,6) by blast
qed

theorem conflict_keeps_the_old_version_witness:
  "\<exists>n'. handle_upsert stack_peer ''a.txt'' (BlobHash ''new'') Raw alice [''w''] host = (Inr Applied, n')
    \<and> node_at (fs n') [''w'', ''a.txt.conflict-local-00000000''] = Some (File ''old'' 420)"
proof -
  have "fst (handle_upsert stack_peer ''a.txt'' (BlobHash ''new'') Raw alice [''w''] host) = Inr Applied" by code_simp
  then obtain n' where h: "handle_upsert stack_peer ''a.txt'' (BlobHash ''new'') Raw alice [''w''] host = (Inr Applied, n')"
    by (metis prod.collapse)
  have pc: "path_comps ''a.txt'' = [''a.txt'']" by code_simp
  have bp: "backup_path hex_ids (target_dir [''w''] ''a.txt'') (target_name ''a.txt'') alice = [''w'', ''a.txt.conflict-local-00000000'']"
    by code_simp
  show ?thesis
    using h conflict_keeps_the_old_version [OF h _ _ stack_peer_ok, of "''old''" 420] host_wf host_root host_file
    by (simp add: pc bp stack_blobs_def)
qed





text \<open>
  C37: The mark of a write in progress never outlives the message that set it, on any path through
  the code: after any stream the marks are among those that were there before.
\<close>

theorem write_marks_do_not_leak:
  "pending_written (sync (receive_loop pa root pt seen up evs n)) \<subseteq>\<^sub>m pending_written (sync n)"
proof (induction evs arbitrary: n)
  case (Cons e evs)
  have "pending_written (sync (snd (dispatch_update pa c root pt seen n))) \<subseteq>\<^sub>m pending_written (sync n)" for c
    using dispatch_pending_written(1) by (metis prod.collapse)
  then have "pending_written (sync (receive_loop pa root pt seen up evs (snd (dispatch_update pa c root pt seen n))))
      \<subseteq>\<^sub>m pending_written (sync n)" for c
    using Cons.IH map_le_trans by blast
  moreover have "pending_written (sync (receive_loop pa root pt seen up evs (case up of None \<Rightarrow> n | Some cb \<Rightarrow> peer_node.more_update (cb i) n)))
      \<subseteq>\<^sub>m pending_written (sync n)" for i
    using Cons.IH [of "case up of None \<Rightarrow> n | Some cb \<Rightarrow> peer_node.more_update (cb i) n"] by (cases up) auto
  ultimately show ?case using Cons.IH by (cases e) auto
qed simp

text \<open>
  A tombstone that is reported as applied leaves no entry at its path, removes nothing else,
  and tells the watcher to expect a removal exactly when there was a file to remove.
\<close>

theorem applied_tombstone_removes:
  assumes "handle_tombstone rel root n = (Inr Applied, n')" "wf_fs (fs n)" "plain (fs n) root"
  shows "node_at (fs n') (root @ path_comps rel) = None
    \<and> (\<forall>q. q = root @ path_comps rel \<or> node_at (fs n') q = node_at (fs n) q)
    \<and> (path_comps rel \<in> last_removed (sync n') \<longleftrightarrow> node_at (fs n) (root @ path_comps rel) \<noteq> None)"
proof -
  have "path_comps rel \<in> last_removed (sync n') \<longleftrightarrow> node_at (fs n) (root @ path_comps rel) \<noteq> None"
    using assms(1-3) by (cases rule: handle_tombstone_inv) auto
  then show ?thesis using handle_tombstone_fs [OF assms] by blast
qed

theorem applied_tombstone_removes_witness:
  "\<exists>n'. handle_tombstone ''a.txt'' [''w''] host = (Inr Applied, n') \<and> node_at (fs n') [''w'', ''a.txt''] = None
    \<and> [''a.txt''] \<in> last_removed (sync n')"
proof -
  have "fst (handle_tombstone ''a.txt'' [''w''] host) = Inr Applied" by code_simp
  then obtain n' where h: "handle_tombstone ''a.txt'' [''w''] host = (Inr Applied, n')" by (metis prod.collapse)
  have pc: "path_comps ''a.txt'' = [''a.txt'']" by code_simp
  show ?thesis using h applied_tombstone_removes [OF h] host_wf host_root host_file by (simp add: pc)
qed

section \<open>What is sent\<close>

text \<open>
  C36: After an attempt to broadcast a tombstone, successful or not, the same path is not broadcast
  again for two seconds, and is broadcast again after that.
\<close>

theorem tombstone_once_per_window:
  assumes "validate_relative_path rel = Inr ()" "\<not> in_dedup_window n (path_comps rel)"
    and "broadcast_tombstone bc ca rel self n = (r, n')" "sync n'' = sync n'" "mono_ms n'' = mono_ms n + d"
  shows "(broadcast_tombstone bc ca rel self n'' = (Inr False, n'') \<longleftrightarrow> d < TOMBSTONE_DEDUP_TTL) \<and> r \<noteq> Inr False"
proof -
  note t = tombstone_dedup [OF assms(1,3,2,4,5)]
  have "broadcast_tombstone bc ca rel self n'' = (Inr False, n'') \<longleftrightarrow> d < TOMBSTONE_DEDUP_TTL"
  proof (cases "d < TOMBSTONE_DEDUP_TTL")
    case True
    then show ?thesis using t(1) by simp
  next
    case False
    then have "fst (broadcast_tombstone bc ca rel self n'') \<noteq> Inr False" using t(2) by simp
    then show ?thesis using False by auto
  qed
  then show ?thesis using broadcast_tombstone_marks(3) [OF assms(1,3,2)] by blast
qed

theorem tombstone_once_per_window_witness:
  "\<exists>r n'. broadcast_tombstone stack_gossip wire_codec ''a.txt'' \<lparr>peer_id = me\<rparr> host = (r, n') \<and> r \<noteq> Inr False
    \<and> broadcast_tombstone stack_gossip wire_codec ''a.txt'' \<lparr>peer_id = me\<rparr> (n'\<lparr>mono_ms := 7\<rparr>) = (Inr False, n'\<lparr>mono_ms := 7\<rparr>)"
proof -
  obtain r n' where b: "broadcast_tombstone stack_gossip wire_codec ''a.txt'' \<lparr>peer_id = me\<rparr> host = (r, n')" by fastforce
  have "\<not> in_dedup_window host (path_comps ''a.txt'')" by (simp add: in_dedup_window_def sync_state_new_def)
  then show ?thesis
    using b tombstone_once_per_window [OF sample_valid _ b, of "n'\<lparr>mono_ms := 7\<rparr>" 2] by (simp add: TOMBSTONE_DEDUP_TTL_def)
qed

text \<open>
  What \<open>send_file\<close> announces is what is on disk: on success the file was a regular file within
  the limit, its bytes are in the blob store under the announced hash, the message handed to gossip
  decodes to exactly this upsert, and the file system is unchanged.
\<close>

theorem send_announces_the_file:
  assumes "send_file ba bc ca rel root self n = (Inr (), n')"
    and "wf_fs (fs n)" "plain (fs n) root" "blob_ok ba" "codec_ok ca"
  shows "\<exists>bytes m b1 payload. node_at (fs n) (root @ path_comps rel) = Some (File bytes m)
    \<and> length bytes \<le> MAX_FILE_SIZE \<and> bl_read ba (hash_new ba bytes) b1 = Inr bytes
    \<and> bc payload b1 = (Inr (), blobs n')
    \<and> from_bytes ca payload = Inr \<lparr>su_version = 2, su_body = Upsert rel (hash_new ba bytes) Raw self\<rparr>
    \<and> fs n' = fs n"
proof -
  obtain bytes m hash b1 payload where s:
    "node_at (fs n) (root @ path_comps rel) = Some (File bytes m)" "length bytes \<le> MAX_FILE_SIZE"
    "bl_add ba bytes (blobs n) = (Inr hash, b1)"
    "to_bytes ca \<lparr>su_version = 2, su_body = Upsert rel hash Raw self\<rparr> = Inr payload"
    "bc payload b1 = (Inr (), blobs n')" "fs n' = fs n" "validate_relative_path rel = Inr ()"
    using send_file_ok [OF assms(1-3)] by blast
  have h: "hash = hash_new ba bytes" "bl_read ba hash b1 = Inr bytes" using assms(4) s(3) by (auto simp: blob_ok_def)
  have "from_bytes ca payload = Inr \<lparr>su_version = 2, su_body = Upsert rel hash Raw self\<rparr>"
    using to_bytes_from_bytes [OF assms(5), of "\<lparr>su_version = 2, su_body = Upsert rel hash Raw self\<rparr>"] s(4,7)
    by (auto simp: su_path_def)
  then show ?thesis using s h by blast
qed

theorem send_announces_the_file_witness:
  "\<exists>n' payload. send_file stack_blobs stack_gossip wire_codec ''a.txt'' [''w''] \<lparr>peer_id = me\<rparr> host = (Inr (), n')
    \<and> from_bytes wire_codec payload = Inr \<lparr>su_version = 2, su_body = Upsert ''a.txt'' (BlobHash ''old'') Raw \<lparr>peer_id = me\<rparr>\<rparr>"
proof -
  have "fst (send_file stack_blobs stack_gossip wire_codec ''a.txt'' [''w''] \<lparr>peer_id = me\<rparr> host) = Inr ()" by code_simp
  then obtain n' where s: "send_file stack_blobs stack_gossip wire_codec ''a.txt'' [''w''] \<lparr>peer_id = me\<rparr> host = (Inr (), n')"
    by (metis prod.collapse)
  have pc: "path_comps ''a.txt'' = [''a.txt'']" by code_simp
  show ?thesis
    using s send_announces_the_file [OF s _ _ stack_blobs_ok wire_codec_ok] host_wf host_root host_file
    by (auto simp: pc stack_blobs_def)
qed

text \<open>
  The two ends agree: when one node's \<open>send_file\<close> succeeds and another node applies the message
  it announced, the file of the second node has exactly the bytes of the first, provided the hash
  has no collisions.
\<close>

theorem sent_file_arrives:
  assumes "send_file (pa_blob pa) bc (pa_codec pa) rel rootA self a = (Inr (), a')"
    and "wf_fs (fs a)" "plain (fs a) rootA" "peer_api_ok pa" "inj (hash_new (pa_blob pa))"
    and "node_at (fs a) (rootA @ path_comps rel) = Some (File bytes mode)"
  shows "\<exists>payload b1. bc payload b1 = (Inr (), blobs a')
    \<and> to_bytes (pa_codec pa) \<lparr>su_version = 2, su_body = Upsert rel (hash_new (pa_blob pa) bytes) Raw self\<rparr> = Inr payload
    \<and> (\<forall>rootB pt cb b b'. dispatch_update pa payload rootB pt cb b = (Inr Applied, b') \<longrightarrow>
         watch_inv rootB pt (fs b) \<longrightarrow> disjoint_dirs rootB (pending_dir pt) \<longrightarrow>
         node_at (fs b') (rootB @ path_comps rel) = Some (File bytes 384))"
proof -
  obtain b0 m hash b1 payload where s: "node_at (fs a) (rootA @ path_comps rel) = Some (File b0 m)"
    "bl_add (pa_blob pa) b0 (blobs a) = (Inr hash, b1)"
    "to_bytes (pa_codec pa) \<lparr>su_version = 2, su_body = Upsert rel hash Raw self\<rparr> = Inr payload"
    "bc payload b1 = (Inr (), blobs a')" "validate_relative_path rel = Inr ()"
    using send_file_ok [OF assms(1-3)] by blast
  have b0: "b0 = bytes" using s(1) assms(6) by simp
  have h: "hash = hash_new (pa_blob pa) bytes" using peer_api_okD(2) [OF assms(4)] s(2) b0 by (auto simp: blob_ok_def)
  have p: "from_bytes (pa_codec pa) payload = Inr \<lparr>su_version = 2, su_body = Upsert rel hash Raw self\<rparr>"
    using to_bytes_from_bytes [OF peer_api_okD(3) [OF assms(4)], of "\<lparr>su_version = 2, su_body = Upsert rel hash Raw self\<rparr>"] s(3,5)
    by (auto simp: su_path_def)
  have "node_at (fs b') (rootB @ path_comps rel) = Some (File bytes 384)"
    if d: "dispatch_update pa payload rootB pt cb b = (Inr Applied, b')"
      and i: "watch_inv rootB pt (fs b)" "disjoint_dirs rootB (pending_dir pt)" for rootB pt cb b b'
    using dispatch_upsert_applied [OF d p, of rel hash Raw self] i assms(4) h injD [OF assms(5)] by auto
  then show ?thesis using s h by blast
qed

theorem sent_file_arrives_witness:
  "\<exists>a'. send_file stack_blobs stack_gossip wire_codec ''a.txt'' [''w''] \<lparr>peer_id = alice\<rparr> sender_host = (Inr (), a')
    \<and> node_at (fs (snd (dispatch_update stack_peer (msg_upsert ''a.txt'' alice) [''w''] host_pending None host))) [''w'', ''a.txt'']
        = Some (File ''new'' 384)"
proof -
  have "fst (send_file stack_blobs stack_gossip wire_codec ''a.txt'' [''w''] \<lparr>peer_id = alice\<rparr> sender_host) = Inr ()" by code_simp
  then obtain a' where s: "send_file (pa_blob stack_peer) stack_gossip (pa_codec stack_peer) ''a.txt'' [''w''] \<lparr>peer_id = alice\<rparr> sender_host = (Inr (), a')"
    by (metis prod.collapse stack_peer_simps(2,3))
  have pc: "path_comps ''a.txt'' = [''a.txt'']" by code_simp
  have "inj (hash_new (pa_blob stack_peer))" by (auto simp: stack_blobs_def inj_def)
  moreover have "wf_fs (fs sender_host)" "plain (fs sender_host) [''w'']"
    "node_at (fs sender_host) ([''w''] @ path_comps ''a.txt'') = Some (File ''new'' 420)"
    using sender_host_facts by (auto simp: pc)
  ultimately obtain payload where p:
    "to_bytes wire_codec \<lparr>su_version = 2, su_body = Upsert ''a.txt'' (BlobHash ''new'') Raw \<lparr>peer_id = alice\<rparr>\<rparr> = Inr payload"
    "\<forall>rootB pt cb (b :: stack peer_node) b'. dispatch_update stack_peer payload rootB pt cb b = (Inr Applied, b') \<longrightarrow>
         watch_inv rootB pt (fs b) \<longrightarrow> disjoint_dirs rootB (pending_dir pt) \<longrightarrow>
         node_at (fs b') (rootB @ path_comps ''a.txt'') = Some (File ''new'' 384)"
    using sent_file_arrives [OF s _ _ stack_peer_ok, of "''new''" 420] by (auto simp: stack_blobs_def)
  have "payload = msg_upsert ''a.txt'' alice" using p(1) by (simp add: to_bytes_def wire_codec_def msg_upsert_def)
  moreover obtain b' where "dispatch_update stack_peer (msg_upsert ''a.txt'' alice) [''w''] host_pending None host = (Inr Applied, b')"
    using sample_upsert by (metis prod.collapse)
  ultimately show ?thesis using s p(2) [rule_format, of "[''w'']" host_pending None host b'] host_watch by (simp add: pc)
qed

section \<open>What the watcher forwards\<close>

text \<open>
  The debouncer's handler forwards exactly the events, in batches without errors, that are
  changes and name no skippable path below the root.
\<close>

theorem watcher_forwards_changes:
  "ev \<in> set (watcher_handler root batches) \<longleftrightarrow>
     (\<exists>evs. Inr evs \<in> set batches \<and> ev \<in> set evs) \<and> ev_kind ev \<noteq> Access \<and> ev_kind ev \<noteq> OtherEvent
     \<and> \<not> list_ex (\<lambda>p. path_is_skippable (case strip_path_prefix root p of Some rel \<Rightarrow> rel | None \<Rightarrow> p)) (ev_paths ev)"
proof -
  have "should_skip_under_root ev root \<longleftrightarrow> ev_kind ev = Access \<or> ev_kind ev = OtherEvent
      \<or> list_ex (\<lambda>p. path_is_skippable (case strip_path_prefix root p of Some rel \<Rightarrow> rel | None \<Rightarrow> p)) (ev_paths ev)"
    by (simp add: should_skip_under_root_def option.case_distrib [of path_is_skippable])
  then show ?thesis using watcher_handler_sound watcher_handler_complete by meson
qed

text \<open>
  C38: The files the daemon itself creates in the watched directory, conflict backups and temporary
  files, are never forwarded by the watcher, in whatever subdirectory they lie.
\<close>

theorem own_files_are_not_forwarded:
  assumes "id_ok ids" "utf8_valid mid" "prefix root d"
    and "p = d @ [conflict_backup_name ids name i] \<or> p = d @ [''.dirhive.'' @ mid @ ''.tmp'']" "p \<in> set (ev_paths ev)"
  shows "ev \<notin> set (watcher_handler root batches)"
proof -
  have "should_skip_under_root ev root"
    using assms by (intro own_files_skipped [of ids mid d name i ev root]) auto
  then show ?thesis using watcher_handler_sound by blast
qed

theorem own_files_are_not_forwarded_witness:
  "\<lparr>ev_kind = Create, ev_paths = [[''w'', ''a.txt.conflict-local-00000000'']]\<rparr> \<notin>
     set (watcher_handler [''w''] [Inr [\<lparr>ev_kind = Create, ev_paths = [[''w'', ''a.txt.conflict-local-00000000'']]\<rparr>]])"
proof -
  have n: "conflict_backup_name hex_ids ''a.txt'' alice = ''a.txt.conflict-local-00000000''" by code_simp
  have "utf8_valid ''x''" by code_simp
  then show ?thesis
    by (rule own_files_are_not_forwarded [OF hex_ids_ok _ prefix_order.refl [of "[''w'']"],
        of _ "[''w'', ''a.txt.conflict-local-00000000'']" "''a.txt''" alice]) (simp_all add: n)
qed

text \<open>
  The loop behind the watcher looks at the first path of an event only: of a rename, which the
  debouncer reports as one event with the old and the new path, the new path is not handed on.
\<close>

theorem rename_forwards_the_old_path_only:
  "watcher_loop root f [\<lparr>ev_kind = Modify, ev_paths = [root @ [old], root @ [new]]\<rparr>] n =
     f \<lparr>ev_kind = Modify, ev_paths = [root @ [old], root @ [new]]\<rparr> [old] n"
  by simp

end
