(* ===== verification/Props_Storage.thy ===== *)
theory Props_Storage
  imports Samples
begin

text \<open>
  The properties of what the daemon keeps on disk and sends as text: messages, tickets, keys, the
  allowlist with its locks, the bootstrap peers, the change log.
\<close>

section \<open>Messages and tickets\<close>

text \<open>
  An update of the current version with a valid path survives serialization; and whatever
  \<open>from_bytes\<close> returns is an update of the current version with a valid path.
\<close>

theorem sync_update_round_trip:
  assumes "codec_ok a" "upsert p h f r = Inr u \<or> tombstone p r = Inr u"
  shows "(\<exists>b. to_bytes a u = Inr b \<and> from_bytes a b = Inr u)
    \<and> (\<forall>b v. from_bytes a b = Inr v \<longrightarrow> su_version v = SYNC_UPDATE_VERSION \<and> rel_path_ok (su_path v))"
proof -
  have "su_version u = 2" "validate_relative_path (su_path u) = Inr ()"
    using assms(2) by (auto simp: upsert_iff tombstone_iff su_path_def)
  then show ?thesis
    using to_bytes_from_bytes [OF assms(1)] by (auto simp: from_bytes_iff validate_iff SYNC_UPDATE_VERSION_def)
qed

theorem sync_update_round_trip_witness:
  "\<exists>u b. upsert ''a.txt'' (BlobHash ''x'') Raw \<lparr>peer_id = me\<rparr> = Inr u \<and> to_bytes wire_codec u = Inr b \<and> from_bytes wire_codec b = Inr u"
proof -
  obtain u where u: "upsert ''a.txt'' (BlobHash ''x'') Raw \<lparr>peer_id = me\<rparr> = Inr u"
    by (auto simp: upsert_iff sample_valid)
  then show ?thesis using sync_update_round_trip [OF wire_codec_ok disjI1 [OF u]] by blast
qed

text \<open>
  C40: An invite ticket decodes to the address and the folder secret it was made of, in whatever
  mixture of upper and lower case it was typed after the prefix.
\<close>

theorem ticket_round_trip:
  assumes "codec_ok a" "length s = 16"
  shows "\<exists>t. encode a (ticket_new e s) = Inr (INVITE_PREFIX @ t)
    \<and> (\<forall>t'. to_ascii_uppercase t' = t \<longrightarrow> decode a (INVITE_PREFIX @ t') = Inr (ticket_new e s))
    \<and> decode a (INVITE_PREFIX @ t) = Inr (ticket_new e s)"
  using decode_encode [OF assms(1), of "ticket_new e s"] assms(2) by (auto simp: ticket_new_def)

theorem ticket_round_trip_witness:
  "\<exists>t. encode wire_codec (ticket_new \<lparr>addr_id = me, addr_info = ''relay''\<rparr> (replicate 16 (CHR ''k''))) = Inr t
    \<and> decode wire_codec t = Inr (ticket_new \<lparr>addr_id = me, addr_info = ''relay''\<rparr> (replicate 16 (CHR ''k'')))"
proof -
  have "length (replicate 16 (CHR ''k'')) = 16" by simp
  then show ?thesis using ticket_round_trip [OF wire_codec_ok] by blast
qed

text \<open>
  A string that does not start with the ticket prefix, or whose folder secret is not 16 bytes,
  is not a ticket: decoding never yields a secret of another length.
\<close>

theorem decoded_secret_is_16_bytes:
  "decode a s = Inr t \<longleftrightarrow>
     (\<exists>raw b j e x. s = INVITE_PREFIX @ raw \<and> b32_decode a (to_ascii_uppercase raw) = Some b \<and> tj_de a b = Inr j
        \<and> ticket_parse a (tj_endpoint_ticket j) = Inr e
        \<and> b32_decode a (to_ascii_uppercase (tj_folder_secret j)) = Some x \<and> length x = 16 \<and> t = ticket_new e x)"
proof -
  have e: "(case r of Inl e \<Rightarrow> Inl (f e) | Inr t \<Rightarrow> Inr t) = Inr y \<longleftrightarrow> r = Inr y"
    for r :: "str + endpoint_ticket" and f :: "str \<Rightarrow> err" and y
    by (cases r) auto
  show ?thesis
    by (auto simp: e decode_def res_bind_Inr_iff Let_def strip_prefix_def prefix_def ticket_new_def split: if_splits)
qed

section \<open>Keys and secrets\<close>

text \<open>
  C35: The endpoint key is generated once: when the key file is missing, a successful load creates it
  with mode 0600 and the generated bytes, and every later load returns the same key.
\<close>

theorem endpoint_key_is_stable:
  assumes "wf_fs (fs w)" "store_path (fs w) p" "tempfile_ok tf" "length rnd = KEY_BYTES"
    and "node_at (fs w) p = None" "load_or_create_endpoint_key rnd tf p w = (Inr k, w')" "faults w' = []"
  shows "k = SecretKey rnd \<and> node_at (fs w') p = Some (File rnd 384)
    \<and> load_or_create_endpoint_key rnd' tf p w' = (Inr k, w')"
  using created_key_reloaded [OF assms(1-3) _ assms(5,7,6)] assms(4) by (simp add: KEY_BYTES_def)

theorem endpoint_key_is_stable_witness:
  "\<exists>k w'. load_or_create_endpoint_key (replicate 32 (CHR ''r'')) tmp_files [''s'', ''endpoint.key''] host = (Inr k, w')
    \<and> load_or_create_endpoint_key (replicate 32 (CHR ''z'')) tmp_files [''s'', ''endpoint.key''] w' = (Inr k, w')"
proof -
  let ?r = "load_or_create_endpoint_key (replicate 32 (CHR ''r'')) tmp_files [''s'', ''endpoint.key''] host"
  have "fst ?r = Inr (SecretKey (replicate 32 (CHR ''r'')))" "faults (snd ?r) = []" by code_simp+
  then obtain k w' where r: "?r = (Inr k, w')" "faults w' = []" by (metis prod.collapse)
  show ?thesis
    using r endpoint_key_is_stable [OF _ _ tmp_files_ok _ _ r] host_wf host_store_path [OF file_names(1,2)] host_missing
    by (simp add: KEY_BYTES_def)
qed

text \<open>
  The folder secret that was persisted is the one that is loaded; its file and its directory are
  private; a failed write leaves the file as it was; and no other file is touched.
\<close>

theorem folder_secret_store:
  assumes "wf_fs (fs w)" "store_path (fs w) p" "tempfile_ok tf" "length s = FOLDER_SECRET_BYTES"
    and "persist_folder_secret tf p s w = (r, w')"
  shows "(case r of
       Inr _ \<Rightarrow> node_at (fs w') p = Some (File s 384)
         \<and> (faults w' \<noteq> [] \<or> try_load_folder_secret p w' = (Inr (Some s), w'))
         \<and> (butlast p = [] \<or> node_at (fs w') (butlast p) = Some (Dir 448))
     | Inl _ \<Rightarrow> node_at (fs w') p = node_at (fs w) p)
    \<and> (\<forall>q b m. q = p \<or> node_at (fs w) q \<noteq> Some (File b m) \<or> node_at (fs w') q = Some (File b m))"
proof -
  have g: "tempfile_ok tf \<and> length s = 16" using assms(3,4) by (simp add: FOLDER_SECRET_BYTES_def)
  have c: "secure_post p s w (r, w')" using persist_contract [OF assms(1-3), of s] assms(5) by simp
  have "\<forall>q b m. q = p \<or> node_at (fs w) q \<noteq> Some (File b m) \<or> node_at (fs w') q = Some (File b m)"
    using folder_secret.save_elsewhere [OF assms(1,2) g] assms(5) by (metis snd_conv)
  moreover have "r = Inr u \<Longrightarrow> faults w' = [] \<Longrightarrow> try_load_folder_secret p w' = (Inr (Some s), w')" for u
    using folder_secret.load_after_save [OF assms(1,2) g] assms(5) by simp
  ultimately show ?thesis using c by (auto simp: secure_post_def split: sum.splits)
qed

theorem folder_secret_store_witness:
  "\<exists>w'. persist_folder_secret tmp_files [''s'', ''folder-secret.bin''] (replicate 16 (CHR ''k'')) host = (Inr (), w')
    \<and> node_at (fs w') [''s'', ''folder-secret.bin''] = Some (File (replicate 16 (CHR ''k'')) 384)"
proof -
  let ?r = "persist_folder_secret tmp_files [''s'', ''folder-secret.bin''] (replicate 16 (CHR ''k'')) host"
  have "fst ?r = Inr ()" by code_simp
  then obtain w' where r: "?r = (Inr (), w')" by (metis prod.collapse)
  show ?thesis
    using r folder_secret_store [OF _ _ tmp_files_ok _ r] host_wf host_store_path [OF file_names(3,4)]
    by (simp add: FOLDER_SECRET_BYTES_def)
qed

section \<open>The allowlist\<close>

text \<open>
  C19: \<open>add_and_save\<close> is all or nothing: on success the peer is allowed, in strict mode, and the file
  holds exactly the new list; on any error the list in memory and the file are what they were.
\<close>

theorem add_and_save_atomic:
  assumes "al_env ids a tf p al (fs w)" "add_and_save ids a tf i info p al w = (r, al', w')"
  shows "case r of
      Inr _ \<Rightarrow> al_abs al' = (False, (snd (al_abs al))(i \<mapsto> info)) \<and> al_contains al' i
        \<and> allowlist_file.holds ids a (fs w') p (al_abs al')
    | Inl _ \<Rightarrow> al_abs al' = al_abs al \<and> node_at (fs w') p = node_at (fs w) p"
proof (cases r)
  case (Inl e)
  then show ?thesis using add_and_save_spec(6) [OF assms] by simp
next
  case (Inr u)
  have "r = Inr ()" using Inr by simp
  then have "al' = al_add i info al \<and> allowlist_file.holds ids a (fs w') p (al_abs al')"
    by (rule add_and_save_spec(5) [OF assms])
  then have "al' = al_add i info al" "allowlist_file.holds ids a (fs w') p (al_abs al')" by blast+
  then show ?thesis using Inr by (simp add: al_add_abs al_abs_contains)
qed

theorem add_and_save_atomic_witness:
  "\<exists>al' w'. add_and_save hex_ids file_allow tmp_files mallory (peer_info_new None 4) [''s'', ''allowlist.json''] alice_only host = (Inr (), al', w')
    \<and> al_contains al' mallory"
proof -
  let ?r = "add_and_save hex_ids file_allow tmp_files mallory (peer_info_new None 4) [''s'', ''allowlist.json''] alice_only host"
  have "fst ?r = Inr ()" by code_simp
  then obtain al' w' where r: "?r = (Inr (), al', w')" by (metis prod.collapse)
  have "al_env hex_ids file_allow tmp_files [''s'', ''allowlist.json''] alice_only (fs host)"
    using host_wf host_store_path [OF file_names(5,6)] instances_ok
    by (simp add: al_env_def al_wf_def alice_only_def keys_distinct_def)
  then show ?thesis using r add_and_save_atomic [OF _ r] by simp
qed

text \<open>
  C20: \<open>remove_and_save\<close> likewise: on success it returns what was stored for the peer, which is gone
  from memory and file while the mode stays; on any error nothing changed.
\<close>

theorem remove_and_save_atomic:
  assumes "al_env ids a tf p al (fs w)" "remove_and_save ids a tf i p al w = (r, al', w')"
  shows "case r of
      Inr prev \<Rightarrow> prev = snd (al_abs al) i \<and> al_abs al' = (fst (al_abs al), (snd (al_abs al))(i := None))
        \<and> allowlist_file.holds ids a (fs w') p (al_abs al')
    | Inl _ \<Rightarrow> al_abs al' = al_abs al \<and> node_at (fs w') p = node_at (fs w) p"
proof (cases r)
  case (Inl e)
  then show ?thesis using remove_and_save_spec(6) [OF assms] by simp
next
  case (Inr prev)
  have "prev = snd (al_abs al) i" "al_abs al' = al_abs (snd (al_remove i al))" "allowlist_file.holds ids a (fs w') p (al_abs al')"
    using remove_and_save_spec(5) [OF assms Inr] by (auto simp: al_abs_def)
  then show ?thesis using Inr by (simp add: al_remove_abs)
qed

theorem remove_and_save_atomic_witness:
  "\<exists>al' w'. remove_and_save hex_ids file_allow tmp_files alice [''s'', ''allowlist.json''] alice_only host = (Inr (Some (peer_info_new None 7)), al', w')
    \<and> \<not> al_contains al' alice"
proof -
  let ?r = "remove_and_save hex_ids file_allow tmp_files alice [''s'', ''allowlist.json''] alice_only host"
  have "fst ?r = Inr (Some (peer_info_new None 7))" by code_simp
  then obtain al' w' where r: "?r = (Inr (Some (peer_info_new None 7)), al', w')" by (metis prod.collapse)
  have "al_env hex_ids file_allow tmp_files [''s'', ''allowlist.json''] alice_only (fs host)"
    using host_wf host_store_path [OF file_names(5,6)] instances_ok
    by (simp add: al_env_def al_wf_def alice_only_def keys_distinct_def)
  then have "al_abs al' = (False, (snd (al_abs alice_only))(alice := None))"
    using remove_and_save_atomic [OF _ r] by (simp add: al_abs_def alice_only_def)
  then show ?thesis using r by (auto simp: al_abs_contains)
qed

text \<open>
  C12: However concurrent calls to the allowlist interleave and whichever disk writes fail, the file
  always holds the initial list with exactly the successful calls applied, in the order in which they
  finished; and when no call is under way the list in memory is the same.
\<close>

theorem allowlist_never_loses_an_update:
  assumes "id_ok ids" "allowlist_codec_ok a" "lock_initial ids a s0" "lock_reachable ids a s0 s"
  shows "disk_agrees ids a (ls_disk s) (fold call_abs (ls_log s) (al_abs (ls_mem s0)))
    \<and> (ls_holder s \<noteq> None \<or> al_abs (ls_mem s) = fold call_abs (ls_log s) (al_abs (ls_mem s0)))"
  using no_lost_update [OF assms] by blast

definition two_callers :: lock_state where
  "two_callers =
     \<lparr>ls_mem = empty_strict, ls_disk = None, ls_holder = None,
      ls_pc = (\<lambda>t. if t = 0 then Waiting (AddAndSave alice (peer_info_new None 1)) else Waiting (RemoveAndSave alice)),
      ls_log = []\<rparr>"

theorem allowlist_never_loses_an_update_witness:
  "\<exists>s. lock_reachable hex_ids file_allow two_callers s \<and> ls_holder s = Some 0
    \<and> disk_agrees hex_ids file_allow (ls_disk s) (al_abs empty_strict)"
proof -
  let ?s = "two_callers\<lparr>ls_holder := Some 0, ls_pc := (ls_pc two_callers)(0 := Locked (AddAndSave alice (peer_info_new None 1)))\<rparr>"
  have i: "lock_initial hex_ids file_allow two_callers"
    by (auto simp: lock_initial_def two_callers_def disk_agrees_def)
  have "lock_step hex_ids file_allow two_callers ?s" by (rule lock_step.acquire) (simp_all add: two_callers_def)
  then have r: "lock_reachable hex_ids file_allow two_callers ?s"
    by (rule lock_reachable.step [OF lock_reachable.init])
  show ?thesis
    using r allowlist_never_loses_an_update [OF hex_ids_ok file_allow_ok i r]
    by (intro exI [of _ ?s]) (simp add: two_callers_def)
qed

text \<open>
  Two calls never write the allowlist file at the same time, and a call that is past the
  acquisition of the lock is its holder.
\<close>

theorem allowlist_writers_exclude_each_other:
  assumes "id_ok ids" "allowlist_codec_ok a" "lock_initial ids a s0" "lock_reachable ids a s0 s"
    and "ls_pc s t = Writing c u b" "ls_pc s t' = Writing c' u' b'"
  shows "t = t' \<and> ls_holder s = Some t"
  using persist_lock_exclusive [OF assms] lock_inv_holder [OF lock_inv_reachable [OF assms(1-4)], of t] assms(5) by simp

theorem allowlist_writers_exclude_each_other_witness:
  "\<exists>s c u b. lock_reachable hex_ids file_allow two_callers s \<and> ls_pc s 0 = Writing c u b \<and> ls_holder s = Some 0"
proof -
  let ?c = "AddAndSave alice (peer_info_new None 1)"
  let ?s = "two_callers\<lparr>ls_holder := Some 0, ls_pc := (ls_pc two_callers)(0 := Locked ?c)\<rparr>"
  have i: "lock_initial hex_ids file_allow two_callers"
    by (auto simp: lock_initial_def two_callers_def disk_agrees_def)
  have "lock_step hex_ids file_allow two_callers ?s" by (rule lock_step.acquire) (simp_all add: two_callers_def)
  then have r: "lock_reachable hex_ids file_allow two_callers ?s"
    by (rule lock_reachable.step [OF lock_reachable.init])
  obtain b u g where c: "call_begin hex_ids file_allow ?c (ls_mem ?s) = (Inr (b, u), g)"
    using call_begin_spec [OF hex_ids_ok file_allow_ok, of "ls_mem ?s" ?c] by (auto simp: two_callers_def)
  let ?s2 = "?s\<lparr>ls_mem := g, ls_pc := (ls_pc ?s)(0 := Writing ?c u b)\<rparr>"
  have "lock_step hex_ids file_allow ?s ?s2" by (rule lock_step.mutate [OF _ c]) simp
  then have r2: "lock_reachable hex_ids file_allow two_callers ?s2" by (rule lock_reachable.step [OF r])
  have "ls_pc ?s2 0 = Writing ?c u b" by simp
  then show ?thesis
    using r2 allowlist_writers_exclude_each_other [OF hex_ids_ok file_allow_ok i r2, of 0 ?c u b 0 ?c u b] by blast
qed

section \<open>Bootstrap peers and the change log\<close>

text \<open>
  Adding a bootstrap peer keeps one address per peer: the file afterwards lists the same ids as
  before and the new one, the new address replaces the old one of the same id, and the other
  addresses stay; a failed write leaves the file as it was.
\<close>

theorem bootstrap_peer_is_replaced:
  assumes "wf_fs (fs w)" "store_path (fs w) p" "tempfile_ok tf" "bootstrap_codec_ok a"
    and "add_or_replace a tf p new w = (r, w')" "faults w' = []"
  shows "case r of
      Inl _ \<Rightarrow> node_at (fs w') p = node_at (fs w) p
    | Inr _ \<Rightarrow> \<exists>ps w1 ps'. load_bootstrap_peers a p w = (Inr ps, w1) \<and> load_bootstrap_peers a p w' = (Inr ps', w')
        \<and> addr_id ` set ps' = insert (addr_id new) (addr_id ` set ps)
        \<and> (\<forall>i. find (\<lambda>q. addr_id q = i) ps' = (if i = addr_id new then Some new else find (\<lambda>q. addr_id q = i) ps))
        \<and> (distinct (map addr_id ps') \<or> \<not> distinct (map addr_id ps))"
proof (cases r)
  case (Inl e)
  then show ?thesis using add_or_replace_error [OF assms(1-4)] assms(5) by simp
next
  case (Inr u)
  then have "add_or_replace a tf p new w = (Inr (), w')" using assms(5) by simp
  then obtain ps w1 where l: "load_bootstrap_peers a p w = (Inr ps, w1)"
    "load_bootstrap_peers a p w' = (Inr (replace_or_push new ps), w')"
    using add_or_replace_spec [OF assms(1-4) _ assms(6)] by blast
  have "addr_id ` set (replace_or_push new ps) = insert (addr_id new) (addr_id ` set ps)"
    using replace_or_push_ids [of new ps] by simp
  moreover have "\<forall>i. find (\<lambda>q. addr_id q = i) (replace_or_push new ps)
      = (if i = addr_id new then Some new else find (\<lambda>q. addr_id q = i) ps)"
    using replace_or_push_find by blast
  moreover have "distinct (map addr_id (replace_or_push new ps)) \<or> \<not> distinct (map addr_id ps)"
    using replace_or_push_distinct by blast
  ultimately show ?thesis unfolding Inr sum.case using l by blast
qed

theorem bootstrap_peer_is_replaced_witness:
  "\<exists>w'. add_or_replace file_boot tmp_files [''s'', ''bootstrap-peers.json''] \<lparr>addr_id = alice, addr_info = ''r''\<rparr> host = (Inr (), w')
    \<and> (\<exists>ps'. load_bootstrap_peers file_boot [''s'', ''bootstrap-peers.json''] w' = (Inr ps', w') \<and> alice \<in> addr_id ` set ps')"
proof -
  let ?r = "add_or_replace file_boot tmp_files [''s'', ''bootstrap-peers.json''] \<lparr>addr_id = alice, addr_info = ''r''\<rparr> host"
  have "fst ?r = Inr ()" "faults (snd ?r) = []" by code_simp+
  then obtain w' where r: "?r = (Inr (), w')" "faults w' = []" by (metis prod.collapse)
  then show ?thesis
    using bootstrap_peer_is_replaced [OF _ _ tmp_files_ok file_boot_ok r] host_wf host_store_path [OF file_names(7,8)]
    by fastforce
qed

text \<open>
  C39: A change that was recorded is listed: a later \<open>list_pending\<close> that succeeds returns it, in a
  list ordered from the newest to the oldest reception.
\<close>

theorem recorded_change_is_listed:
  assumes "record_receive a tf root rh e w = (Inr (), w1)" "wf_fs (fs w)" "dir_path (fs w) (path_join root rh)"
    and "tempfile_ok tf" "pending_api_ok a" "\<forall>c\<in>set (pe_source_peer e). is_ascii_hexdigit c"
    and "faults w1 = []" "list_pending a root rh w1 = (Inr es, w2)"
  shows "e \<in> set es \<and> sorted_wrt (\<lambda>x y. pe_received_at y \<le> pe_received_at x) es"
  by (rule recorded_is_listed [OF assms])

theorem recorded_change_is_listed_witness:
  "\<exists>w1 es w2. record_receive file_pending tmp_files [''s'', ''pending''] ''00ff'' (PTombstone 1 ''a'' 9 ''00'') host = (Inr (), w1)
    \<and> list_pending file_pending [''s'', ''pending''] ''00ff'' w1 = (Inr es, w2) \<and> PTombstone 1 ''a'' 9 ''00'' \<in> set es"
proof -
  let ?r = "record_receive file_pending tmp_files [''s'', ''pending''] ''00ff'' (PTombstone 1 ''a'' 9 ''00'') host"
  have "fst ?r = Inr ()" "faults (snd ?r) = []"
    "\<not> isl (fst (list_pending file_pending [''s'', ''pending''] ''00ff'' (snd ?r)))" by code_simp+
  then obtain w1 es w2 where r: "?r = (Inr (), w1)" "faults w1 = []"
    "list_pending file_pending [''s'', ''pending''] ''00ff'' w1 = (Inr es, w2)"
    by (metis prod.collapse sum.collapse(2))
  have "path_join [''s'', ''pending''] ''00ff'' = [''s'', ''pending'', ''00ff'']" by code_simp
  moreover have "\<forall>c\<in>set ''00''. is_ascii_hexdigit c" by code_simp
  ultimately show ?thesis
    using r recorded_change_is_listed [OF r(1) _ _ tmp_files_ok file_pending_ok _ r(2,3)] host_wf host_dir_path by simp
qed



end
