(* ===== verification/Event_Loop.thy ===== *)
theory Event_Loop
  imports Dispatch_Laws
begin

text \<open>
  The closures of \<open>src/src/bin/dirhive.rs\<close> that connect the watcher and the gossip stream with the
  sending side: what the daemon does with a watcher event, and what it does when the first neighbor
  appears.  A closure runs here without interruption by the other tasks.  The lemmas compose it with
  the receiving side: the daemon's own writes and removals are not announced, local changes are.
\<close>

section \<open>The closure of the watcher loop\<close>

text \<open>\<open>Path::to_str\<close> of a relative path.\<close>

definition rel_to_str :: "path \<Rightarrow> str option" where
  "rel_to_str rel = (let s = join_with (CHR ''/'') rel in if utf8_valid s then Some s else None)"

text \<open>Take the mark of \<open>last_written\<close>; the event is the daemon's own when the file has the marked hash.\<close>

definition self_written ::
  "'b peer_api \<Rightarrow> path \<Rightarrow> path \<Rightarrow> ('b, 'z) peer_node_scheme \<Rightarrow> bool \<times> ('b, 'z) peer_node_scheme" where
  "self_written pa watched rel n =
     (let prev_hash = last_written (sync n) rel;
          n1 = n\<lparr>sync := (sync n)\<lparr>last_written := (last_written (sync n))(rel := None)\<rparr>\<rparr> in
      case prev_hash of
        None \<Rightarrow> (False, n1)
      | Some expected \<Rightarrow>
          (case path_exists (watched @ rel) n1 of
             (False, n2) \<Rightarrow> (False, n2)
           | (True, n2) \<Rightarrow>
               (case fs_read (watched @ rel) n2 of
                  (Inr bytes, n3) \<Rightarrow> (hash_new (pa_blob pa) bytes = expected, n3)
                | (Inl _, n3) \<Rightarrow> (False, n3))))"

text \<open>\<open>matches!(kind, Remove(_)) || !abs_target.exists()\<close>\<close>

definition is_removal ::
  "debounced_event \<Rightarrow> path \<Rightarrow> 'z world_scheme \<Rightarrow> bool \<times> 'z world_scheme" where
  "is_removal ev abs_target w =
     (if ev_kind ev = Remove then (True, w)
      else (case path_exists abs_target w of (e, w1) \<Rightarrow> (\<not> e, w1)))"

definition enqueue ::
  "path \<Rightarrow> ('b, 'g) daemon \<Rightarrow> bool \<times> ('b, 'g) daemon" where
  "enqueue rel n =
     (case enqueue_initial_broadcast rel (daemon_of n) of (q, ds) \<Rightarrow> (q, peer_node.more_update (\<lambda>_. ds) n))"

definition on_event ::
  "'b peer_api \<Rightarrow> 'b gossip_api \<Rightarrow> path \<Rightarrow> peer_ref \<Rightarrow> debounced_event \<Rightarrow> path \<Rightarrow> ('b, 'g) daemon \<Rightarrow> ('b, 'g) daemon" where
  "on_event pa broadcast watched self_peer ev rel n =
     (case rel_to_str rel of
        None \<Rightarrow> n
      | Some rel_str \<Rightarrow>
          (case self_written pa watched rel n of
             (True, n1) \<Rightarrow> n1
           | (False, n1) \<Rightarrow>
               (case is_removal ev (watched @ rel) n1 of
                  (True, n2) \<Rightarrow>
                    (if rel \<in> last_removed (sync n2) then
                       n2\<lparr>sync := (sync n2)\<lparr>last_removed := last_removed (sync n2) - {rel}\<rparr>\<rparr>
                     else (case enqueue rel n2 of
                             (True, n3) \<Rightarrow> n3
                           | (False, n3) \<Rightarrow> snd (broadcast_tombstone broadcast (pa_codec pa) rel_str self_peer n3)))
                | (False, n2) \<Rightarrow>
                    (case enqueue rel n2 of
                       (True, n3) \<Rightarrow> n3
                     | (False, n3) \<Rightarrow>
                         snd (send_file (pa_blob pa) broadcast (pa_codec pa) rel_str watched self_peer n3)))))"

section \<open>The first neighbor\<close>

text \<open>The callback: the paths for which it starts a task; none on a later neighbor.\<close>

definition neighbor_up :: "endpoint_id \<Rightarrow> 'g daemon_state \<Rightarrow> path list \<times> 'g daemon_state" where
  "neighbor_up peer ds =
     (case mark_first_join ds of (False, ds1) \<Rightarrow> ([], ds1) | (True, ds1) \<Rightarrow> drain_pending_initial ds1)"

fun flush_initial ::
  "'b peer_api \<Rightarrow> 'b gossip_api \<Rightarrow> path \<Rightarrow> peer_ref \<Rightarrow> path list \<Rightarrow> ('b, 'z) peer_node_scheme \<Rightarrow> ('b, 'z) peer_node_scheme" where
  "flush_initial pa broadcast watched self_peer [] n = n"
| "flush_initial pa broadcast watched self_peer (rel # pending) n =
     flush_initial pa broadcast watched self_peer pending
       (case rel_to_str rel of
          None \<Rightarrow> n
        | Some rel_str \<Rightarrow>
            (case path_exists (watched @ rel) n of
               (False, n1) \<Rightarrow> snd (broadcast_tombstone broadcast (pa_codec pa) rel_str self_peer n1)
             | (True, n1) \<Rightarrow>
                 snd (send_file (pa_blob pa) broadcast (pa_codec pa) rel_str watched self_peer n1)))"

section \<open>Reading below the root\<close>

lemma rel_to_str_comps:
  assumes "validate_relative_path rel = Inr ()" "utf8_valid rel"
  shows "rel_to_str (path_comps rel) = Some rel"
  using assms rel_path_comps(1) [OF assms(1)] by (simp add: rel_to_str_def)

lemma path_exists_missing:
  "wf_fs (fs w) \<Longrightarrow> plain (fs w) p \<Longrightarrow> node_at (fs w) p = None \<Longrightarrow> path_exists p w = (b, w') \<Longrightarrow> \<not> b"
  using path_exists_inv [of p w b w'] k_stat_plain [of "fs w" p True] by auto

lemma path_exists_file:
  "faults w = [] \<Longrightarrow> wf_fs (fs w) \<Longrightarrow> plain (fs w) p \<Longrightarrow> node_at (fs w) p = Some (File b m) \<Longrightarrow> path_exists p w = (True, w)"
  using k_stat_plain [of "fs w" p True] by (simp add: path_exists_def metadata_def syscall_no_fault)

lemma read_present_file:
  "faults w = [] \<Longrightarrow> wf_fs (fs w) \<Longrightarrow> plain (fs w) p \<Longrightarrow> node_at (fs w) p = Some (File b m) \<Longrightarrow> fs_read p w = (Inr b, w)"
  using k_read_plain [of "fs w" p] by (simp add: fs_read_def syscall_no_fault)

lemma present_file_plain:
  assumes "wf_fs f" "real_dir f root" "\<forall>c\<in>set cs. normal c" "node_at f (root @ cs) = Some nd" "\<not> is_symlink nd"
  shows "plain f (root @ cs)"
proof -
  have "dir_at f q" if "root @ cs = q @ r" "r \<noteq> []" for q r
    using wf_fs_prefix_dir [OF assms(1), of q r] assms(4) that by simp
  then show ?thesis using assms(2-5) by (auto simp: plain_def real_dir_def)
qed

lemma removed_plain:
  assumes "wf_fs f" "real_dir f root" "\<forall>c\<in>set cs. normal c" "cs \<noteq> []" "node_at f (root @ cs) = Some nd"
  shows "plain (AList.delete (root @ cs) f) (root @ cs)"
proof -
  have "dir_at (AList.delete (root @ cs) f) q" if "root @ cs = q @ r" "r \<noteq> []" for q r
    using wf_fs_prefix_dir [OF assms(1), of q r] assms(5) that by (simp add: dir_at_def)
  moreover have "node_at (AList.delete (root @ cs) f) (root @ cs) = None" using assms(4) by simp
  ultimately show ?thesis using assms(2,3) unfolding plain_def real_dir_def by auto
qed

section \<open>The daemon's own changes\<close>

text \<open>The marks are per path; taking one touches nothing else.\<close>

lemma self_written_inv:
  assumes "self_written pa watched rel n = (b, n')"
  shows "fs n' = fs n" "sync n' = (sync n)\<lparr>last_written := (last_written (sync n))(rel := None)\<rparr>"
    "blobs n' = blobs n" "allow n' = allow n" "peer_node.more n' = peer_node.more n" "mono_ms n' = mono_ms n"
    "b \<Longrightarrow> \<exists>h bytes. last_written (sync n) rel = Some h \<and> fst (k_read (watched @ rel) (fs n)) = Inr bytes
       \<and> hash_new (pa_blob pa) bytes = h"
    "faults n = [] \<Longrightarrow> faults n' = []"
proof -
  let ?n1 = "n\<lparr>sync := (sync n)\<lparr>last_written := (last_written (sync n))(rel := None)\<rparr>\<rparr>"
  have "fs n' = fs n \<and> sync n' = sync ?n1 \<and> blobs n' = blobs n \<and> allow n' = allow n
    \<and> peer_node.more n' = peer_node.more n \<and> mono_ms n' = mono_ms n
    \<and> (b \<longrightarrow> (\<exists>h bytes. last_written (sync n) rel = Some h \<and> fst (k_read (watched @ rel) (fs n)) = Inr bytes
       \<and> hash_new (pa_blob pa) bytes = h)) \<and> (faults n = [] \<longrightarrow> faults n' = [])"
  proof (cases "last_written (sync n) rel")
    case None
    then show ?thesis using assms by (auto simp: self_written_def)
  next
    case (Some h)
    obtain e n2 where 2: "path_exists (watched @ rel) ?n1 = (e, n2)" by fastforce
    note i2 = path_exists_inv [OF 2]
    obtain r n3 where 3: "fs_read (watched @ rel) n2 = (r, n3)" by fastforce
    note i3 = fs_read_inv [OF 3]
    have a: "fs_step ?n1 n2" "fs_step ?n1 n3" using i2 i3 fs_step_trans by blast+
    have q: "faults n = [] \<longrightarrow> faults n2 = [] \<and> faults n3 = []" using a [THEN fs_step_quiet] by simp
    have f: "fs n2 = fs n" "fs n3 = fs n" using i2 i3 by auto
    have rd: "\<And>bytes. r = Inr bytes \<Longrightarrow> fst (k_read (watched @ rel) (fs n)) = Inr bytes" using i3 f by auto
    have "b \<longrightarrow> e \<and> (\<exists>bytes. r = Inr bytes \<and> hash_new (pa_blob pa) bytes = h)" "n' = n2 \<or> n' = n3"
      using assms 2 3 Some by (cases e; cases r; auto simp: self_written_def)+
    moreover from this(1) have "b \<longrightarrow> (\<exists>bytes. fst (k_read (watched @ rel) (fs n)) = Inr bytes \<and> hash_new (pa_blob pa) bytes = h)"
      using rd by blast
    ultimately show ?thesis
      using Some f q fs_step_node [OF a(1)] fs_step_fields [OF a(1)] fs_step_node [OF a(2)] fs_step_fields [OF a(2)]
      by (elim disjE) simp_all
  qed
  then show "fs n' = fs n" "sync n' = (sync n)\<lparr>last_written := (last_written (sync n))(rel := None)\<rparr>"
    "blobs n' = blobs n" "allow n' = allow n" "peer_node.more n' = peer_node.more n" "mono_ms n' = mono_ms n"
    "b \<Longrightarrow> \<exists>h bytes. last_written (sync n) rel = Some h \<and> fst (k_read (watched @ rel) (fs n)) = Inr bytes
       \<and> hash_new (pa_blob pa) bytes = h"
    "faults n = [] \<Longrightarrow> faults n' = []" by auto
qed

lemma self_written_file:
  assumes "last_written (sync n) rel = Some (hash_new (pa_blob pa) b)" "node_at (fs n) (watched @ rel) = Some (File b m)"
    and "wf_fs (fs n)" "real_dir (fs n) watched" "\<forall>c\<in>set rel. normal c" "faults n = []"
  shows "fst (self_written pa watched rel n)"
proof -
  let ?n1 = "n\<lparr>sync := (sync n)\<lparr>last_written := (last_written (sync n))(rel := None)\<rparr>\<rparr>"
  have p: "plain (fs ?n1) (watched @ rel)" using present_file_plain [OF assms(3-5,2)] by simp
  have "path_exists (watched @ rel) ?n1 = (True, ?n1)" "fs_read (watched @ rel) ?n1 = (Inr b, ?n1)"
    using path_exists_file [OF _ _ p] read_present_file [OF _ _ p] assms by simp_all
  then show ?thesis using assms(1) by (simp add: self_written_def Let_def)
qed

text \<open>An event for a path whose mark has the hash of the file is dropped, and uses up the mark.\<close>

lemma on_event_own_write:
  assumes "rel_to_str rel \<noteq> None" "fst (self_written pa watched rel n)"
  shows "let n' = on_event pa bc watched me ev rel n in blobs n' = blobs n \<and> fs n' = fs n \<and> daemon_of n' = daemon_of n
    \<and> allow n' = allow n \<and> sync n' = (sync n)\<lparr>last_written := (last_written (sync n))(rel := None)\<rparr>"
proof -
  obtain n1 where 1: "self_written pa watched rel n = (True, n1)" using assms(2) by (metis (full_types) eq_fst_iff)
  show ?thesis using 1 assms(1) self_written_inv [OF 1] by (auto simp: on_event_def)
qed

lemma dispatch_tombstone_node:
  assumes "dispatch_update pa payload root pt cb n = (Inr Applied, n')"
    and "from_bytes (pa_codec pa) payload = Inr u" "su_body u = Tombstone path fr"
  obtains n1 where "handle_tombstone path root n = (Inr Applied, n1)" "sync n' = sync n1" "blobs n' = blobs n1"
proof -
  show thesis using assms(1)
  proof (cases rule: dispatch_cases)
    case (tombstone u' path' fr' n1)
    then have "handle_tombstone path root n = (Inr Applied, n1)" using assms(2,3) by simp
    moreover have "sync n' = sync n1" "blobs n' = blobs n1"
      using tombstone(5) fs_step_node [OF record_receive_logged_fs_step [of n1 pa pt "tombstone_entry pa path' fr' (epoch_secs n)"]]
      by simp_all
    ultimately show thesis by (rule that)
  qed (use assms(2,3) in auto)
qed

text \<open>An event for a path that is gone and marked in \<open>last_removed\<close> uses up the mark.\<close>

lemma on_event_gone:
  assumes "rel_to_str rel = Some s" "wf_fs (fs n)" "plain (fs n) (watched @ rel)" "node_at (fs n) (watched @ rel) = None"
  shows "\<exists>n2. fs_step (n\<lparr>sync := (sync n)\<lparr>last_written := (last_written (sync n))(rel := None)\<rparr>\<rparr>) n2 \<and> fs n2 = fs n
    \<and> on_event pa bc watched me ev rel n =
       (if rel \<in> last_removed (sync n) then n2\<lparr>sync := (sync n2)\<lparr>last_removed := last_removed (sync n2) - {rel}\<rparr>\<rparr>
        else (case enqueue rel n2 of
                (True, n3) \<Rightarrow> n3
              | (False, n3) \<Rightarrow> snd (broadcast_tombstone bc (pa_codec pa) s me n3)))"
proof -
  let ?n1 = "n\<lparr>sync := (sync n)\<lparr>last_written := (last_written (sync n))(rel := None)\<rparr>\<rparr>"
  obtain b n1 where 1: "self_written pa watched rel n = (b, n1)" by fastforce
  have nb: "\<not> b"
    using self_written_inv(7) [OF 1] k_read_plain [OF assms(2,3)] assms(4) by auto
  obtain p n0 where p: "path_exists (watched @ rel) ?n1 = (p, n0)" by fastforce
  have np: "\<not> p" using path_exists_missing [of ?n1] assms(2-4) p by simp
  have s1: "fs_step ?n1 n1 \<and> fs n1 = fs n"
    using 1 p np path_exists_inv [OF p] by (auto simp: self_written_def Let_def split: option.splits)
  obtain e n2 where 2: "is_removal ev (watched @ rel) n1 = (e, n2)" by fastforce
  have s2: "e \<and> fs_step n1 n2 \<and> fs n2 = fs n"
    using 2 s1 assms(2-4) path_exists_inv [of "watched @ rel" n1] path_exists_missing [of n1 "watched @ rel"]
    by (auto simp: is_removal_def split: if_splits prod.splits)
  then have st: "fs_step ?n1 n2" using s1 fs_step_trans by blast
  moreover have "last_removed (sync n2) = last_removed (sync n)" using fs_step_node [OF st] by simp
  ultimately show ?thesis using 1 2 nb s2 assms(1) by (intro exI [of _ n2]) (auto simp: on_event_def)
qed

text \<open>After an applied tombstone the removal is marked, and the log entry disturbs neither the gap nor its parents.\<close>

lemma dispatch_tombstone_applied:
  assumes d: "dispatch_update pa payload root pt cb n = (Inr Applied, n')"
    and u: "from_bytes (pa_codec pa) payload = Inr u" "su_body u = Tombstone path fr"
    and i: "watch_inv root pt (fs n)" and dj: "disjoint_dirs root (pending_dir pt)" and ok: "peer_api_ok pa"
    and nd: "node_at (fs n) (root @ path_comps path) = Some nd"
  shows "path_comps path \<in> last_removed (sync n')" "plain (fs n') (root @ path_comps path)"
    "node_at (fs n') (root @ path_comps path) = None"
proof -
  let ?p = "root @ path_comps path"
  obtain n1 where h: "handle_tombstone path root n = (Inr Applied, n1)" "sync n' = sync n1"
    and same: "\<And>q. strict_prefix root q \<Longrightarrow> node_at (fs n') q = node_at (fs n1) q"
    using d
  proof (cases rule: dispatch_cases)
    case (tombstone u' path' fr' n1)
    then have h: "handle_tombstone path root n = (Inr Applied, n1)" using u by simp
    have i1: "watch_inv root pt (fs n1)"
      using watch_inv_keep [OF i handle_tombstone_fs(1) [OF h watch_invD(1,4) [OF i]] dj]
        handle_tombstone_fs(4) [OF h watch_invD(1,4) [OF i]] by blast
    have hx: "\<forall>c\<in>set (pe_source_peer (tombstone_entry pa path' fr' (epoch_secs n))). is_ascii_hexdigit c"
      using id_hex [OF ok] by simp
    have "node_at (fs n') q = node_at (fs n1) q" if "strict_prefix root q" for q
    proof -
      have "\<not> prefix q (pending_dir pt)" using that dj prefix_order.trans by (auto simp: disjoint_dirs_def strict_prefix_def)
      moreover have "prefix root (butlast q)" using that by (auto simp: strict_prefix_def prefix_def butlast_append)
      then have "butlast q \<noteq> pending_dir pt" using dj by (auto simp: disjoint_dirs_def)
      ultimately show ?thesis
        using tombstone(5) record_receive_logged_post(3) [OF watch_invD(1,3) [OF i1] ok hx] by auto
    qed
    moreover have "sync n' = sync n1"
      using tombstone(5) fs_step_node [OF record_receive_logged_fs_step [of n1 pa pt "tombstone_entry pa path' fr' (epoch_secs n)"]]
      by simp
    ultimately show thesis using h that by blast
  qed (use u in auto)
  have v: "validate_relative_path path = Inr ()" and m: "path_comps path \<in> last_removed (sync n1)"
    and f1: "fs n1 = AList.delete ?p (fs n)"
    using h(1) watch_invD(1,4) [OF i] nd by (cases rule: handle_tombstone_inv; auto)+
  note rc = rel_path_comps [OF v]
  have sp: "strict_prefix root (root @ r)" if "r \<noteq> []" for r using that by (simp add: strict_prefix_def)
  show "path_comps path \<in> last_removed (sync n')" using m h(2) by simp
  show none: "node_at (fs n') ?p = None" using same [OF sp [OF rc(2)]] f1 rc(2) by simp
  have "dir_at (fs n') q" if q: "?p = q @ r" "r \<noteq> []" "node_at (fs n') q \<noteq> None" for q r
  proof (cases "strict_prefix root q")
    case True
    have "dir_at (fs n) q" using wf_fs_prefix_dir [OF watch_invD(1) [OF i], of q r] nd q by simp
    moreover have "q \<noteq> ?p" "q \<noteq> []" using q True by auto
    ultimately show ?thesis using same [OF True] f1 rc(2) by (simp add: dir_at_def)
  next
    case False
    have "prefix q root" using False q(1) by (metis prefixI prefix_same_cases prefix_order.le_less)
    then obtain s where s: "root = q @ s" by (auto simp: prefix_def)
    have i': "watch_inv root pt (fs n')" by (rule dispatch_fs(1) [OF d i dj ok])
    then have "dir_at (fs n') root" using watch_invD(2) by (auto simp: real_dir_def)
    then show ?thesis
      using wf_fs_prefix_dir [OF watch_invD(1) [OF i'], of q s] s by (cases "s = []") (auto simp: dir_at_def)
  qed
  then show "plain (fs n') ?p"
    using none rc(3) watch_invD(2) [OF i] unfolding plain_def real_dir_def by auto
qed

section \<open>Local changes\<close>

text \<open>Without I/O errors the path of an existing file is accepted.\<close>

lemma walk_components_file:
  "faults w = [] \<Longrightarrow> wf_fs (fs w) \<Longrightarrow> real_dir (fs w) cur \<Longrightarrow> \<forall>c\<in>set cs. normal c \<and> CHR ''/'' \<notin> set c \<Longrightarrow>
     node_at (fs w) (cur @ cs) = Some (File b m) \<Longrightarrow> walk_components cur cs w = (Inr (), w)"
proof (induction cs arbitrary: cur)
  case (Cons c cs)
  have c: "normal c" and j: "path_join cur c = cur @ [c]" using Cons.prems(4) path_join_normal by simp_all
  have nd: "\<exists>nd. node_at (fs w) (cur @ [c]) = Some nd \<and> \<not> is_symlink nd \<and> (cs \<noteq> [] \<longrightarrow> is_dir nd)"
  proof (cases "cs = []")
    case True
    then show ?thesis using Cons.prems(5) by simp
  next
    case False
    then have "dir_at (fs w) (cur @ [c])" using wf_fs_prefix_dir [OF Cons.prems(2), of "cur @ [c]" cs] Cons.prems(5) by simp
    then show ?thesis by (auto simp: dir_at_def is_dir_iff)
  qed
  then obtain nd where nd: "node_at (fs w) (cur @ [c]) = Some nd" "\<not> is_symlink nd" "cs \<noteq> [] \<longrightarrow> is_dir nd" by blast
  have "symlink_metadata (cur @ [c]) w = (Inr nd, w)"
    using nd(1) k_stat_child [OF Cons.prems(2,3) c] Cons.prems(1) by (simp add: symlink_metadata_def syscall_no_fault)
  moreover have "walk_components (cur @ [c]) cs w = (Inr (), w)"
  proof (cases "cs = []")
    case False
    then have "real_dir (fs w) (cur @ [c])" using Cons.prems(3) c nd by (auto simp: real_dir_def dir_at_def is_dir_iff)
    then show ?thesis using Cons.IH [of "cur @ [c]"] Cons.prems by simp
  qed simp
  ultimately show ?case using nd j by (auto simp: Let_def)
qed simp

lemma resolve_safe_path_file:
  assumes "faults w = []" "wf_fs (fs w)" "real_dir (fs w) root" "validate_relative_path rel = Inr ()"
    and "node_at (fs w) (root @ path_comps rel) = Some (File b m)"
  shows "resolve_safe_path root rel w = (Inr (root @ path_comps rel), w)"
proof -
  note rc = rel_path_comps [OF assms(4)]
  obtain d where d: "node_at (fs w) root = Some (Dir d)" using assms(3) by (auto simp: real_dir_def dir_at_def)
  have "symlink_metadata root w = (Inr (Dir d), w)"
    using d k_stat_plain [OF assms(2) real_dir_plain [OF assms(2,3)], of False] assms(1)
    by (simp add: symlink_metadata_def syscall_no_fault)
  moreover have "walk_components root (split_on (CHR ''/'') rel) w = (Inr (), w)"
    using walk_components_file [OF assms(1-3), of "path_comps rel" b m] rc(1,3) assms(5) split_on_no_sep by metis
  ultimately show ?thesis using assms(4) rc(4) by (simp add: resolve_safe_path_def)
qed

text \<open>Without I/O errors a valid regular file within the limit is refused only by the foreign code.\<close>

lemma send_file_no_faults:
  assumes "faults n = []" "wf_fs (fs n)" "real_dir (fs n) root" "validate_relative_path rel = Inr ()"
    and "node_at (fs n) (root @ path_comps rel) = Some (File bytes m)" "length bytes \<le> MAX_FILE_SIZE"
    and "bl_add ba bytes (blobs n) = (Inr hash, b1)"
    and "to_bytes ca \<lparr>su_version = 2, su_body = Upsert rel hash Raw me\<rparr> = Inr payload" "bc payload b1 = (Inr (), b2)"
  shows "send_file ba bc ca rel root me n =
    (Inr (), n\<lparr>blobs := b2, sync := (sync n)\<lparr>last_written := (last_written (sync n))(path_comps rel \<mapsto> hash)\<rparr>\<rparr>)"
proof -
  have p: "plain (fs n) (root @ path_comps rel)"
    using present_file_plain [OF assms(2,3) rel_path_comps(3) [OF assms(4)] assms(5)] by simp
  note r = resolve_safe_path_file [OF assms(1-5)]
  have "metadata (root @ path_comps rel) n = (Inr (File bytes m), n)"
    using k_stat_plain [OF assms(2) p, of True] assms(1,5) by (simp add: metadata_def syscall_no_fault)
  moreover have "fs_read (root @ path_comps rel) n = (Inr bytes, n)" by (rule read_present_file [OF assms(1,2) p assms(5)])
  moreover have "upsert rel hash Raw me = Inr \<lparr>su_version = 2, su_body = Upsert rel hash Raw me\<rparr>"
    using assms(4) by (simp add: upsert_iff)
  ultimately show ?thesis using r assms(6-9) by (simp add: send_file_def)
qed

lemma self_written_other:
  assumes "last_written (sync n) rel \<noteq> Some (hash_new (pa_blob pa) b)" "node_at (fs n) (watched @ rel) = Some (File b m)"
    and "wf_fs (fs n)" "real_dir (fs n) watched" "\<forall>c\<in>set rel. normal c" "faults n = []"
  shows "self_written pa watched rel n = (False, n\<lparr>sync := (sync n)\<lparr>last_written := (last_written (sync n))(rel := None)\<rparr>\<rparr>)"
proof -
  let ?n1 = "n\<lparr>sync := (sync n)\<lparr>last_written := (last_written (sync n))(rel := None)\<rparr>\<rparr>"
  have p: "plain (fs ?n1) (watched @ rel)" using present_file_plain [OF assms(3-5,2)] by simp
  have "path_exists (watched @ rel) ?n1 = (True, ?n1)" "fs_read (watched @ rel) ?n1 = (Inr b, ?n1)"
    using path_exists_file [OF _ _ p] read_present_file [OF _ _ p] assms by simp_all
  then show ?thesis using assms(1) by (auto simp: self_written_def Let_def split: option.splits)
qed

text \<open>
  A change of a file that is not the daemon's own is queued before the first join and announced after
  it; the mark then has the hash that was announced.
\<close>

lemma on_event_local_change:
  assumes n: "faults n = []" "wf_fs (fs n)" "real_dir (fs n) root" and v: "validate_relative_path rel = Inr ()" "utf8_valid rel"
    and f: "node_at (fs n) (root @ path_comps rel) = Some (File bytes m)" "length bytes \<le> MAX_FILE_SIZE"
    and lw: "last_written (sync n) (path_comps rel) \<noteq> Some (hash_new (pa_blob pa) bytes)" and k: "ev_kind ev \<noteq> Remove"
  shows "\<not> gossip_joined (daemon_of n) \<Longrightarrow> on_event pa bc root me ev (path_comps rel) n =
      peer_node.more_update (\<lambda>_. (daemon_of n)\<lparr>pending_initial_broadcasts := List.insert (path_comps rel) (pending_initial_broadcasts (daemon_of n))\<rparr>)
        (n\<lparr>sync := (sync n)\<lparr>last_written := (last_written (sync n))(path_comps rel := None)\<rparr>\<rparr>)"
    "gossip_joined (daemon_of n) \<Longrightarrow> bl_add (pa_blob pa) bytes (blobs n) = (Inr hash, b1) \<Longrightarrow>
     to_bytes (pa_codec pa) \<lparr>su_version = 2, su_body = Upsert rel hash Raw me\<rparr> = Inr payload \<Longrightarrow> bc payload b1 = (Inr (), b2) \<Longrightarrow>
     on_event pa bc root me ev (path_comps rel) n =
      n\<lparr>blobs := b2, sync := (sync n)\<lparr>last_written := (last_written (sync n))(path_comps rel \<mapsto> hash)\<rparr>\<rparr>"
proof -
  let ?pc = "path_comps rel"
  let ?n1 = "n\<lparr>sync := (sync n)\<lparr>last_written := (last_written (sync n))(?pc := None)\<rparr>\<rparr>"
  have s: "self_written pa root ?pc n = (False, ?n1)"
    by (rule self_written_other [OF lw f(1) n(2,3) rel_path_comps(3) [OF v(1)] n(1)])
  have "plain (fs n) (root @ ?pc)" using present_file_plain [OF n(2,3) rel_path_comps(3) [OF v(1)] f(1)] by simp
  then have "path_exists (root @ ?pc) ?n1 = (True, ?n1)" using path_exists_file [of ?n1] n f(1) by simp
  then have r: "is_removal ev (root @ ?pc) ?n1 = (False, ?n1)" using k by (simp add: is_removal_def)
  show "on_event pa bc root me ev ?pc n =
      peer_node.more_update (\<lambda>_. (daemon_of n)\<lparr>pending_initial_broadcasts := List.insert ?pc (pending_initial_broadcasts (daemon_of n))\<rparr>) ?n1"
    if "\<not> gossip_joined (daemon_of n)"
    using s r that rel_to_str_comps [OF v] by (simp add: on_event_def enqueue_def enqueue_initial_broadcast_def)
  assume j: "gossip_joined (daemon_of n)" and a: "bl_add (pa_blob pa) bytes (blobs n) = (Inr hash, b1)"
    "to_bytes (pa_codec pa) \<lparr>su_version = 2, su_body = Upsert rel hash Raw me\<rparr> = Inr payload" "bc payload b1 = (Inr (), b2)"
  have "enqueue ?pc ?n1 = (False, ?n1)" using j by (simp add: enqueue_def enqueue_initial_broadcast_def)
  moreover have "send_file (pa_blob pa) bc (pa_codec pa) rel root me ?n1 =
     (Inr (), ?n1\<lparr>blobs := b2, sync := (sync ?n1)\<lparr>last_written := (last_written (sync ?n1))(?pc \<mapsto> hash)\<rparr>\<rparr>)"
    by (rule send_file_no_faults) (use n v f a in simp_all)
  ultimately show "on_event pa bc root me ev ?pc n =
      n\<lparr>blobs := b2, sync := (sync n)\<lparr>last_written := (last_written (sync n))(?pc \<mapsto> hash)\<rparr>\<rparr>"
    using s r rel_to_str_comps [OF v] by (simp add: on_event_def)
qed

text \<open>What a flush announces for a queued file is what the event would have announced directly.\<close>

lemma flush_initial_file:
  assumes "faults n = []" "wf_fs (fs n)" "real_dir (fs n) root" "validate_relative_path rel = Inr ()" "utf8_valid rel"
    and "node_at (fs n) (root @ path_comps rel) = Some (File bytes m)"
  shows "flush_initial pa bc root me [path_comps rel] n = snd (send_file (pa_blob pa) bc (pa_codec pa) rel root me n)"
proof -
  have "plain (fs n) (root @ path_comps rel)" using present_file_plain [OF assms(2,3) rel_path_comps(3) [OF assms(4)] assms(6)] by simp
  then have "path_exists (root @ path_comps rel) n = (True, n)" using path_exists_file assms(1,2,6) by blast
  then show ?thesis using rel_to_str_comps [OF assms(4,5)] by simp
qed

text \<open>A tombstone attempt hands gossip at most the one message that names the path.\<close>

lemma broadcast_tombstone_blobs:
  assumes "codec_ok ca" "broadcast_tombstone bc ca rel me n = (r, n')"
  shows "blobs n' = blobs n \<or> (\<exists>payload. from_bytes ca payload = Inr \<lparr>su_version = 2, su_body = Tombstone rel me\<rparr>
    \<and> blobs n' = snd (bc payload (blobs n)))"
proof (cases "validate_relative_path rel")
  case (Inl e)
  then show ?thesis using assms(2) by (simp add: broadcast_tombstone_def)
next
  case (Inr u)
  then have v: "validate_relative_path rel = Inr ()" by simp
  obtain payload where p: "to_bytes ca \<lparr>su_version = 2, su_body = Tombstone rel me\<rparr> = Inr payload"
    "from_bytes ca payload = Inr \<lparr>su_version = 2, su_body = Tombstone rel me\<rparr>"
    using to_bytes_from_bytes [OF assms(1), of "\<lparr>su_version = 2, su_body = Tombstone rel me\<rparr>"] v by (auto simp: su_path_def)
  show ?thesis
    using assms(2) p broadcast_tombstone_eq [OF v, of bc ca me n]
    by (auto simp: Let_def split: if_splits sum.splits prod.splits)
qed

end
