(* ===== verification/Listener.thy ===== *)
theory Listener
  imports Event_Loop
begin

text \<open>
  \<open>src/src/daemon/listener.rs\<close>: the lock and the socket of the daemon, one request per connection,
  and the loop that accepts connections.  The socket itself (tokio) is a parameter: binding it, one
  exchange over it, and what a connection delivers.  Times are in milliseconds.
\<close>

definition MAX_REQUEST_BYTES :: nat where
  "MAX_REQUEST_BYTES = 1024 * 1024"

definition PROBE_TIMEOUT :: nat where
  "PROBE_TIMEOUT = 1000"

definition CONNECTION_READ_TIMEOUT :: nat where
  "CONNECTION_READ_TIMEOUT = 10 * 1000"

definition MAX_IN_FLIGHT_CONNECTIONS :: nat where
  "MAX_IN_FLIGHT_CONNECTIONS = 32"

section \<open>Foreign code\<close>

text \<open>The derived codecs of \<open>RpcRequest\<close> and \<open>RpcResponse\<close>.\<close>

record rpc_codec =
  rq_ser :: "rpc_request \<Rightarrow> str + bytes"
  rq_de :: "str \<Rightarrow> str + rpc_request"
  rs_ser :: "rpc_response \<Rightarrow> str + bytes"
  rs_de :: "str \<Rightarrow> str + rpc_response"
  json_value :: "json \<Rightarrow> json"

text \<open>
  \<open>json_value j\<close> is \<open>j\<close> as a \<open>serde_json::Value\<close> holds it: the entries of an object are a map, which
  orders them by their keys.  Compact JSON holds no line end, and what was written is read back as a
  value; only the result \<open>null\<close> is read back as an absent one.
\<close>

definition rpc_codec_ok :: "rpc_codec \<Rightarrow> bool" where
  "rpc_codec_ok a \<longleftrightarrow>
     (\<forall>r. \<exists>b. rq_ser a r = Inr b \<and> rq_de a b = Inr (r\<lparr>rq_params := json_value a (rq_params r)\<rparr>) \<and> b \<noteq> [] \<and> CHR 0x0A \<notin> set b)
     \<and> (\<forall>r. \<exists>b. rs_ser a r = Inr b \<and> b \<noteq> [] \<and> CHR 0x0A \<notin> set b
          \<and> (rr_result r \<noteq> Some JNull \<longrightarrow> rs_de a b = Inr (r\<lparr>rr_result := map_option (json_value a) (rr_result r)\<rparr>)))
     \<and> (\<forall>kvs k. distinct (map fst kvs) \<longrightarrow> json_get k (json_value a (JObj kvs)) = map_option (json_value a) (map_of kvs k))"

text \<open>
  One request over a connection: write, flush, read a line; \<open>Answered\<close> holds the line, empty at the
  end of the stream.  The time limit covers connecting too, where \<open>None\<close> means that it ran out.
\<close>

datatype exchange =
    WriteFailed str
  | FlushFailed str
  | LineFailed str
  | Answered str
  | Expired

record net_api =
  un_bind :: "mode \<Rightarrow> path \<Rightarrow> fs \<Rightarrow> (io_kind + unit) \<times> fs"
  un_connect :: "nat \<Rightarrow> path \<Rightarrow> (str + unit) option"
  un_exchange :: "nat \<Rightarrow> path \<Rightarrow> bytes \<Rightarrow> exchange"

text \<open>\<open>bind\<close> makes a socket where nothing was, or fails and changes nothing.\<close>

definition net_ok :: "net_api \<Rightarrow> bool" where
  "net_ok na \<longleftrightarrow>
     (\<forall>m p f r f'. wf_fs f \<longrightarrow> plain f p \<longrightarrow> un_bind na m p f = (r, f') \<longrightarrow>
        (\<exists>e. r = Inl e \<and> f' = f)
        \<or> (r = Inr () \<and> p \<noteq> [] \<and> node_at f p = None \<and> dir_at f (butlast p) \<and> f' = AList.update p (Socket m) f))"

text \<open>
  A connection as the server sees it: what reading a line of at most \<open>MAX_REQUEST_BYTES + 1\<close> bytes
  within the time limit gives, and what writing and flushing a response give.
\<close>

datatype line_read = TimedOut | ReadFailed str | ReadLine str

record conn =
  c_read :: line_read
  c_write :: "str + unit"
  c_flush :: "str + unit"

section \<open>The lock\<close>

text \<open>The operator \<open>?\<close> on an \<open>io::Result\<close>.\<close>

definition io_raw :: "(io_kind + 'a) \<times> 'w \<Rightarrow> (err + 'a) \<times> 'w" where
  "io_raw res = (case res of (Inl e, w) \<Rightarrow> (Inl (Io e), w) | (Inr x, w) \<Rightarrow> (Inr x, w))"

lemma io_raw_simps [simp]: "io_raw (Inl e, w) = (Inl (Io e), w)" "io_raw (Inr x, w) = (Inr x, w)"
  by (simp_all add: io_raw_def)

text \<open>\<open>try_lock q\<close> is \<open>File::try_lock\<close> on the file at location \<open>q\<close>; the result is the locked file.\<close>

definition acquire_daemon_lock ::
  "(path \<Rightarrow> str + unit) \<Rightarrow> path \<Rightarrow> 'z world_scheme \<Rightarrow> (err + path) \<times> 'z world_scheme" where
  "acquire_daemon_lock try_lock lockp w =
     and_then (ensure_parent_700 lockp w) (\<lambda>_ w1.
     and_then (io_err (''open lock file '' @ display lockp)
                 (syscall (k_open_create (438 AND NOT (umask w1)) lockp) w1)) (\<lambda>file w2.
     and_then (io_raw (fs_fstat file w2)) (\<lambda>_ w3.
     and_then (io_raw (fs_fchmod file 384 w3)) (\<lambda>_ w4.
       case try_lock file of
         Inl e \<Rightarrow> (Inl (Msg (''another daemon holds '' @ display lockp @ '': '' @ e)), w4)
       | Inr _ \<Rightarrow> (Inr file, w4)))))"

section \<open>The socket\<close>

definition probe_existing_socket :: "rpc_codec \<Rightarrow> net_api \<Rightarrow> path \<Rightarrow> bool" where
  "probe_existing_socket ca na socket =
     (case un_connect na PROBE_TIMEOUT socket of
        Some (Inr _) \<Rightarrow>
          (case rq_ser ca \<lparr>rq_method = ''sync.health-check'', rq_params = JObj []\<rparr> of
             Inl _ \<Rightarrow> False
           | Inr body \<Rightarrow>
               (case un_exchange na PROBE_TIMEOUT socket (body @ [CHR 0x0A]) of
                  Answered line \<Rightarrow> line \<noteq> []
                | _ \<Rightarrow> False))
      | _ \<Rightarrow> False)"

definition recover_stale_socket ::
  "rpc_codec \<Rightarrow> net_api \<Rightarrow> path \<Rightarrow> 'z world_scheme \<Rightarrow> (err + unit) \<times> 'z world_scheme" where
  "recover_stale_socket ca na socket w =
     (case path_exists socket w of
        (False, w1) \<Rightarrow> (Inr (), w1)
      | (True, w1) \<Rightarrow>
          if probe_existing_socket ca na socket then
            (Inl (Msg (''another daemon is already listening on '' @ display socket)), w1)
          else io_err (''unlink stale socket '' @ display socket) (remove_file socket w1))"

record listener_handle =
  lh_socket_path :: path
  lh_lock_file :: path

definition bind_listener_with_lock ::
  "net_api \<Rightarrow> path \<Rightarrow> path \<Rightarrow> 'z world_scheme \<Rightarrow> (err + listener_handle) \<times> 'z world_scheme" where
  "bind_listener_with_lock na socket lock_file w =
     (case path_exists socket w of
        (True, w1) \<Rightarrow>
          (Inl (Msg (''bind_listener_with_lock: socket '' @ display socket
             @ '' already exists (caller must unlink stale before invoking)'')), w1)
      | (False, w1) \<Rightarrow>
          and_then (ensure_parent_700 socket w1) (\<lambda>_ w2.
          and_then (io_err (''bind '' @ display socket)
                      (syscall (un_bind na (511 AND NOT (umask w2)) socket) w2)) (\<lambda>_ w3.
          and_then (io_raw (metadata socket w3)) (\<lambda>_ w4.
          and_then (io_raw (set_permissions socket 384 w4)) (\<lambda>_ w5.
            (Inr \<lparr>lh_socket_path = socket, lh_lock_file = lock_file\<rparr>, w5))))))"

definition bind_listener ::
  "rpc_codec \<Rightarrow> net_api \<Rightarrow> (path \<Rightarrow> str + unit) \<Rightarrow> path \<Rightarrow> path \<Rightarrow> 'z world_scheme
     \<Rightarrow> (err + listener_handle) \<times> 'z world_scheme" where
  "bind_listener ca na try_lock socket lockp w =
     and_then (acquire_daemon_lock try_lock lockp w) (\<lambda>lock_file w1.
     and_then (recover_stale_socket ca na socket w1) (\<lambda>_ w2.
       bind_listener_with_lock na socket lock_file w2))"

text \<open>\<open>Drop\<close> of the handle; the lock is released with the file afterwards.\<close>

definition listener_drop :: "listener_handle \<Rightarrow> 'z world_scheme \<Rightarrow> 'z world_scheme" where
  "listener_drop h w = snd (remove_file (lh_socket_path h) w)"

section \<open>One connection\<close>

text \<open>The result, and the bytes that went out.\<close>

definition send_response :: "rpc_codec \<Rightarrow> conn \<Rightarrow> rpc_response \<Rightarrow> (err + unit) \<times> bytes option" where
  "send_response ca c resp =
     (case rs_ser ca resp of
        Inl e \<Rightarrow> (Inl (Ctx ''serialize RpcResponse'' (Msg e)), None)
      | Inr body \<Rightarrow>
          (case c_write c of
             Inl e \<Rightarrow> (Inl (Ctx ''write response'' (Msg e)), None)
           | Inr _ \<Rightarrow> (ctx ''flush response'' (c_flush c), Some (body @ [CHR 0x0A]))))"

definition trim_end_newlines :: "str \<Rightarrow> str" where
  "trim_end_newlines s = rev (dropWhile (\<lambda>c. c = CHR 0x0A) (rev s))"

text \<open>
  \<open>dispatch\<close> is the \<open>DynDispatcher\<close> (\<open>None\<close>: it panicked, which ends the task).  The outcome of the
  task, the bytes that went out, and the new state.
\<close>

definition handle_one ::
  "rpc_codec \<Rightarrow> (rpc_request \<Rightarrow> 'd \<Rightarrow> rpc_response option \<times> 'd) \<Rightarrow> conn \<Rightarrow> 'd
     \<Rightarrow> (err + unit) option \<times> bytes option \<times> 'd" where
  "handle_one ca dispatch c d =
     (case c_read c of
        TimedOut \<Rightarrow>
          (Some (Inr ()),
           snd (send_response ca c (rpc_err (''request read timed out after ''
                                       @ show_nat (CONNECTION_READ_TIMEOUT div 1000) @ ''s''))), d)
      | ReadFailed e \<Rightarrow> (Some (Inl (Ctx ''read RPC line'' (Msg e))), None, d)
      | ReadLine line \<Rightarrow>
          if length line = 0 then (Some (Inr ()), None, d)
          else if length line > MAX_REQUEST_BYTES then
            (case send_response ca c (rpc_err ''request too large'') of (r, out) \<Rightarrow> (Some r, out, d))
          else
            (case rq_de ca (trim_end_newlines line) of
               Inl e \<Rightarrow>
                 (case send_response ca c (rpc_err (''invalid JSON request: '' @ e)) of (r, out) \<Rightarrow> (Some r, out, d))
             | Inr req \<Rightarrow>
                 (case dispatch req d of
                    (None, d1) \<Rightarrow> (None, None, d1)
                  | (Some resp, d1) \<Rightarrow>
                      (case send_response ca c resp of (r, out) \<Rightarrow> (Some r, out, d1)))))"

section \<open>The accept loop\<close>

text \<open>
  The semaphore, the tasks that hold a permit with their connections, the shutdown token, whether the
  loop has returned, the state behind the dispatcher, and as ghosts the bytes that went out for each
  finished connection and the number of connections closed for want of a permit.  A task runs its
  connection in one step, at any time after its acceptance.
\<close>

record 'd accept_state =
  as_permits :: nat
  as_tasks :: "(nat \<times> conn) list"
  as_cancelled :: bool
  as_returned :: bool
  as_state :: 'd
  as_out :: "(nat \<times> bytes option) list"
  as_dropped :: "nat list"

inductive accept_step ::
  "rpc_codec \<Rightarrow> (rpc_request \<Rightarrow> 'd \<Rightarrow> rpc_response option \<times> 'd) \<Rightarrow> 'd accept_state \<Rightarrow> 'd accept_state \<Rightarrow> bool"
  for ca dispatch where
  shutdown: "\<not> as_cancelled s \<Longrightarrow> accept_step ca dispatch s (s\<lparr>as_cancelled := True\<rparr>)"
| cancelled: "as_cancelled s \<Longrightarrow> \<not> as_returned s \<Longrightarrow> accept_step ca dispatch s (s\<lparr>as_returned := True\<rparr>)"
| accepted: "\<not> as_returned s \<Longrightarrow> 0 < as_permits s \<Longrightarrow> t \<notin> fst ` set (as_tasks s) \<Longrightarrow> t \<notin> fst ` set (as_out s) \<Longrightarrow>
    t \<notin> set (as_dropped s) \<Longrightarrow>
    accept_step ca dispatch s (s\<lparr>as_permits := as_permits s - 1, as_tasks := (t, c) # as_tasks s\<rparr>)"
| over_cap: "\<not> as_returned s \<Longrightarrow> as_permits s = 0 \<Longrightarrow> t \<notin> fst ` set (as_tasks s) \<Longrightarrow> t \<notin> fst ` set (as_out s) \<Longrightarrow>
    t \<notin> set (as_dropped s) \<Longrightarrow>
    accept_step ca dispatch s (s\<lparr>as_dropped := t # as_dropped s\<rparr>)"
| accept_failed: "\<not> as_returned s \<Longrightarrow> accept_step ca dispatch s s"
| task_done: "as_tasks s = xs @ (t, c) # ys \<Longrightarrow> handle_one ca dispatch c (as_state s) = (r, out, d) \<Longrightarrow>
    accept_step ca dispatch s
      (s\<lparr>as_permits := Suc (as_permits s), as_tasks := xs @ ys, as_state := d, as_out := (t, out) # as_out s\<rparr>)"

definition accept_initial :: "'d \<Rightarrow> 'd accept_state" where
  "accept_initial d =
     \<lparr>as_permits = MAX_IN_FLIGHT_CONNECTIONS, as_tasks = [], as_cancelled = False, as_returned = False,
      as_state = d, as_out = [], as_dropped = []\<rparr>"

section \<open>Requests that reach no handler\<close>

text \<open>The one case in which the dispatcher is asked, and what happens otherwise.\<close>

definition well_formed_request :: "rpc_codec \<Rightarrow> conn \<Rightarrow> rpc_request option" where
  "well_formed_request ca c =
     (case c_read c of
        ReadLine line \<Rightarrow>
          if 0 < length line \<and> length line \<le> MAX_REQUEST_BYTES then
            (case rq_de ca (trim_end_newlines line) of Inl _ \<Rightarrow> None | Inr req \<Rightarrow> Some req)
          else None
      | _ \<Rightarrow> None)"

lemma handle_one_refused:
  "well_formed_request ca c = None \<Longrightarrow>
     handle_one ca dispatch c d = (fst (handle_one ca f c d'), fst (snd (handle_one ca f c d')), d)"
  by (auto simp: well_formed_request_def handle_one_def split: line_read.splits sum.splits if_splits prod.splits)

lemma handle_one_refused_out:
  assumes "well_formed_request ca c = None" "fst (snd (handle_one ca dispatch c d)) = Some out"
  shows "\<exists>e r. send_response ca c (rpc_err e) = (r, Some out)"
  using assms
  by (auto simp: well_formed_request_def handle_one_def split: line_read.splits sum.splits if_splits prod.splits)
    (metis prod.collapse)+

lemma handle_one_asked:
  "well_formed_request ca c = Some req \<Longrightarrow>
     handle_one ca dispatch c d =
       (case dispatch req d of
          (None, d1) \<Rightarrow> (None, None, d1)
        | (Some resp, d1) \<Rightarrow> (case send_response ca c resp of (r, out) \<Rightarrow> (Some r, out, d1)))"
  by (auto simp: well_formed_request_def handle_one_def split: line_read.splits sum.splits if_splits)

text \<open>What goes out is one line that holds one response.\<close>

lemma send_response_out:
  assumes "rpc_codec_ok ca" "send_response ca c resp = (r, Some out)"
  shows "\<exists>b. out = b @ [CHR 0x0A] \<and> CHR 0x0A \<notin> set b \<and> rs_ser ca resp = Inr b"
proof -
  obtain b where "rs_ser ca resp = Inr b" "CHR 0x0A \<notin> set b"
    using assms(1) unfolding rpc_codec_ok_def by blast
  then show ?thesis using assms(2) by (auto simp: send_response_def split: sum.splits)
qed

lemma trim_line: "CHR 0x0A \<notin> set b \<Longrightarrow> trim_end_newlines (b @ [CHR 0x0A]) = b"
proof -
  assume "CHR 0x0A \<notin> set b"
  then have "dropWhile (\<lambda>c. c = CHR 0x0A) (rev b) = rev b" by (cases b rule: rev_cases) auto
  then show ?thesis by (simp add: trim_end_newlines_def)
qed

section \<open>The bound and the state behind the loop\<close>

text \<open>What the handlers keep, the loop keeps; every permit is with the semaphore or with one task.\<close>

locale request_handler =
  fixes dispatch :: "rpc_request \<Rightarrow> 'd \<Rightarrow> rpc_response option \<times> 'd"
    and keeps :: "'d \<Rightarrow> bool"
  assumes dispatch_keeps: "keeps d \<Longrightarrow> keeps (snd (dispatch req d))"
begin

lemma handle_one_keeps: "keeps d \<Longrightarrow> keeps (snd (snd (handle_one ca dispatch c d)))"
proof -
  assume k: "keeps d"
  show ?thesis
  proof (cases "well_formed_request ca c")
    case None
    then have "snd (snd (handle_one ca dispatch c d)) = d"
      using handle_one_refused [of ca c dispatch d dispatch d] by (metis snd_conv)
    then show ?thesis using k by simp
  next
    case (Some req)
    then show ?thesis using handle_one_asked [OF Some, of dispatch d] dispatch_keeps [OF k, of req]
      by (auto split: prod.splits option.splits)
  qed
qed

lemma accept_step_keeps:
  "accept_step ca dispatch s s' \<Longrightarrow> keeps (as_state s) \<Longrightarrow> keeps (as_state s')"
proof (induction rule: accept_step.induct)
  case (task_done s xs t c ys r out d)
  then show ?case using handle_one_keeps [of "as_state s" ca c] by simp
qed simp_all

lemma accept_steps_keep:
  "(accept_step ca dispatch)\<^sup>*\<^sup>* s s' \<Longrightarrow> keeps (as_state s) \<Longrightarrow> keeps (as_state s')"
  by (induction rule: rtranclp_induct) (auto intro: accept_step_keeps)

end

interpretation rpc: request_handler "rpc_dispatch rp env rnd" "\<lambda>n. gossip_runtime_invariant (gossip_runtime (daemon_of n))"
  for rp env rnd
  by unfold_locales (rule rpc_dispatch_invariant)

definition accept_inv :: "'d accept_state \<Rightarrow> bool" where
  "accept_inv s \<longleftrightarrow>
     as_permits s + length (as_tasks s) = MAX_IN_FLIGHT_CONNECTIONS
     \<and> distinct (map fst (as_tasks s) @ map fst (as_out s) @ as_dropped s)"

lemma accept_initial_inv: "accept_inv (accept_initial d)"
  by (simp add: accept_inv_def accept_initial_def)

lemma accept_step_inv: "accept_step ca dispatch s s' \<Longrightarrow> accept_inv s \<Longrightarrow> accept_inv s'"
  by (induction rule: accept_step.induct) (auto simp: accept_inv_def)

lemma accept_steps_inv: "(accept_step ca dispatch)\<^sup>*\<^sup>* s s' \<Longrightarrow> accept_inv s \<Longrightarrow> accept_inv s'"
  by (induction rule: rtranclp_induct) (auto intro: accept_step_inv)

text \<open>Every accepted connection can be finished, which gives back its permit.\<close>

lemma tasks_can_finish:
  "length (as_tasks s) = k \<Longrightarrow>
     \<exists>s'. (accept_step ca dispatch)\<^sup>*\<^sup>* s s' \<and> as_tasks s' = [] \<and> as_permits s' = as_permits s + k
       \<and> fst ` set (as_tasks s) \<subseteq> fst ` set (as_out s') \<and> set (as_out s) \<subseteq> set (as_out s')"
proof (induction k arbitrary: s)
  case (Suc k)
  then obtain t c ts where t: "as_tasks s = (t, c) # ts" "length ts = k" by (cases "as_tasks s") auto
  obtain r out d where h: "handle_one ca dispatch c (as_state s) = (r, out, d)" by (metis prod_cases3)
  let ?s = "s\<lparr>as_permits := Suc (as_permits s), as_tasks := ts, as_state := d, as_out := (t, out) # as_out s\<rparr>"
  have 1: "accept_step ca dispatch s ?s" using task_done [of s "[]" t c ts, OF _ h] t(1) by simp
  obtain s' where s': "(accept_step ca dispatch)\<^sup>*\<^sup>* ?s s'" "as_tasks s' = []" "as_permits s' = as_permits ?s + k"
      "fst ` set (as_tasks ?s) \<subseteq> fst ` set (as_out s')" "set (as_out ?s) \<subseteq> set (as_out s')"
    using Suc.IH [of ?s] t(2) by auto
  have "(accept_step ca dispatch)\<^sup>*\<^sup>* s s'" using 1 s'(1) by (rule converse_rtranclp_into_rtranclp)
  moreover have "(t, out) \<in> set (as_out s')" using s'(5) by simp
  then have "t \<in> fst ` set (as_out s')" by force
  ultimately show ?case using s' t by (intro exI [of _ s']) auto
qed auto

text \<open>After the loop has returned, every step finishes a task.\<close>

lemma returned_step:
  "accept_step ca dispatch s s' \<Longrightarrow> as_returned s \<Longrightarrow> as_cancelled s \<Longrightarrow>
     Suc (length (as_tasks s')) = length (as_tasks s) \<and> as_returned s' \<and> as_cancelled s'"
  by (induction rule: accept_step.induct) auto

lemma returned_steps:
  "(accept_step ca dispatch ^^ k) s s' \<Longrightarrow> as_returned s \<Longrightarrow> as_cancelled s \<Longrightarrow>
     k + length (as_tasks s') = length (as_tasks s) \<and> as_returned s' \<and> as_cancelled s'"
proof (induction k arbitrary: s')
  case (Suc k)
  then obtain t where t: "(accept_step ca dispatch ^^ k) s t" "accept_step ca dispatch t s'" by auto
  then show ?case using Suc.IH [OF t(1)] Suc.prems(2,3) returned_step [OF t(2)] by simp
qed simp

lemma returned_cancelled:
  "(accept_step ca dispatch)\<^sup>*\<^sup>* (accept_initial d) s \<Longrightarrow> as_returned s \<Longrightarrow> as_cancelled s"
proof (induction rule: rtranclp_induct)
  case (step s t)
  from step.hyps(2) step.IH step.prems show ?case by (induction rule: accept_step.induct) auto
qed (simp add: accept_initial_def)

end
