(* ===== verification/Client.thy ===== *)
theory Client
  imports Listener
begin

text \<open>
  \<open>src/src/daemon/client.rs\<close> and the tools of \<open>src/src/bin/dirhive-mcp.rs\<close>: the other end of the
  daemon's socket.  The lemmas join the two ends: what a tool shows is what the handler answered.
\<close>

section \<open>The client\<close>

definition RPC_TIMEOUT :: nat where
  "RPC_TIMEOUT = 5 * 1000"

text \<open>How a call ends: the time runs out, it panics, or it returns.\<close>

datatype 'a call = TimeLimit | Panicked | Returned 'a

text \<open>\<open>str::is_char_boundary\<close>; slicing elsewhere panics.\<close>

definition is_char_boundary :: "str \<Rightarrow> nat \<Rightarrow> bool" where
  "is_char_boundary s i \<longleftrightarrow> i = 0 \<or> i = length s \<or> (i < length s \<and> \<not> is_cont (s ! i))"

definition response_value :: "rpc_response \<Rightarrow> err + json" where
  "response_value resp =
     (case rr_error resp of
        Some e \<Rightarrow> Inl (Msg (''daemon RPC error: '' @ e))
      | None \<Rightarrow> ok_or (Msg ''RpcResponse had neither result nor error'') (rr_result resp))"

definition rpc_inner :: "rpc_codec \<Rightarrow> net_api \<Rightarrow> path \<Rightarrow> str \<Rightarrow> json \<Rightarrow> (err + json) call" where
  "rpc_inner ca na socket method params =
     (case un_connect na RPC_TIMEOUT socket of
        None \<Rightarrow> TimeLimit
      | Some (Inl e) \<Rightarrow> Returned (Inl (Ctx (''connect to daemon socket '' @ display socket) (Msg e)))
      | Some (Inr _) \<Rightarrow>
          (case rq_ser ca \<lparr>rq_method = method, rq_params = params\<rparr> of
             Inl e \<Rightarrow> Returned (Inl (Ctx ''serialize RpcRequest'' (Msg e)))
           | Inr body \<Rightarrow>
               (case un_exchange na RPC_TIMEOUT socket (body @ [CHR 0x0A]) of
                  Expired \<Rightarrow> TimeLimit
                | WriteFailed e \<Rightarrow> Returned (Inl (Ctx ''write RpcRequest to socket'' (Msg e)))
                | FlushFailed e \<Rightarrow> Returned (Inl (Ctx ''flush RpcRequest'' (Msg e)))
                | LineFailed e \<Rightarrow> Returned (Inl (Ctx ''read RpcResponse line'' (Msg e)))
                | Answered line \<Rightarrow>
                    if line = [] then Returned (Inl (Msg ''daemon closed connection without response''))
                    else
                      (case rs_de ca (trim_end_newlines line) of
                         Inl e \<Rightarrow>
                           if is_char_boundary line (min (length line) 200) then
                             Returned (Inl (Ctx (''parse RpcResponse JSON (first 200 bytes): ''
                               @ take (min (length line) 200) line) (Msg e)))
                           else Panicked
                       | Inr resp \<Rightarrow> Returned (response_value resp)))))"

definition rpc_call :: "rpc_codec \<Rightarrow> net_api \<Rightarrow> path \<Rightarrow> str \<Rightarrow> json \<Rightarrow> (err + json) call" where
  "rpc_call ca na socket method params =
     (case rpc_inner ca na socket method params of
        TimeLimit \<Rightarrow>
          Returned (Inl (Msg (''RPC timeout ('' @ show_nat (RPC_TIMEOUT div 1000) @ ''s) on '' @ method)))
      | r \<Rightarrow> r)"

section \<open>The tools of the MCP server\<close>

record call_tool_result =
  ct_is_error :: bool
  ct_text :: str

text \<open>\<open>pretty\<close> and \<open>compact\<close> are the two renderings of \<open>serde_json\<close>, \<open>io\<close> the text of an I/O error.\<close>

definition call_daemon ::
  "rpc_codec \<Rightarrow> net_api \<Rightarrow> (json \<Rightarrow> str + str) \<Rightarrow> (json \<Rightarrow> str) \<Rightarrow> (io_kind \<Rightarrow> str) \<Rightarrow> path \<Rightarrow> str \<Rightarrow> json
     \<Rightarrow> call_tool_result call" where
  "call_daemon ca na pretty compact io socket method params =
     (case rpc_call ca na socket method params of
        Returned (Inr v) \<Rightarrow>
          Returned \<lparr>ct_is_error = False, ct_text = (case pretty v of Inr text \<Rightarrow> text | Inl _ \<Rightarrow> compact v)\<rparr>
      | Returned (Inl e) \<Rightarrow> Returned \<lparr>ct_is_error = True, ct_text = err_display io e\<rparr>
      | TimeLimit \<Rightarrow> TimeLimit
      | Panicked \<Rightarrow> Panicked)"

record accept_invite_params =
  ai_ticket :: str
  ai_label :: "str option"

record allow_peer_params =
  ap_peer_id :: str
  ap_label :: "str option"

record revoke_params =
  rv_peer_id :: str

record list_pending_params =
  lp_limit :: "nat option"

record recent_log_params =
  rl_lines :: "32 word option"

datatype mcp_tool =
    SyncPing
  | SyncHealthCheck
  | SyncStatus
  | SyncInvite
  | SyncAcceptInvite accept_invite_params
  | SyncAllowPeer allow_peer_params
  | SyncListPeers
  | SyncRevoke revoke_params
  | SyncListPending list_pending_params
  | SyncRecentLog recent_log_params

text \<open>The method and the parameters a tool sends; \<open>sync.ping\<close> sends nothing.\<close>

fun tool_request :: "mcp_tool \<Rightarrow> (str \<times> json) option" where
  "tool_request SyncPing = None"
| "tool_request SyncHealthCheck = Some (''sync.health-check'', JObj [])"
| "tool_request SyncStatus = Some (''sync.status'', JObj [])"
| "tool_request SyncInvite = Some (''sync.invite'', JObj [])"
| "tool_request (SyncAcceptInvite p) =
     Some (''sync.accept-invite'', JObj [(''ticket'', JStr (ai_ticket p)), (''label'', json_opt JStr (ai_label p))])"
| "tool_request (SyncAllowPeer p) =
     Some (''sync.allow-peer'', JObj [(''peer_id'', JStr (ap_peer_id p)), (''label'', json_opt JStr (ap_label p))])"
| "tool_request SyncListPeers = Some (''sync.list-peers'', JObj [])"
| "tool_request (SyncRevoke p) = Some (''sync.revoke'', JObj [(''peer_id'', JStr (rv_peer_id p))])"
| "tool_request (SyncListPending p) =
     Some (''sync.list-pending'', JObj [(''limit'', json_opt (\<lambda>n. JInt (int n)) (lp_limit p))])"
| "tool_request (SyncRecentLog p) =
     Some (''sync.recent-log'', JObj [(''lines'', json_opt (\<lambda>n. JInt (uint n)) (rl_lines p))])"

definition call_tool ::
  "rpc_codec \<Rightarrow> net_api \<Rightarrow> (json \<Rightarrow> str + str) \<Rightarrow> (json \<Rightarrow> str) \<Rightarrow> (io_kind \<Rightarrow> str) \<Rightarrow> path \<Rightarrow> mcp_tool
     \<Rightarrow> call_tool_result call" where
  "call_tool ca na pretty compact io socket tool =
     (case tool_request tool of
        None \<Rightarrow> Returned \<lparr>ct_is_error = False, ct_text = ''pong''\<rparr>
      | Some (method, params) \<Rightarrow> call_daemon ca na pretty compact io socket method params)"

definition mcp_socket_path :: "env \<Rightarrow> err + path" where
  "mcp_socket_path env =
     (case env ''DIRHIVE_SOCKET'' of Some s \<Rightarrow> Inr (path_comps s) | None \<Rightarrow> default_socket_path env)"

section \<open>Both ends\<close>

text \<open>
  The socket leads to a daemon in state \<open>d\<close>: a request that is written as one line is read by
  \<open>handle_one\<close>, and the client reads what that wrote.
\<close>

definition served_by ::
  "rpc_codec \<Rightarrow> (rpc_request \<Rightarrow> 'd \<Rightarrow> rpc_response option \<times> 'd) \<Rightarrow> 'd \<Rightarrow> net_api \<Rightarrow> path \<Rightarrow> bool" where
  "served_by ca dispatch d na socket \<longleftrightarrow>
     un_connect na RPC_TIMEOUT socket = Some (Inr ())
     \<and> (\<forall>body. CHR 0x0A \<notin> set body \<longrightarrow> length body < MAX_REQUEST_BYTES \<longrightarrow>
          un_exchange na RPC_TIMEOUT socket (body @ [CHR 0x0A]) =
            Answered (case fst (snd (handle_one ca dispatch
                \<lparr>c_read = ReadLine (body @ [CHR 0x0A]), c_write = Inr (), c_flush = Inr ()\<rparr> d)) of
              Some out \<Rightarrow> out | None \<Rightarrow> []))"

lemma served_call:
  assumes "rpc_codec_ok ca" "served_by ca dispatch d na socket"
    and "rq_ser ca \<lparr>rq_method = method, rq_params = params\<rparr> = Inr body" "length body < MAX_REQUEST_BYTES"
    and "dispatch \<lparr>rq_method = method, rq_params = json_value ca params\<rparr> d = (Some resp, d')" "rr_result resp \<noteq> Some JNull"
  shows "rpc_call ca na socket method params =
    Returned (response_value (resp\<lparr>rr_result := map_option (json_value ca) (rr_result resp)\<rparr>))"
proof -
  let ?req = "\<lparr>rq_method = method, rq_params = json_value ca params\<rparr>"
  let ?c = "\<lparr>c_read = ReadLine (body @ [CHR 0x0A]), c_write = Inr (), c_flush = Inr ()\<rparr>"
  obtain b' where "rq_ser ca \<lparr>rq_method = method, rq_params = params\<rparr> = Inr b'" "rq_de ca b' = Inr ?req" "CHR 0x0A \<notin> set b'"
    using assms(1) unfolding rpc_codec_ok_def by fastforce
  then have b: "rq_de ca body = Inr ?req" "CHR 0x0A \<notin> set body" using assms(3) by simp_all
  have w: "well_formed_request ca ?c = Some ?req"
    using b assms(4) trim_line [OF b(2)] by (simp add: well_formed_request_def)
  obtain rb where rb: "rs_ser ca resp = Inr rb" "rb \<noteq> []" "CHR 0x0A \<notin> set rb"
      "rs_de ca rb = Inr (resp\<lparr>rr_result := map_option (json_value ca) (rr_result resp)\<rparr>)"
    using assms(1,6) unfolding rpc_codec_ok_def by blast
  have "fst (snd (handle_one ca dispatch ?c d)) = Some (rb @ [CHR 0x0A])"
    using handle_one_asked [OF w, of dispatch d] assms(5) rb by (simp add: send_response_def)
  then have "un_exchange na RPC_TIMEOUT socket (body @ [CHR 0x0A]) = Answered (rb @ [CHR 0x0A])"
    using assms(2,4) b(2) by (simp add: served_by_def)
  then show ?thesis
    using assms(2,3) rb trim_line [OF rb(3)] by (simp add: rpc_call_def rpc_inner_def served_by_def)
qed

text \<open>A call panics only on a long answer that does not parse.\<close>

lemma rpc_panics:
  "rpc_call ca na socket method params = Panicked \<Longrightarrow>
     \<exists>body line. rq_ser ca \<lparr>rq_method = method, rq_params = params\<rparr> = Inr body
       \<and> un_exchange na RPC_TIMEOUT socket (body @ [CHR 0x0A]) = Answered line
       \<and> 200 < length line \<and> is_cont (line ! 200) \<and> isl (rs_de ca (trim_end_newlines line))"
  by (auto simp: rpc_call_def rpc_inner_def is_char_boundary_def min_def
      split: call.splits option.splits sum.splits exchange.splits if_splits)

end
