(* ===== verification/Runtime.thy ===== *)
theory Runtime
  imports Client
begin

text \<open>
  \<open>src/src/allowlist_blobs.rs\<close>, who may fetch blobs, and \<open>src/src/runtime.rs\<close>, the gossip topic of a
  group.  The blob protocol, the store and gossip are parameters.
\<close>

section \<open>Serving blobs\<close>

definition REJECT_CODE_UNAUTHORIZED :: "32 word" where
  "REJECT_CODE_UNAUTHORIZED = 401"

text \<open>\<open>ab_inner\<close> is \<open>BlobsProtocol::accept\<close>: a whole session with the connected peer.\<close>

record ('b, 'z) allowlist_blobs =
  ab_inner :: "endpoint_id \<Rightarrow> 'b \<Rightarrow> (str + unit) \<times> 'b"
  ab_on_serve_success :: "'z peer_seen_callback option"

definition allowlist_blobs_new :: "(endpoint_id \<Rightarrow> 'b \<Rightarrow> (str + unit) \<times> 'b) \<Rightarrow> ('b, 'z) allowlist_blobs" where
  "allowlist_blobs_new inner = \<lparr>ab_inner = inner, ab_on_serve_success = None\<rparr>"

definition with_serve_callback ::
  "(endpoint_id \<Rightarrow> 'b \<Rightarrow> (str + unit) \<times> 'b) \<Rightarrow> 'z peer_seen_callback \<Rightarrow> ('b, 'z) allowlist_blobs" where
  "with_serve_callback inner cb = \<lparr>ab_inner = inner, ab_on_serve_success = Some cb\<rparr>"

definition is_authorized :: "allow_list \<Rightarrow> endpoint_id \<Rightarrow> bool" where
  "is_authorized al remote_id = al_contains al remote_id"

text \<open>The result, the code and reason with which the connection was closed, and the new state.\<close>

definition blobs_accept ::
  "('b, 'z) allowlist_blobs \<Rightarrow> endpoint_id \<Rightarrow> ('b, 'z) peer_node_scheme
     \<Rightarrow> (str + unit) \<times> (32 word \<times> str) option \<times> ('b, 'z) peer_node_scheme" where
  "blobs_accept ab remote_id n =
     (if \<not> is_authorized (allow n) remote_id then
        (Inr (), Some (REJECT_CODE_UNAUTHORIZED, ''unauthorized''), n)
      else
        (case ab_inner ab remote_id (blobs n) of
           (Inl e, b) \<Rightarrow> (Inl e, None, n\<lparr>blobs := b\<rparr>)
         | (Inr _, b) \<Rightarrow>
             (Inr (), None, call_seen (ab_on_serve_success ab) remote_id (epoch_secs n) (n\<lparr>blobs := b\<rparr>))))"

section \<open>The gossip topic\<close>

datatype topic_id = TopicId bytes

definition TOPIC_DOMAIN :: bytes where
  "TOPIC_DOMAIN = ''dirhive/v1/topic'' @ [CHR 0x00]"

definition derive_topic_id :: "(bytes \<Rightarrow> bytes) \<Rightarrow> bytes \<Rightarrow> topic_id" where
  "derive_topic_id blake3_hash folder_secret = TopicId (blake3_hash (TOPIC_DOMAIN @ folder_secret))"

text \<open>
  \<open>rt_load\<close> is \<open>FsStore::load\<close>, \<open>rt_subscribe\<close> is \<open>Gossip::subscribe\<close>, and \<open>rt_lookup\<close> tells whether the
  endpoint has an address lookup.
\<close>

record ('b, 'g) runtime_api =
  rt_blake3 :: "bytes \<Rightarrow> bytes"
  rt_load :: "path \<Rightarrow> str + unit"
  rt_accept :: "endpoint_id \<Rightarrow> 'b \<Rightarrow> (str + unit) \<times> 'b"
  rt_lookup :: "str + unit"
  rt_subscribe :: "topic_id \<Rightarrow> endpoint_id list \<Rightarrow> str + 'g"
  rt_shutdown :: "str + unit"

text \<open>\<open>sr_known\<close>: the addresses given to the address lookup of the endpoint.\<close>

record ('b, 'g, 'z) sync_runtime =
  sr_router :: "('b, 'z) allowlist_blobs"
  sr_topic :: "'g option"
  sr_topic_id :: "topic_id option"
  sr_known :: "endpoint_addr list"

definition build_with_serve_callback ::
  "('b, 'g) runtime_api \<Rightarrow> path \<Rightarrow> bytes option \<Rightarrow> endpoint_addr list \<Rightarrow> 'z peer_seen_callback option
     \<Rightarrow> err + ('b, 'g, 'z) sync_runtime" where
  "build_with_serve_callback api dir folder_secret bootstrap_peers on_serve =
     (case rt_load api dir of
        Inl e \<Rightarrow> Inl (Ctx (''FsStore::load '' @ display dir) (Msg e))
      | Inr _ \<Rightarrow>
          (let allow_wrapped = (case on_serve of
                 Some cb \<Rightarrow> with_serve_callback (rt_accept api) cb
               | None \<Rightarrow> allowlist_blobs_new (rt_accept api)) in
           case folder_secret of
             None \<Rightarrow> Inr \<lparr>sr_router = allow_wrapped, sr_topic = None, sr_topic_id = None, sr_known = []\<rparr>
           | Some secret \<Rightarrow>
               (let topic = derive_topic_id (rt_blake3 api) secret;
                    known = (if bootstrap_peers = [] then []
                             else case rt_lookup api of Inr _ \<Rightarrow> bootstrap_peers | Inl _ \<Rightarrow> []);
                    bootstrap_ids = map addr_id bootstrap_peers in
                case rt_subscribe api topic bootstrap_ids of
                  Inl e \<Rightarrow> Inl (Msg (''gossip subscribe: '' @ e))
                | Inr t \<Rightarrow>
                    Inr \<lparr>sr_router = allow_wrapped, sr_topic = Some t, sr_topic_id = Some topic, sr_known = known\<rparr>)))"

definition runtime_build ::
  "('b, 'g) runtime_api \<Rightarrow> path \<Rightarrow> bytes option \<Rightarrow> endpoint_addr list \<Rightarrow> err + ('b, 'g, 'z) sync_runtime" where
  "runtime_build api dir folder_secret bootstrap_peers =
     build_with_serve_callback api dir folder_secret bootstrap_peers None"

definition runtime_gossip_subscribed :: "('b, 'g, 'z) sync_runtime \<Rightarrow> bool" where
  "runtime_gossip_subscribed r \<longleftrightarrow> sr_topic r \<noteq> None"

definition take_topic :: "('b, 'g, 'z) sync_runtime \<Rightarrow> 'g option \<times> ('b, 'g, 'z) sync_runtime" where
  "take_topic r = (sr_topic r, r\<lparr>sr_topic := None\<rparr>)"

definition runtime_shutdown :: "('b, 'g) runtime_api \<Rightarrow> ('b, 'g, 'z) sync_runtime \<Rightarrow> err + unit" where
  "runtime_shutdown api r =
     (case rt_shutdown api of Inl e \<Rightarrow> Inl (Msg (''router shutdown: '' @ e)) | Inr _ \<Rightarrow> Inr ())"

section \<open>What the runtime offers\<close>

lemma blobs_accept_stranger:
  "\<not> al_contains (allow n) i \<Longrightarrow> blobs_accept ab i n = (Inr (), Some (401, ''unauthorized''), n)"
  by (simp add: blobs_accept_def is_authorized_def REJECT_CODE_UNAUTHORIZED_def)

lemma blobs_accept_node:
  "fs (snd (snd (blobs_accept ab i n))) = fs n" "sync (snd (snd (blobs_accept ab i n))) = sync n"
  "allow (snd (snd (blobs_accept ab i n))) = allow n"
  by (simp_all add: blobs_accept_def call_seen_def split: prod.splits sum.splits option.splits)

lemma build_router:
  "build_with_serve_callback api dir s ps (Some cb) = Inr r \<Longrightarrow> sr_router r = with_serve_callback (rt_accept api) cb"
  by (auto simp: build_with_serve_callback_def Let_def split: sum.splits option.splits)

text \<open>The topic is subscribed exactly with a secret, and depends on nothing else.\<close>

lemma build_topic:
  assumes "build_with_serve_callback api dir s ps cb = Inr r"
  shows "runtime_gossip_subscribed r \<longleftrightarrow> s \<noteq> None"
    "sr_topic_id r = map_option (derive_topic_id (rt_blake3 api)) s"
  using assms by (auto simp: build_with_serve_callback_def runtime_gossip_subscribed_def Let_def split: sum.splits option.splits)

lemma topic_id_inj: "inj h \<Longrightarrow> derive_topic_id h s = derive_topic_id h s' \<longleftrightarrow> s = s'"
  by (auto simp: derive_topic_id_def dest: injD)

end
