(* ===== verification/Startup_Laws.thy ===== *)
theory Startup_Laws
  imports Startup
begin

text \<open>
  What the order of start-up guarantees: which files each step may touch, that a daemon without the
  lock touches the lock file and the log only, and that start-up never reaches its panics.
\<close>

section \<open>Frames\<close>

text \<open>
  \<open>touches A f f'\<close>: directories on the way to the files of \<open>A\<close> may be made or change their mode, the
  files of \<open>A\<close> may change, and nothing else.
\<close>

definition touches :: "path set \<Rightarrow> fs \<Rightarrow> fs \<Rightarrow> bool" where
  "touches A f f' \<longleftrightarrow>
     (\<forall>q. node_at f' q = node_at f q
        \<or> (\<exists>p\<in>A. prefix q (butlast p)) \<and> dir_at f' q \<and> (node_at f q = None \<or> dir_at f q)
        \<or> q \<in> A \<and> (\<forall>t. node_at f' q \<noteq> Some (Symlink t)))"

lemma touches_refl [simp]: "touches A f f"
  by (simp add: touches_def)

lemma touches_trans: "touches A f f1 \<Longrightarrow> touches A f1 f2 \<Longrightarrow> touches A f f2"
  unfolding touches_def dir_at_def
  by (metis node.distinct(7) option.inject)

lemma touches_mono: "touches A f f' \<Longrightarrow> A \<subseteq> B \<Longrightarrow> touches B f f'"
  unfolding touches_def by blast

lemma touches_keeps:
  assumes "touches A f f'" "q \<notin> A" "node_at f q = Some nd" "\<not> is_dir nd"
  shows "node_at f' q = Some nd"
  using assms unfolding touches_def dir_at_def by (metis is_dir.simps(1) option.distinct(1) option.inject)

lemma dirs_secured_touches: "dirs_secured (butlast p) f f' \<Longrightarrow> p \<in> A \<Longrightarrow> touches A f f'"
  unfolding dirs_secured_def touches_def by blast

lemma touches_layout:
  assumes "store_layout f ps" "A \<subseteq> ps" "touches A f f'"
  shows "store_layout f' ps"
  unfolding store_layout_def
proof (rule ballI, intro conjI)
  fix p assume p: "p \<in> ps"
  have sp: "store_path f p" and nl: "\<forall>t. node_at f p \<noteq> Some (Symlink t)" and below: "\<forall>r\<in>ps. \<not> prefix r (butlast p)"
    using assms(1) p by (auto simp: store_layout_def)
  show "\<forall>c\<in>set p. \<not> suffix ''.tmp'' c" "\<forall>r\<in>ps. \<not> prefix p (butlast r)" using assms(1) p by (auto simp: store_layout_def)
  show "\<forall>t. node_at f' p \<noteq> Some (Symlink t)"
    using assms(3) nl unfolding touches_def dir_at_def by (metis node.distinct(7) option.inject)
  have "dir_at f' r" if "prefix r (butlast p)" "node_at f' r \<noteq> None" for r
  proof -
    have "r \<notin> A" using that(1) below assms(2) by blast
    moreover have "node_at f r \<noteq> None \<longrightarrow> dir_at f r" using sp that(1) by (auto simp: store_path_def dir_path_def)
    ultimately show ?thesis using assms(3) that(2) unfolding touches_def dir_at_def by metis
  qed
  then show "store_path f' p" using sp by (auto simp: store_path_def dir_path_def)
qed

text \<open>An operation on the files of \<open>A\<close> in a host whose private files are the \<open>ps\<close>.\<close>

definition host_ok :: "path set \<Rightarrow> 'z world_scheme \<Rightarrow> bool" where
  "host_ok ps w \<longleftrightarrow> wf_fs (fs w) \<and> store_layout (fs w) ps"

lemma host_ok_mono: "host_ok ps w \<Longrightarrow> qs \<subseteq> ps \<Longrightarrow> host_ok qs w"
  unfolding host_ok_def store_layout_def by blast

definition host_op :: "path set \<Rightarrow> path set \<Rightarrow> 'z world_scheme \<Rightarrow> 'z world_scheme \<Rightarrow> bool" where
  "host_op ps A w w' \<longleftrightarrow> fs_step w w' \<and> host_ok ps w' \<and> touches A (fs w) (fs w')"

lemma host_opI:
  "host_ok ps w \<Longrightarrow> A \<subseteq> ps \<Longrightarrow> fs_step w w' \<Longrightarrow> wf_fs (fs w') \<Longrightarrow> touches A (fs w) (fs w') \<Longrightarrow> host_op ps A w w'"
  using touches_layout by (auto simp: host_op_def host_ok_def)

lemma host_op_refl [simp]: "host_ok ps w \<Longrightarrow> host_op ps A w w"
  by (simp add: host_op_def)

lemma host_op_same: "host_ok ps w \<Longrightarrow> fs_step w w' \<Longrightarrow> fs w' = fs w \<Longrightarrow> host_op ps A w w'"
  by (simp add: host_op_def host_ok_def)

lemma host_op_trans: "host_op ps A w w1 \<Longrightarrow> host_op ps A w1 w2 \<Longrightarrow> host_op ps A w w2"
  unfolding host_op_def using fs_step_trans touches_trans by blast

lemma host_op_mono: "host_op ps A w w' \<Longrightarrow> A \<subseteq> B \<Longrightarrow> host_op ps B w w'"
  unfolding host_op_def using touches_mono by blast

lemma host_op_ok: "host_op ps A w w' \<Longrightarrow> host_ok ps w'"
  by (simp add: host_op_def)

lemma host_op_and_then:
  assumes "host_op ps A w (snd res)" "\<And>x w1. res = (Inr x, w1) \<Longrightarrow> host_ok ps w1 \<Longrightarrow> host_op ps A w1 (snd (k x w1))"
  shows "host_op ps A w (snd (and_then res k))"
proof (cases res)
  case (Pair r w1)
  then show ?thesis using assms host_op_ok [OF assms(1)] host_op_trans by (cases r) auto
qed

lemma io_raw_snd [simp]: "snd (io_raw res) = snd res"
  by (auto simp: io_raw_def split: prod.splits sum.splits)

lemma io_raw_Inr_iff: "io_raw res = (Inr x, w) \<longleftrightarrow> res = (Inr x, w)"
  by (auto simp: io_raw_def split: prod.splits sum.splits)

lemma host_plain: "host_ok ps w \<Longrightarrow> p \<in> ps \<Longrightarrow> plain (fs w) p \<and> p \<noteq> [] \<and> dir_path (fs w) (butlast p)"
  using store_layoutD(2-4) [of "fs w" ps p] by (simp add: host_ok_def)

section \<open>The system calls of start-up\<close>

lemma ensure_parent_host_op:
  assumes "host_ok ps w" "p \<in> A" "A \<subseteq> ps"
  shows "host_op ps A w (snd (ensure_parent_700 p w))"
proof -
  note l = host_plain [OF assms(1), of p]
  obtain r w' where e: "ensure_dir_700 (butlast p) w = (r, w')" by fastforce
  note post = ensure_dir_700_post [OF e]
  show ?thesis
    using host_opI [OF assms(1,3) post(1,2) dirs_secured_touches [OF post(3) assms(2)]] e l assms
    by (auto simp: ensure_parent_700_def path_parent_def host_ok_def)
qed

lemma create_parent_host_op:
  assumes "host_ok ps w" "p \<in> A" "A \<subseteq> ps"
  shows "host_op ps A w (snd (create_dir_all (butlast p) w))"
proof -
  note l = host_plain [OF assms(1), of p]
  obtain r w' where e: "create_dir_all (butlast p) w = (r, w')" by fastforce
  note post = create_dir_all_inv [OF e]
  show ?thesis
    using host_opI [OF assms(1,3) post(1,2) dirs_secured_touches [OF dirs_added_secured [OF post(3)] assms(2)]] e l assms
    by (auto simp: host_ok_def)
qed

lemma touches_update: "p \<in> A \<Longrightarrow> p \<noteq> [] \<Longrightarrow> \<not> is_symlink nd \<Longrightarrow> touches A f (AList.update p nd f)"
  by (auto simp: touches_def is_symlink_iff)

lemma touches_delete: "p \<in> A \<Longrightarrow> p \<noteq> [] \<Longrightarrow> touches A f (AList.delete p f)"
  by (auto simp: touches_def)

text \<open>Opening the file of a layout opens that file, which then exists.\<close>

lemma open_host_op:
  assumes "host_ok ps w" "p \<in> A" "A \<subseteq> ps" "syscall (k_open_create m p) w = (r, w')"
  shows "host_op ps A w w'" "r = Inr q \<Longrightarrow> q = p \<and> (\<exists>b m. node_at (fs w') p = Some (File b m))"
proof -
  have p: "plain (fs w) p" "p \<noteq> []" and wf: "wf_fs (fs w)"
    using host_plain [OF assms(1), of p] assms by (auto simp: host_ok_def)
  note i = syscall_inv [OF assms(4)]
  have loc: "locate True (fs w) p = (if dir_at (fs w) (butlast p) then Inr p else Inl NotFound)"
    by (rule locate_plain [OF wf p])
  have "wf_fs (AList.update p (File '''' m) (fs w))" if "dir_at (fs w) (butlast p)" "node_at (fs w) p = None"
    using wf_fs_update [OF wf p(2) that(1)] that(2) by (simp add: dir_at_def)
  then have "wf_fs (fs w') \<and> touches A (fs w) (fs w') \<and> (\<forall>q. r = Inr q \<longrightarrow> q = p \<and> (\<exists>b m. node_at (fs w') p = Some (File b m)))"
    using i loc wf p(2) touches_update [OF assms(2) p(2), of "File '''' m" "fs w"]
    by (auto simp: k_open_create_def split: if_splits option.splits node.splits dest: sym [where t = "fs w'"])
  then show "host_op ps A w w'" "r = Inr q \<Longrightarrow> q = p \<and> (\<exists>b m. node_at (fs w') p = Some (File b m))"
    using host_opI [OF assms(1,3)] i by blast+
qed

lemma fchmod_host_op:
  assumes "host_ok ps w" "p \<in> A" "A \<subseteq> ps" "node_at (fs w) p = Some (File b m)"
  shows "host_op ps A w (snd (fs_fchmod p md w))"
proof -
  have p: "p \<noteq> []" and wf: "wf_fs (fs w)" using host_plain [OF assms(1), of p] assms by (auto simp: host_ok_def)
  obtain r w' where e: "fs_fchmod p md w = (r, w')" by fastforce
  note i = syscall_inv [OF e [unfolded fs_fchmod_def]]
  have "wf_fs (AList.update p (File b md) (fs w))"
    using wf_fs_update [OF wf p] wf_fs_parent [OF wf p] assms(4) by (simp add: dir_at_def)
  then show ?thesis
    using host_opI [OF assms(1,3), of w'] i e wf assms(4) touches_update [OF assms(2) p, of "File b md" "fs w"]
    by (auto simp: k_fchmod_def)
qed

lemma exists_host_op: "host_ok ps w \<Longrightarrow> host_op ps A w (snd (path_exists p w))"
  using path_exists_inv [of p w] by (metis host_op_same prod.collapse)

lemma remove_host_op:
  assumes "host_ok ps w" "p \<in> A" "A \<subseteq> ps"
  shows "host_op ps A w (snd (remove_file p w))"
proof -
  have p: "plain (fs w) p" "p \<noteq> []" and wf: "wf_fs (fs w)"
    using host_plain [OF assms(1), of p] assms by (auto simp: host_ok_def)
  obtain r w' where e: "remove_file p w = (r, w')" by fastforce
  note i = remove_file_inv [OF e wf p(1)]
  have "wf_fs (fs w')" using i wf wf_fs_delete [OF wf p(2)] by (auto simp: dir_at_def is_dir_iff)
  then show ?thesis
    using host_opI [OF assms(1,3), of w'] i e touches_delete [OF assms(2) p(2), of "fs w"] by auto
qed

lemma chmod_host_op:
  assumes "host_ok ps w" "p \<in> A" "A \<subseteq> ps" "node_at (fs w) p = Some (Socket m)"
  shows "host_op ps A w (snd (set_permissions p md w))"
    "set_permissions p md w = (Inr (), w') \<Longrightarrow> node_at (fs w') p = Some (Socket md)"
proof -
  have p: "plain (fs w) p" "p \<noteq> []" and wf: "wf_fs (fs w)"
    using host_plain [OF assms(1), of p] assms by (auto simp: host_ok_def)
  have pd: "dir_at (fs w) (butlast p)" using wf_fs_parent [OF wf p(2)] assms(4) by simp
  then have k: "k_chmod p md (fs w) = (Inr (), AList.update p (Socket md) (fs w))"
    using locate_plain [OF wf p, of True] assms(4) p(2) by (simp add: k_chmod_def)
  obtain r w1 where e: "set_permissions p md w = (r, w1)" by fastforce
  note i = syscall_inv [OF e [unfolded set_permissions_def]]
  have "wf_fs (AList.update p (Socket md) (fs w))" using wf_fs_update [OF wf p(2) pd] assms(4) by (simp add: dir_at_def)
  then show "host_op ps A w (snd (set_permissions p md w))"
    using host_opI [OF assms(1,3), of w1] i e k wf touches_update [OF assms(2) p(2), of "Socket md" "fs w"] by auto
  show "node_at (fs w') p = Some (Socket md)" if "set_permissions p md w = (Inr (), w')"
    using syscall_inv [OF that [unfolded set_permissions_def]] k p(2) by (auto dest: sym [where t = "fs w'"])
qed

section \<open>The lock and the socket\<close>

lemma acquire_host_op:
  assumes "host_ok ps w" "lockp \<in> ps"
  shows "host_op ps {lockp} w (snd (acquire_daemon_lock try_lock lockp w))"
    "acquire_daemon_lock try_lock lockp w = (Inr q, w') \<Longrightarrow> q = lockp \<and> try_lock lockp = Inr ()"
proof -
  obtain r1 w1 where 1: "ensure_parent_700 lockp w = (r1, w1)" by fastforce
  have h1: "host_op ps {lockp} w w1" using ensure_parent_host_op [OF assms(1), of lockp "{lockp}"] assms(2) 1 by simp
  obtain r2 w2 where 2: "syscall (k_open_create (438 AND NOT (umask w1)) lockp) w1 = (r2, w2)" by fastforce
  note op = open_host_op [OF host_op_ok [OF h1] _ _ 2, of "{lockp}"]
  have h2: "host_op ps {lockp} w w2" using host_op_trans [OF h1] op(1) assms(2) by simp
  obtain r3 w3 where 3: "fs_fstat lockp w2 = (r3, w3)" by fastforce
  note st = syscall_readonly [OF 3 [unfolded fs_fstat_def] k_fstat_readonly]
  have h3: "host_op ps {lockp} w w3" by (rule host_op_trans [OF h2 host_op_same [OF host_op_ok [OF h2] st(1,2)]])
  obtain r4 w4 where 4: "fs_fchmod lockp 384 w3 = (r4, w4)" by fastforce
  have "(\<exists>e. r2 = Inl e) \<or> r2 = Inr lockp \<and> host_op ps {lockp} w w4"
  proof (cases r2)
    case (Inr q')
    then obtain b m where f: "q' = lockp" "node_at (fs w3) lockp = Some (File b m)"
      using op(2) [OF _ _ Inr] assms(2) st(2) by auto
    have "host_op ps {lockp} w3 w4" using fchmod_host_op [OF host_op_ok [OF h3] _ _ f(2), of "{lockp}" 384] assms(2) 4 by simp
    then show ?thesis using Inr f(1) host_op_trans [OF h3] by simp
  qed simp
  then have "host_op ps {lockp} w (snd (acquire_daemon_lock try_lock lockp w))
      \<and> (\<forall>q. fst (acquire_daemon_lock try_lock lockp w) = Inr q \<longrightarrow> q = lockp \<and> try_lock lockp = Inr ())"
  proof (elim disjE exE conjE)
    fix e assume "r2 = Inl e"
    then show ?thesis using h1 h2 1 2 by (cases r1) (simp_all add: acquire_daemon_lock_def)
  next
    assume r2: "r2 = Inr lockp" and h4: "host_op ps {lockp} w w4"
    then show ?thesis using h1 h2 h3 1 2 3 4
      by (cases r1; cases r3; cases r4; cases "try_lock lockp") (simp_all add: acquire_daemon_lock_def)
  qed
  then show "host_op ps {lockp} w (snd (acquire_daemon_lock try_lock lockp w))"
    "acquire_daemon_lock try_lock lockp w = (Inr q, w') \<Longrightarrow> q = lockp \<and> try_lock lockp = Inr ()" by auto
qed

lemma recover_host_op:
  assumes "host_ok ps w" "sock \<in> ps"
  shows "host_op ps {sock} w (snd (recover_stale_socket ca na sock w))"
proof -
  obtain b w1 where 1: "path_exists sock w = (b, w1)" by fastforce
  have h: "host_op ps {sock} w w1" using exists_host_op [OF assms(1), of "{sock}" sock] 1 by simp
  have "host_op ps {sock} w1 (snd (remove_file sock w1))" using remove_host_op [OF host_op_ok [OF h], of sock "{sock}"] assms(2) by simp
  then show ?thesis using h host_op_trans 1 by (auto simp: recover_stale_socket_def split: bool.splits)
qed

lemma net_bind_host_op:
  assumes "host_ok ps w" "sock \<in> ps" "net_ok na" "syscall (un_bind na m sock) w = (r, w')"
  shows "host_op ps {sock} w w'" "r = Inr u \<Longrightarrow> \<exists>m. node_at (fs w') sock = Some (Socket m)"
proof -
  have p: "plain (fs w) sock" "sock \<noteq> []" and wf: "wf_fs (fs w)"
    using host_plain [OF assms(1,2)] assms(1) by (auto simp: host_ok_def)
  note i = syscall_inv [OF assms(4)]
  have c: "fs w' = fs w \<and> (\<exists>e. r = Inl e)
      \<or> r = Inr () \<and> node_at (fs w) sock = None \<and> dir_at (fs w) (butlast sock) \<and> fs w' = AList.update sock (Socket m) (fs w)"
    using i assms(3) wf p(1) unfolding net_ok_def by blast
  then have "wf_fs (fs w')" using wf wf_fs_update [OF wf p(2), of "Socket m"] by (auto simp: dir_at_def)
  then show "host_op ps {sock} w w'"
    using host_opI [OF assms(1), of "{sock}" w'] c i assms(2) touches_update [of sock "{sock}" "Socket m" "fs w"] p(2) by auto
  show "\<exists>m. node_at (fs w') sock = Some (Socket m)" if "r = Inr u" using c that p(2) by auto
qed

lemma bind_host_op:
  assumes "host_ok ps w" "sock \<in> ps" "net_ok na"
  shows "host_op ps {sock} w (snd (bind_listener_with_lock na sock lf w))"
    "bind_listener_with_lock na sock lf w = (Inr h, w') \<Longrightarrow>
       h = \<lparr>lh_socket_path = sock, lh_lock_file = lf\<rparr> \<and> node_at (fs w') sock = Some (Socket 384)"
proof -
  obtain b w1 where 1: "path_exists sock w = (b, w1)" by fastforce
  have h1: "host_op ps {sock} w w1" using exists_host_op [OF assms(1), of "{sock}" sock] 1 by simp
  obtain r2 w2 where 2: "ensure_parent_700 sock w1 = (r2, w2)" by fastforce
  have "host_op ps {sock} w1 w2" using ensure_parent_host_op [OF host_op_ok [OF h1], of sock "{sock}"] assms(2) 2 by simp
  then have h2: "host_op ps {sock} w w2" by (rule host_op_trans [OF h1])
  obtain r3 w3 where 3: "syscall (un_bind na (511 AND NOT (umask w2)) sock) w2 = (r3, w3)" by fastforce
  note nb = net_bind_host_op [OF host_op_ok [OF h2] assms(2,3) 3]
  have h3: "host_op ps {sock} w w3" by (rule host_op_trans [OF h2 nb(1)])
  obtain r4 w4 where 4: "metadata sock w3 = (r4, w4)" by fastforce
  note m = metadata_inv [OF 4]
  have h4: "host_op ps {sock} w w4" using host_op_trans [OF h3 host_op_same [OF host_op_ok [OF h3]]] m by blast
  obtain r5 w5 where 5: "set_permissions sock 384 w4 = (r5, w5)" by fastforce
  have h5: "host_op ps {sock} w w5 \<and> (r5 = Inr () \<longrightarrow> node_at (fs w5) sock = Some (Socket 384))" if r3: "r3 = Inr ()"
  proof -
    obtain m where s: "node_at (fs w4) sock = Some (Socket m)" using nb(2) [of "()"] r3 m by auto
    show ?thesis
      using chmod_host_op [OF host_op_ok [OF h4] _ _ s, of "{sock}" 384] assms(2) 5 host_op_trans [OF h4] by auto
  qed
  show "host_op ps {sock} w (snd (bind_listener_with_lock na sock lf w))"
    using h1 h2 h3 h4 h5 1 2 3 4 5
    by (cases b; cases r2; cases r3; cases r4; cases r5) (simp_all add: bind_listener_with_lock_def)
  show "h = \<lparr>lh_socket_path = sock, lh_lock_file = lf\<rparr> \<and> node_at (fs w') sock = Some (Socket 384)"
    if "bind_listener_with_lock na sock lf w = (Inr h, w')"
    using h5 1 2 3 4 5 that
    by (cases b; cases r2; cases r3; cases r4; cases r5) (simp_all add: bind_listener_with_lock_def)
qed

section \<open>A daemon that is refused the lock\<close>

lemma init_tracing_host_op:
  assumes "host_ok ps w" "logp \<in> ps"
  shows "host_op ps {logp} w (snd (init_tracing t logp w))"
proof -
  have ne: "logp \<noteq> []" using host_plain [OF assms] by simp
  obtain r1 w1 where 1: "create_dir_all (butlast logp) w = (r1, w1)" by fastforce
  have h1: "host_op ps {logp} w w1" using create_parent_host_op [OF assms(1), of logp "{logp}"] assms(2) 1 by simp
  obtain r2 w2 where 2: "syscall (k_open_create (438 AND NOT (umask w1)) logp) w1 = (r2, w2)" by fastforce
  have "host_op ps {logp} w1 w2" using open_host_op(1) [OF host_op_ok [OF h1] _ _ 2, of "{logp}"] assms(2) by simp
  then have "host_op ps {logp} w w2" by (rule host_op_trans [OF h1])
  then show ?thesis using h1 1 2 ne
    by (cases r1; cases r2; cases t) (simp_all add: init_tracing_def path_parent_def)
qed

lemma build_daemon_paths_fields:
  assumes "build_daemon_paths env d = Inr p"
  shows "default_lock_path env = Inr (lock_path p)" "default_log_path env = Inr (log_path p)"
    "default_socket_path env = Inr (socket_path p)" "watched_dir_canonical p = d"
  using assms by (auto simp: build_daemon_paths_def res_bind_Inr_iff)

lemma claim_host_refused:
  assumes "default_lock_path env = Inr lockp" "default_log_path env = Inr logp"
    and "host_ok {lockp, logp} w" "ma_try_lock api lockp = Inl e0"
  shows "\<exists>e w'. claim_host api env args w = (Inl e, w') \<and> host_op {lockp, logp} {lockp, logp} w w'"
proof -
  let ?ps = "{lockp, logp}"
  obtain r1 w1 where 1: "canonicalize (cli_watch args) w = (r1, w1)" by fastforce
  note c = syscall_readonly [OF 1 [unfolded canonicalize_def] k_canonicalize_readonly]
  have h1: "host_op ?ps ?ps w w1" by (rule host_op_same [OF assms(3) c(1,2)])
  show ?thesis
  proof (cases r1)
    case (Inl e)
    then show ?thesis using 1 h1 by (auto simp: claim_host_def)
  next
    case r1: (Inr watched)
    show ?thesis
    proof (cases "build_daemon_paths env watched")
      case (Inl e)
      then show ?thesis using 1 h1 r1 by (auto simp: claim_host_def)
    next
      case (Inr paths)
      have p: "lock_path paths = lockp" "log_path paths = logp" using build_daemon_paths_fields [OF Inr] assms(1,2) by simp_all
      obtain r2 w2 where 2: "init_tracing (ma_tracing api) logp w1 = (r2, w2)" by fastforce
      have "host_op ?ps {logp} w1 w2" using init_tracing_host_op [OF host_op_ok [OF h1], of logp "ma_tracing api"] 2 by simp
      then have h2: "host_op ?ps ?ps w w2" using host_op_trans [OF h1] host_op_mono by blast
      obtain r3 w3 where 3: "acquire_daemon_lock (ma_try_lock api) lockp w2 = (r3, w3)" by fastforce
      note aq = acquire_host_op [OF host_op_ok [OF h2], of lockp "ma_try_lock api"]
      have "host_op ?ps {lockp} w2 w3" using aq(1) 3 by simp
      then have h3: "host_op ?ps ?ps w w3" using host_op_trans [OF h2] host_op_mono by blast
      have "\<exists>e. r3 = Inl e" using aq(2) 3 assms(4) by (cases r3) auto
      then show ?thesis using 1 2 3 h2 h3 r1 Inr p
        by (cases r2; cases "ma_sigint api"; cases "ma_sigterm api") (auto simp: claim_host_def)
    qed
  qed
qed

lemma daemon_start_refused:
  "claim_host api env args w = (Inl e, w') \<Longrightarrow> daemon_start api env args rnd w = (Some (Inl e), w')"
  by (simp add: daemon_start_def)

section \<open>A daemon that starts\<close>

lemma split_topic_cases:
  assumes "split_topic s r = Inr (t, st, r')"
  shows "t = None \<and> st = Uninitialized \<and> s = None \<or> t \<noteq> None \<and> st = Active \<and> s \<noteq> None"
  using assms by (auto simp: split_topic_def take_topic_def split: option.splits dest: sym [of "Some _"])

lemma daemon_state_new_split:
  assumes "split_topic s r = Inr (t, st, r')"
  shows "\<exists>ds. daemon_state_new paths pending i t st now = Some ds \<and> gossip_runtime_invariant (gossip_runtime ds)
    \<and> (current_runtime_status ds = Active \<longleftrightarrow> t \<noteq> None) \<and> gossip_sender_cloned ds = t"
  using split_topic_cases [OF assms]
  by (auto simp: daemon_state_new_def gossip_runtime_invariant_def current_runtime_status_def gossip_sender_cloned_def)

lemma daemon_start_cases:
  assumes "daemon_start api env args rnd w = (r, w')"
  obtains (refused) e where "r = Some (Inl e)"
  | (running) st paths lf w1 w2 w3 i s al rt t stat pend where "r = Some (Inr st)"
      "claim_host api env args w = (Inr (paths, lf), w1)"
      "join_network api args rnd paths w1 = (Inr (i, s, al, rt), w2)"
      "split_topic s rt = Inr (t, stat, st_runtime st)"
      "daemon_state_new paths pend i t stat (mono_ms w3) = Some (st_daemon st)"
      "bind_listener_with_lock (ma_net api) (socket_path paths) lf w3 = (Inr (st_listener st), w')"
      "st_receiver st = t" "st_allow st = al"
      "pending_tracker_new (pa_pending (ma_peer api)) env (watched_dir_canonical paths) w2 = (Inr pend, w3)"
proof (cases "claim_host api env args w")
  case 1: (Pair r1 w1)
  show thesis
  proof (cases r1)
    case (Inl e)
    then show thesis using refused [of e] assms 1 by (simp add: daemon_start_def)
  next
    case r1: (Inr x)
    obtain paths lf where x: "x = (paths, lf)" by fastforce
    obtain r2 w2 where 2: "join_network api args rnd paths w1 = (r2, w2)" by fastforce
    show thesis
    proof (cases r2)
      case (Inl e)
      then show thesis using refused [of e] assms 1 2 r1 x by (simp add: daemon_start_def)
    next
      case r2: (Inr y)
      obtain i s al rt where y: "y = (i, s, al, rt)" by (metis prod_cases4)
      show thesis
      proof (cases "split_topic s rt")
        case (Inl e)
        then show thesis using refused [of e] assms 1 2 r1 r2 x y by (simp add: daemon_start_def)
      next
        case 3: (Inr z)
        obtain t stat rt' where z: "z = (t, stat, rt')" by (metis prod_cases3)
        obtain r4 w3 where 4: "with_context ''PendingTracker::new''
            (pending_tracker_new (pa_pending (ma_peer api)) env (watched_dir_canonical paths) w2) = (r4, w3)" by fastforce
        show thesis
        proof (cases r4)
          case (Inl e)
          then show thesis using refused [of e] assms 1 2 3 4 r1 r2 x y z by (simp add: daemon_start_def)
        next
          case r4: (Inr pend)
          obtain ds where ds: "daemon_state_new paths pend i t stat (mono_ms w3) = Some ds"
            using daemon_state_new_split [OF 3 [unfolded z]] by blast
          obtain r5 w4 where 5: "bind_listener_with_lock (ma_net api) (socket_path paths) lf w3 = (r5, w4)" by fastforce
          show thesis
          proof (cases r5)
            case (Inl e)
            then show thesis using refused [of "Ctx ''bind_listener_with_lock'' e"] assms 1 2 3 4 5 r1 r2 r4 x y z ds
              by (simp add: daemon_start_def)
          next
            case (Inr h)
            let ?st = "\<lparr>st_allow = al, st_daemon = ds, st_runtime = rt', st_receiver = t, st_listener = h\<rparr>"
            have "r = Some (Inr ?st)" "w' = w4"
              using assms 1 2 3 4 5 Inr r1 r2 r4 x y z ds by (simp_all add: daemon_start_def)
            then show thesis using running [of ?st paths lf w1 i s al rt w2 t stat pend w3] 1 2 3 4 5 Inr r1 r2 r4 x y z ds
              by (simp add: with_context_Inr_iff)
          qed
        qed
      qed
    qed
  qed
qed

end
