(* ===== verification/Daemon_Lock.thy ===== *)
theory Daemon_Lock
  imports Startup_Laws
begin

text \<open>
  Several daemon processes of one user over the same lock and the same socket: the calls that
  \<open>main\<close> of \<open>src/src/bin/dirhive.rs\<close> makes in order (\<open>acquire_daemon_lock\<close>, the recovery of a stale
  socket, \<open>bind_listener_with_lock\<close>, the drop of the handle), interleaved in any way, with processes
  that die at any point.  The kernel gives a lock to one process and takes it back when that ends.
\<close>

datatype daemon_phase =
    Off
  | Locked path
  | Cleared path
  | Serving listener_handle

record host_processes =
  hp_world :: world
  hp_owner :: "path \<rightharpoonup> nat"
  hp_phase :: "nat \<Rightarrow> daemon_phase"

definition try_lock_of :: "(path \<rightharpoonup> nat) \<Rightarrow> path \<Rightarrow> str + unit" where
  "try_lock_of owner q = (if owner q = None then Inr () else Inl ''would block'')"

definition ended :: "nat \<Rightarrow> host_processes \<Rightarrow> host_processes" where
  "ended p s = s\<lparr>hp_owner := (\<lambda>q. if hp_owner s q = Some p then None else hp_owner s q), hp_phase := (hp_phase s)(p := Off)\<rparr>"

inductive claim_step :: "rpc_codec \<Rightarrow> net_api \<Rightarrow> path \<Rightarrow> path \<Rightarrow> host_processes \<Rightarrow> host_processes \<Rightarrow> bool"
  for ca na lockp sock where
  acquired: "hp_phase s p = Off \<Longrightarrow> acquire_daemon_lock (try_lock_of (hp_owner s)) lockp (hp_world s) = (Inr q, w') \<Longrightarrow>
    claim_step ca na lockp sock s (s\<lparr>hp_world := w', hp_owner := (hp_owner s)(q \<mapsto> p), hp_phase := (hp_phase s)(p := Locked q)\<rparr>)"
| not_acquired: "hp_phase s p = Off \<Longrightarrow> acquire_daemon_lock (try_lock_of (hp_owner s)) lockp (hp_world s) = (Inl e, w') \<Longrightarrow>
    claim_step ca na lockp sock s (s\<lparr>hp_world := w'\<rparr>)"
| recovered: "hp_phase s p = Locked q \<Longrightarrow> recover_stale_socket ca na sock (hp_world s) = (Inr (), w') \<Longrightarrow>
    claim_step ca na lockp sock s (s\<lparr>hp_world := w', hp_phase := (hp_phase s)(p := Cleared q)\<rparr>)"
| not_recovered: "hp_phase s p = Locked q \<Longrightarrow> recover_stale_socket ca na sock (hp_world s) = (Inl e, w') \<Longrightarrow>
    claim_step ca na lockp sock s (ended p (s\<lparr>hp_world := w'\<rparr>))"
| bound: "hp_phase s p = Cleared q \<Longrightarrow> bind_listener_with_lock na sock q (hp_world s) = (Inr h, w') \<Longrightarrow>
    claim_step ca na lockp sock s (s\<lparr>hp_world := w', hp_phase := (hp_phase s)(p := Serving h)\<rparr>)"
| not_bound: "hp_phase s p = Cleared q \<Longrightarrow> bind_listener_with_lock na sock q (hp_world s) = (Inl e, w') \<Longrightarrow>
    claim_step ca na lockp sock s (ended p (s\<lparr>hp_world := w'\<rparr>))"
| stopped: "hp_phase s p = Serving h \<Longrightarrow>
    claim_step ca na lockp sock s (ended p (s\<lparr>hp_world := listener_drop h (hp_world s)\<rparr>))"
| killed: "claim_step ca na lockp sock s (ended p s)"
| environment: "fs w' = fs (hp_world s) \<Longrightarrow> claim_step ca na lockp sock s (s\<lparr>hp_world := w'\<rparr>)"

definition nobody_runs :: "world \<Rightarrow> host_processes" where
  "nobody_runs w = \<lparr>hp_world = w, hp_owner = Map.empty, hp_phase = (\<lambda>_. Off)\<rparr>"

section \<open>Whoever is past the lock owns it\<close>

fun owns :: "path \<Rightarrow> path \<Rightarrow> fs \<Rightarrow> (path \<rightharpoonup> nat) \<Rightarrow> nat \<Rightarrow> daemon_phase \<Rightarrow> bool" where
  "owns lockp sock f ow p Off \<longleftrightarrow> ow lockp \<noteq> Some p"
| "owns lockp sock f ow p (Locked q) \<longleftrightarrow> q = lockp \<and> ow lockp = Some p"
| "owns lockp sock f ow p (Cleared q) \<longleftrightarrow> q = lockp \<and> ow lockp = Some p"
| "owns lockp sock f ow p (Serving h) \<longleftrightarrow>
     h = \<lparr>lh_socket_path = sock, lh_lock_file = lockp\<rparr> \<and> ow lockp = Some p \<and> (\<exists>m. node_at f sock = Some (Socket m))"

definition claim_inv :: "path \<Rightarrow> path \<Rightarrow> host_processes \<Rightarrow> bool" where
  "claim_inv lockp sock s \<longleftrightarrow>
     host_ok {lockp, sock} (hp_world s) \<and> (\<forall>p. owns lockp sock (fs (hp_world s)) (hp_owner s) p (hp_phase s p))"

lemma owns_unique:
  "claim_inv lockp sock s \<Longrightarrow> hp_phase s p \<noteq> Off \<Longrightarrow> hp_owner s lockp = Some p"
  unfolding claim_inv_def by (cases "hp_phase s p") (metis owns.simps)+

text \<open>A step of the lock holder, which may touch the socket, leaves the others off.\<close>

lemma others_off:
  assumes "claim_inv lockp sock s" "hp_owner s lockp = Some p" "p' \<noteq> p"
  shows "hp_phase s p' = Off"
  using owns_unique [OF assms(1), of p'] assms(2,3) by (cases "hp_phase s p'") auto

lemma owns_touch_lock:
  assumes "owns lockp sock f ow p ph" "touches {lockp} f f'" "sock \<noteq> lockp"
  shows "owns lockp sock f' ow p ph"
proof (cases ph)
  case (Serving h)
  then show ?thesis using assms touches_keeps [OF assms(2), of sock] by auto
qed (use assms in simp_all)

lemma claim_inv_ended:
  assumes "claim_inv lockp sock s" "hp_phase s p \<noteq> Off \<or> w' = hp_world s" "host_ok {lockp, sock} w'"
  shows "claim_inv lockp sock (ended p (s\<lparr>hp_world := w'\<rparr>))"
proof -
  have "owns lockp sock (fs w') (\<lambda>q. if hp_owner s q = Some p then None else hp_owner s q) p' (((hp_phase s)(p := Off)) p')" for p'
  proof (cases "p' = p \<or> hp_phase s p' = Off")
    case True
    then show ?thesis using assms(1) by (auto simp: claim_inv_def) (metis owns.simps(1))
  next
    case False
    then have o: "hp_owner s lockp = Some p'" "p' \<noteq> p" using owns_unique [OF assms(1)] by auto
    then have "hp_phase s p = Off" using others_off [OF assms(1) o(1)] by simp
    then have "w' = hp_world s" using assms(2) by simp
    then have "owns lockp sock (fs w') (hp_owner s) p' (hp_phase s p')" using assms(1) by (simp add: claim_inv_def)
    then show ?thesis using o by (cases "hp_phase s p'") auto
  qed
  then show ?thesis using assms(3) by (simp add: claim_inv_def ended_def del: fun_upd_apply cong: if_cong)
qed

lemma claim_inv_holder:
  assumes "claim_inv lockp sock s" "hp_owner s lockp = Some p" "host_ok {lockp, sock} w'"
    and "owns lockp sock (fs w') (hp_owner s) p ph"
  shows "claim_inv lockp sock (s\<lparr>hp_world := w', hp_phase := (hp_phase s)(p := ph)\<rparr>)"
proof -
  have "owns lockp sock (fs w') (hp_owner s) p' (((hp_phase s)(p := ph)) p')" for p'
    using others_off [OF assms(1,2), of p'] assms(2,4) by (cases "p' = p") auto
  then show ?thesis using assms(3) by (simp add: claim_inv_def)
qed

lemma claim_step_inv:
  assumes "net_ok na" "sock \<noteq> lockp"
  shows "claim_step ca na lockp sock s s' \<Longrightarrow> claim_inv lockp sock s \<Longrightarrow> claim_inv lockp sock s'"
proof (induction rule: claim_step.induct)
  case (acquired s p q w')
  have h: "host_ok {lockp, sock} (hp_world s)" using acquired.prems by (simp add: claim_inv_def)
  note a = acquire_host_op [OF h, of lockp "try_lock_of (hp_owner s)"]
  have q: "q = lockp" "hp_owner s lockp = None"
    using a(2) acquired.hyps(2) by (auto simp: try_lock_of_def split: if_splits)
  have hp: "host_op {lockp, sock} {lockp} (hp_world s) w'" using a(1) acquired.hyps(2) by simp
  have off: "hp_phase s p' = Off" for p' using owns_unique [OF acquired.prems, of p'] q(2) by auto
  then show ?case using q host_op_ok [OF hp] by (simp add: claim_inv_def)
next
  case (not_acquired s p e w')
  have h: "host_ok {lockp, sock} (hp_world s)" using not_acquired.prems by (simp add: claim_inv_def)
  have hp: "host_op {lockp, sock} {lockp} (hp_world s) w'"
    using acquire_host_op(1) [OF h, of lockp "try_lock_of (hp_owner s)"] not_acquired.hyps(2) by simp
  then have t: "touches {lockp} (fs (hp_world s)) (fs w')" by (simp add: host_op_def)
  show ?case using not_acquired.prems owns_touch_lock [OF _ t assms(2)] host_op_ok [OF hp] by (simp add: claim_inv_def)
next
  case (recovered s p q w')
  have h: "host_ok {lockp, sock} (hp_world s)" "owns lockp sock (fs (hp_world s)) (hp_owner s) p (Locked q)"
    using recovered.prems recovered.hyps(1) unfolding claim_inv_def by (simp, metis)
  show ?case
    by (rule claim_inv_holder [OF recovered.prems])
      (use h recovered.hyps(2) host_op_ok [OF recover_host_op [OF h(1), of sock ca na]] in auto)
next
  case (not_recovered s p q e w')
  have h: "host_ok {lockp, sock} (hp_world s)" using not_recovered.prems by (simp add: claim_inv_def)
  show ?case
    by (rule claim_inv_ended [OF not_recovered.prems])
      (use h not_recovered.hyps host_op_ok [OF recover_host_op [OF h, of sock ca na]] in auto)
next
  case (bound s p q h w')
  have o: "host_ok {lockp, sock} (hp_world s)" "owns lockp sock (fs (hp_world s)) (hp_owner s) p (Cleared q)"
    using bound.prems bound.hyps(1) unfolding claim_inv_def by (simp, metis)
  note b = bind_host_op [OF o(1) _ assms(1), of sock q]
  show ?case
    by (rule claim_inv_holder [OF bound.prems])
      (use o b(2) [OF _ bound.hyps(2)] bound.hyps(2) host_op_ok [OF b(1)] in auto)
next
  case (not_bound s p q e w')
  have o: "host_ok {lockp, sock} (hp_world s)" using not_bound.prems by (simp add: claim_inv_def)
  show ?case
    by (rule claim_inv_ended [OF not_bound.prems])
      (use not_bound.hyps host_op_ok [OF bind_host_op(1) [OF o _ assms(1), of sock q]] in auto)
next
  case (stopped s p h)
  have o: "host_ok {lockp, sock} (hp_world s)" "owns lockp sock (fs (hp_world s)) (hp_owner s) p (Serving h)"
    using stopped.prems stopped.hyps unfolding claim_inv_def by (simp, metis)
  show ?case
    by (rule claim_inv_ended [OF stopped.prems])
      (use o stopped.hyps host_op_ok [OF remove_host_op [OF o(1), of sock "{sock}"]] in \<open>auto simp: listener_drop_def\<close>)
next
  case (killed s p)
  have "claim_inv lockp sock (ended p (s\<lparr>hp_world := hp_world s\<rparr>))"
    by (rule claim_inv_ended [OF killed.prems]) (use killed.prems in \<open>simp_all add: claim_inv_def\<close>)
  then show ?case by simp
next
  case (environment w' s)
  then show ?case by (simp add: claim_inv_def host_ok_def)
qed

lemma claim_steps_inv:
  assumes "(claim_step ca na lockp sock)\<^sup>*\<^sup>* s s'" "net_ok na" "sock \<noteq> lockp" "claim_inv lockp sock s"
  shows "claim_inv lockp sock s'"
  using assms(1,4) by (induction rule: rtranclp_induct) (auto intro: claim_step_inv [OF assms(2,3)])

lemma nobody_runs_inv: "host_ok {lockp, sock} w \<Longrightarrow> claim_inv lockp sock (nobody_runs w)"
  by (simp add: claim_inv_def nobody_runs_def)

end
