(* ===== verification/Process_Samples.thy ===== *)
theory Process_Samples
  imports Samples Daemon_Lock
begin

text \<open>
  Concrete foreign functions for the process and its socket: a text format for requests and
  responses, a network that leads to a daemon, and the parameters of \<open>main\<close>.
\<close>

section \<open>A text format for JSON\<close>

fun put_json :: "json \<Rightarrow> str" where
  "put_json JNull = [CHR 0x00]"
| "put_json (JBool b) = CHR 0x01 # put_bool b"
| "put_json (JInt i) = CHR 0x02 # put_int i"
| "put_json (JStr s) = CHR 0x03 # put_str s"
| "put_json (JArr xs) = CHR 0x04 # put_nat (length xs) @ concat (map put_json xs)"
| "put_json (JObj kvs) = CHR 0x05 # put_nat (length kvs) @ concat (map (\<lambda>(k, v). put_str k @ put_json v) kvs)"

text \<open>The first argument bounds the depth.\<close>

fun get_json :: "nat \<Rightarrow> str \<Rightarrow> (json \<times> str) option" where
  "get_json 0 x = None"
| "get_json (Suc n) [] = None"
| "get_json (Suc n) (c # r) =
     (if c = CHR 0x00 then Some (JNull, r)
      else if c = CHR 0x01 then map_option (apfst JBool) (get_bool r)
      else if c = CHR 0x02 then map_option (apfst JInt) (get_int r)
      else if c = CHR 0x03 then map_option (apfst JStr) (get_str r)
      else if c = CHR 0x04 then map_option (apfst JArr) (get_list (get_json n) r)
      else map_option (apfst JObj)
             (get_list (\<lambda>x. get_then (get_str x) (\<lambda>k y. map_option (apfst (Pair k)) (get_json n y))) r))"

lemma get_list_elements:
  assumes "\<And>x r. x \<in> set xs \<Longrightarrow> g (p x @ r) = Some (x, r)"
  shows "get_list g (put_nat (length xs) @ concat (map p xs) @ r) = Some (xs, r)"
proof -
  have "get_many g (length xs) (concat (map p xs) @ r) = Some (xs, r)"
    using assms by (induction xs) auto
  then show ?thesis by (simp add: get_list_def)
qed

lemma length_concat_elem: "x \<in> set xs \<Longrightarrow> length (p x) \<le> length (concat (map p xs))"
  by (induction xs) auto

lemma get_put_json: "length (put_json j) \<le> n \<Longrightarrow> get_json n (put_json j @ r) = Some (j, r)"
proof (induction n arbitrary: j r)
  case 0
  then show ?case by (cases j) auto
next
  case (Suc n)
  show ?case
  proof (cases j)
    case (JArr xs)
    have "get_json n (put_json x @ r) = Some (x, r)" if "x \<in> set xs" for x r
      using Suc.IH [of x r] length_concat_elem [OF that, of put_json] Suc.prems JArr by simp
    then show ?thesis using JArr get_list_elements [of xs "get_json n" put_json r] by simp
  next
    case (JObj kvs)
    let ?p = "\<lambda>(k, v). put_str k @ put_json v"
    let ?g = "\<lambda>x. get_then (get_str x) (\<lambda>k y. map_option (apfst (Pair k)) (get_json n y))"
    have "?g (?p x @ r) = Some (x, r)" if "x \<in> set kvs" for x r
    proof (cases x)
      case (Pair k v)
      then have "length (put_json v) \<le> length (concat (map ?p kvs))" using length_concat_elem [OF that, of ?p] by simp
      then have "get_json n (put_json v @ r) = Some (v, r)" using Suc.IH [of v r] Suc.prems JObj by simp
      then show ?thesis using Pair by simp
    qed
    then show ?thesis using JObj get_list_elements [of kvs ?g ?p r] by simp
  qed simp_all
qed

section \<open>Requests and responses\<close>

definition text_line :: "str \<Rightarrow> bytes" where
  "text_line x = CHR ''J'' # letters_encode x"

definition from_line :: "(str \<Rightarrow> ('a \<times> str) option) \<Rightarrow> str \<Rightarrow> str + 'a" where
  "from_line g l = (case letters_decode (tl l) of None \<Rightarrow> Inl ''expected value'' | Some x \<Rightarrow> parse_all g x)"

lemma from_text_line: "(\<And>r. g (x @ r) = Some (v, r)) \<Longrightarrow> from_line g (text_line x) = Inr v"
  by (simp add: from_line_def text_line_def letters_decode_encode)

lemma text_line_plain: "text_line x \<noteq> []" "CHR 0x0A \<notin> set (text_line x)"
  using letters_base32 [of x] by (auto simp: text_line_def base32_char_def)

definition put_request :: "rpc_request \<Rightarrow> str" where
  "put_request r = put_str (rq_method r) @ put_nat (length (put_json (rq_params r))) @ put_json (rq_params r)"

definition get_request :: "str \<Rightarrow> (rpc_request \<times> str) option" where
  "get_request x = get_then (get_str x) (\<lambda>m y. get_then (get_nat y) (\<lambda>n z.
     map_option (apfst (\<lambda>j. \<lparr>rq_method = m, rq_params = j\<rparr>)) (get_json n z)))"

definition put_response :: "rpc_response \<Rightarrow> str" where
  "put_response r =
     put_opt (\<lambda>j. put_nat (length (put_json j)) @ put_json j) (rr_result r) @ put_opt put_str (rr_error r)"

definition get_response :: "str \<Rightarrow> (rpc_response \<times> str) option" where
  "get_response x = get_then (get_opt (\<lambda>y. get_then (get_nat y) get_json) x) (\<lambda>j y. get_then (get_opt get_str y) (\<lambda>e z.
     Some (\<lparr>rr_result = j, rr_error = e\<rparr>, z)))"

definition line_rpc :: rpc_codec where
  "line_rpc =
     \<lparr>rq_ser = (\<lambda>r. Inr (text_line (put_request r))), rq_de = from_line get_request,
      rs_ser = (\<lambda>r. Inr (text_line (put_response r))), rs_de = from_line get_response, json_value = (\<lambda>j. j)\<rparr>"

lemma line_rpc_ok: "rpc_codec_ok line_rpc"
proof -
  have "from_line get_request (text_line (put_request r)) = Inr r" for r
    by (rule from_text_line) (simp add: put_request_def get_request_def get_put_json)
  moreover have "get_response (put_response r @ x) = Some (r, x)" for r x
    by (simp add: put_response_def get_response_def get_put_json)
  then have "from_line get_response (text_line (put_response r)) = Inr r" for r
    by (rule from_text_line)
  ultimately show ?thesis
    using text_line_plain by (simp add: rpc_codec_ok_def line_rpc_def option.map_ident)
qed

section \<open>A network\<close>

definition bind_socket :: "mode \<Rightarrow> path \<Rightarrow> fs \<Rightarrow> (io_kind + unit) \<times> fs" where
  "bind_socket m p f =
     (if p \<noteq> [] \<and> node_at f p = None \<and> dir_at f (butlast p) then (Inr (), AList.update p (Socket m) f)
      else (Inl AlreadyExists, f))"

definition dead_net :: net_api where
  "dead_net =
     \<lparr>un_bind = bind_socket, un_connect = (\<lambda>_ _. Some (Inl ''connection refused'')), un_exchange = (\<lambda>_ _ _. Expired)\<rparr>"

definition served_net :: "(rpc_request \<Rightarrow> 'd \<Rightarrow> rpc_response option \<times> 'd) \<Rightarrow> 'd \<Rightarrow> net_api" where
  "served_net dispatch d =
     \<lparr>un_bind = bind_socket, un_connect = (\<lambda>_ _. Some (Inr ())),
      un_exchange = (\<lambda>_ _ l. Answered (case fst (snd (handle_one line_rpc dispatch
        \<lparr>c_read = ReadLine l, c_write = Inr (), c_flush = Inr ()\<rparr> d)) of Some out \<Rightarrow> out | None \<Rightarrow> []))\<rparr>"

lemma dead_net_ok: "net_ok dead_net"
  by (auto simp: net_ok_def dead_net_def bind_socket_def split: if_splits)

lemma served_net_serves: "served_by line_rpc dispatch d (served_net dispatch d) sock"
  by (simp add: served_by_def served_net_def)

section \<open>Starting a daemon\<close>

definition stack_runtime :: "(stack, unit) runtime_api" where
  "stack_runtime =
     \<lparr>rt_blake3 = (\<lambda>b. b), rt_load = (\<lambda>_. Inr ()), rt_accept = (\<lambda>i b. (Inr (), b)), rt_lookup = Inr (),
      rt_subscribe = (\<lambda>_ _. Inr ()), rt_shutdown = Inr ()\<rparr>"

definition stack_main :: "bool \<Rightarrow> (stack, unit) main_api" where
  "stack_main locked =
     \<lparr>ma_peer = stack_peer, ma_allow_codec = file_allow, ma_boot_codec = file_boot, ma_rpc_codec = line_rpc,
      ma_net = dead_net, ma_try_lock = (\<lambda>_. if locked then Inl ''would block'' else Inr ()), ma_tracing = Inr (),
      ma_sigint = Inr (), ma_sigterm = Inr (), ma_endpoint = (\<lambda>_. Inr me), ma_runtime = stack_runtime\<rparr>"

definition main_env :: env where
  "main_env = [STATE_DIR_ENV \<mapsto> ''/s'', CONFIG_DIR_ENV \<mapsto> ''/s'', LOG_DIR_ENV \<mapsto> ''/s'']"

definition main_args :: cli where
  "main_args = \<lparr>cli_watch = [''w''], cli_allow_open_all = False\<rparr>"

lemma main_paths:
  "default_lock_path main_env = Inr [''s'', ''daemon.lock'']" "default_log_path main_env = Inr [''s'', ''dirhive.log'']"
  "default_socket_path main_env = Inr [''s'', ''daemon.sock'']"
  by code_simp+

lemma host_ok_main: "host_ok {[''s'', ''daemon.lock''], [''s'', ''dirhive.log'']} host"
  "host_ok {[''s'', ''daemon.lock''], [''s'', ''daemon.sock'']} host"
proof -
  have "\<not> suffix ''.tmp'' ''s''" "\<not> suffix ''.tmp'' ''daemon.lock''" "\<not> suffix ''.tmp'' ''daemon.sock''"
    "\<not> suffix ''.tmp'' ''dirhive.log''" by code_simp+
  then show "host_ok {[''s'', ''daemon.lock''], [''s'', ''dirhive.log'']} host"
    "host_ok {[''s'', ''daemon.lock''], [''s'', ''daemon.sock'']} host"
    using host_wf host_store_path host_missing by (auto simp: host_ok_def store_layout_def normal_def prefix_Cons)
qed

end
