(* ===== verification/Props_Daemon.thy ===== *)
theory Props_Daemon
  imports Process_Samples
begin

text \<open>
  The properties of the daemon process: its requests, its runtime status, the gate before the first
  join, and what its log reveals.
\<close>

section \<open>Requests\<close>

text \<open>
  C32: The answer to \<open>sync.recent-log\<close> reveals no secret: at most a hundred lines, none of which
  contains a ticket or a run of 32 or more hexadecimal digits, whatever the log contains.
\<close>

theorem recent_log_reveals_no_secret:
  assumes "rpc_dispatch rp env rnd \<lparr>rq_method = ''sync.recent-log'', rq_params = params\<rparr> n = (Some (rpc_ok j), n')"
  shows "\<exists>ls. j = JObj [(''lines'', JArr (map JStr ls))] \<and> length ls \<le> 100
    \<and> (\<forall>l\<in>set ls. \<not> sublist INVITE_PREFIX l
          \<and> (\<forall>r. \<not> sublist r l \<or> (\<exists>c\<in>set r. \<not> is_ascii_hexdigit c) \<or> length r < MIN_REDACT_HEX_LEN))"
proof -
  have "rpc_recent_log rp params n = (Inr j, n')"
    using assms by (auto simp: rpc_dispatch_ok_iff rpc_handler_def Let_def apfst_def map_prod_def split: prod.splits)
  then show ?thesis
    using rpc_recent_log_lines by (fastforce simp: ticket_free_def hex_runs_below_def INVITE_PREFIX_def MIN_REDACT_HEX_LEN_def)
qed

theorem recent_log_reveals_no_secret_witness:
  "\<exists>n'. rpc_dispatch stack_rpc Map.empty [] \<lparr>rq_method = ''sync.recent-log'', rq_params = JNull\<rparr> host_daemon
      = (Some (rpc_ok (JObj [(''lines'', JArr [JStr ''token <redacted>''])])), n')
    \<and> \<not> sublist INVITE_PREFIX ''token <redacted>''"
proof -
  let ?r = "rpc_dispatch stack_rpc Map.empty [] \<lparr>rq_method = ''sync.recent-log'', rq_params = JNull\<rparr> host_daemon"
  have "fst ?r = Some (rpc_ok (JObj [(''lines'', JArr [JStr ''token <redacted>''])]))" by code_simp
  then obtain n' where r: "?r = (Some (rpc_ok (JObj [(''lines'', JArr [JStr ''token <redacted>''])])), n')"
    by (metis prod.collapse)
  show ?thesis using r recent_log_reveals_no_secret [OF r] by (auto simp: map_eq_Cons_conv)
qed

text \<open>
  C33: The one-pass redaction of hexadecimal tokens agrees with its reference: cut the line into its
  maximal runs of hexadecimal digits and its other characters, and replace exactly the runs of at
  least 32 digits.
\<close>

theorem hex_redaction_reference:
  "redact_hex_token s MIN_REDACT_HEX_LEN = concat (map (redact_piece MIN_REDACT_HEX_LEN) (hex_pieces s))
   \<and> concat (hex_pieces s) = s
   \<and> list_all (\<lambda>p. p \<noteq> [] \<and> (list_all is_ascii_hexdigit p \<or> length p = 1)) (hex_pieces s)
   \<and> successively (\<lambda>p q. \<not> (list_all is_ascii_hexdigit p \<and> list_all is_ascii_hexdigit q)) (hex_pieces s)"
  by (intro conjI redact_hex_reference concat_hex_pieces hex_pieces_uniform hex_pieces_separate)
    (simp add: MIN_REDACT_HEX_LEN_def)

text \<open>
  No request, whatever its method, its parameters and the foreign code do, touches the blob
  store or the registries of the synchronisation, or brings back the open mode of the allowlist; and
  only invite, accept-invite, allow-peer and revoke change files, the allowlist or the daemon's state.
\<close>

theorem requests_change_little:
  "let n' = snd (rpc_dispatch rp env rnd req n) in
     blobs n' = blobs n \<and> sync n' = sync n \<and> (is_open_all (allow n) \<or> \<not> is_open_all (allow n'))
     \<and> (rq_method req \<in> {''sync.invite'', ''sync.accept-invite'', ''sync.allow-peer'', ''sync.revoke''}
        \<or> (fs n' = fs n \<and> allow n' = allow n \<and> daemon_of n' = daemon_of n))"
  using rpc_dispatch_frame [of n rp env rnd req] rpc_dispatch_read_only [of req n rp env rnd]
    read_only_node [of n "snd (rpc_dispatch rp env rnd req n)"]
  by (auto simp: Let_def rpc_frame_def is_open_all_def changing_methods_def)

theorem requests_change_little_witness:
  "blobs (snd (rpc_dispatch stack_rpc Map.empty [] \<lparr>rq_method = ''sync.invite'', rq_params = JNull\<rparr> host_daemon)) = host_stack
   \<and> \<not> is_open_all (allow (snd (rpc_dispatch stack_rpc Map.empty [] \<lparr>rq_method = ''sync.invite'', rq_params = JNull\<rparr> host_daemon)))"
proof -
  have "\<not> is_open_all (allow host_daemon)" by (simp add: is_open_all_def alice_only_def)
  then show ?thesis
    using requests_change_little [of stack_rpc Map.empty "[]" "\<lparr>rq_method = ''sync.invite'', rq_params = JNull\<rparr>" host_daemon]
    unfolding Let_def by (simp only: host_daemon_fields) blast
qed

text \<open>
  A method that is none of the nine gets an error that names it, and changes nothing.
\<close>

definition rpc_methods :: "str set" where
  "rpc_methods =
     {''sync.health-check'', ''sync.status'', ''sync.invite'', ''sync.accept-invite'', ''sync.allow-peer'',
      ''sync.list-peers'', ''sync.revoke'', ''sync.list-pending'', ''sync.recent-log''}"

theorem unknown_method_is_refused:
  assumes "rq_method req \<notin> rpc_methods"
  shows "rpc_dispatch rp env rnd req n = (Some (rpc_err (''unknown method: '' @ rq_method req)), n)"
  using assms by (simp add: rpc_dispatch_def rpc_handler_def rpc_methods_def Let_def)

theorem unknown_method_is_refused_witness:
  "rpc_dispatch stack_rpc Map.empty [] \<lparr>rq_method = ''sync.nope'', rq_params = JNull\<rparr> host_daemon
     = (Some (rpc_err ''unknown method: sync.nope''), host_daemon)"
  using unknown_method_is_refused [of "\<lparr>rq_method = ''sync.nope'', rq_params = JNull\<rparr>"] by (simp add: rpc_methods_def)

section \<open>Invitations\<close>

text \<open>
  C24: The ticket of an invite decodes to the daemon's address and to the secret in the secret file;
  the daemon has to be restarted when it made a new secret; and a second invite gives the same answer.
\<close>

theorem invite_is_faithful_and_stable:
  assumes "rpc_invite rp rnd n = (Inr j, n')" "wf_fs (fs n)" "store_layout (fs n) ps"
    and "folder_secret_path (paths_of n) \<in> ps" "rpc_api_ok rp" "length rnd = FOLDER_SECRET_BYTES" "faults n' = []"
  shows "\<exists>s m ticket. json_get ''ticket'' j = Some (JStr ticket)
      \<and> decode (pa_codec (rp_peer rp)) ticket = Inr (ticket_new (rp_addr rp (blobs n')) s)
      \<and> node_at (fs n') (folder_secret_path (paths_of n)) = Some (File s m)
      \<and> json_get ''restart_required'' j = Some (JBool (restart_required (status_of n')))
      \<and> (node_at (fs n) (folder_secret_path (paths_of n)) \<noteq> None \<or> restart_required (status_of n'))
      \<and> rpc_invite rp rnd' n' = (Inr j, n')"
proof -
  have rnd: "length rnd = 16" using assms(6) by (simp add: FOLDER_SECRET_BYTES_def)
  have ok: "peer_api_ok (rp_peer rp)" "codec_ok (pa_codec (rp_peer rp))" using assms(5) by (simp_all add: rpc_api_okD peer_api_okD)
  note sp = rpc_invite_spec [OF assms(1-4) ok(1) rnd]
  obtain s ticket m where s: "j = JObj [(''ticket'', JStr ticket), (''restart_required'', JBool (restart_required (status_of n')))]"
    "encode (pa_codec (rp_peer rp)) (ticket_new (rp_addr rp (blobs n')) s) = Inr ticket" "length s = 16"
    "node_at (fs n') (folder_secret_path (paths_of n)) = Some (File s m)" using sp(1) by blast
  have "decode (pa_codec (rp_peer rp)) ticket = Inr (ticket_new (rp_addr rp (blobs n')) s)"
    using decode_encode [OF ok(2), of "ticket_new (rp_addr rp (blobs n')) s"] s(2,3) by (auto simp: ticket_new_def)
  then show ?thesis using s sp(2) rpc_invite_again [OF assms(1-4) ok(1) rnd assms(7), of rnd'] by auto
qed

theorem invite_is_faithful_and_stable_witness:
  "\<exists>j n'. rpc_invite stack_rpc (replicate 16 (CHR ''k'')) host_daemon = (Inr j, n')
    \<and> restart_required (status_of n') \<and> rpc_invite stack_rpc (replicate 16 (CHR ''z'')) n' = (Inr j, n')"
proof -
  let ?r = "rpc_invite stack_rpc (replicate 16 (CHR ''k'')) host_daemon"
  have "\<not> isl (fst ?r)" "faults (snd ?r) = []" by code_simp+
  then obtain j n' where r: "?r = (Inr j, n')" "faults n' = []" by (metis prod.collapse sum.collapse(2))
  show ?thesis
    using r invite_is_faithful_and_stable [OF r(1) host_daemon_wf host_daemon_layout _ stack_rpc_ok _ r(2),
        of "replicate 16 (CHR ''z'')"] host_daemon_empty by (fastforce simp: FOLDER_SECRET_BYTES_def)
qed

text \<open>
  C25: A daemon that belongs to a group refuses the ticket of another group: the request fails and
  files, allowlist and state stay as they are, whatever I/O errors occur.
\<close>

theorem other_group_is_refused:
  assumes "decode (pa_codec (rp_peer rp)) ticket = Inr invite" "rp_accept_params rp params = Inr (ticket, label)"
    and "wf_fs (fs n)" "store_path (fs n) (folder_secret_path (paths_of n))"
    and "node_at (fs n) (folder_secret_path (paths_of n)) = Some (File s m)" "s \<noteq> it_folder_secret invite"
  shows "isl (fst (rpc_accept_invite rp params n)) \<and> fs (snd (rpc_accept_invite rp params n)) = fs n
    \<and> allow (snd (rpc_accept_invite rp params n)) = allow n
    \<and> daemon_of (snd (rpc_accept_invite rp params n)) = daemon_of n"
  using accept_invite_other_secret [OF assms(1-3) store_path_normal [OF assms(4)] assms(5,6)]
    read_only_node [of n "snd (rpc_accept_invite rp params n)"] by blast

definition group_daemon :: "(stack, unit) daemon" where
  "group_daemon = host_daemon\<lparr>fs := ([''s'', ''folder-secret.bin''], File (replicate 16 (CHR ''q'')) 384) # host_fs\<rparr>"

theorem other_group_is_refused_witness:
  "isl (fst (rpc_accept_invite stack_rpc ticket_params group_daemon))
   \<and> allow (snd (rpc_accept_invite stack_rpc ticket_params group_daemon)) = alice_only"
proof -
  have g: "fs group_daemon = ([''s'', ''folder-secret.bin''], File (replicate 16 (CHR ''q'')) 384) # host_fs"
    "paths_of group_daemon = host_paths" "allow group_daemon = alice_only"
    by (simp_all add: group_daemon_def)
  have w: "wf_fs (fs group_daemon)"
    unfolding g by (auto simp: wf_fs_def host_fs_def node_at_def dir_at_def split: if_splits)
  have "q = [] \<or> q = [''s'']" if "prefix q [''s'']" for q using that by (auto simp: prefix_Cons)
  then have "dir_path (fs group_daemon) [''s'']"
    by (auto simp: g dir_path_def normal_def node_at_def host_fs_def dir_at_def)
  then have "store_path (fs group_daemon) [''s'', ''folder-secret.bin'']"
    using file_names(3,4) by (simp add: store_path_def)
  moreover have "node_at (fs group_daemon) [''s'', ''folder-secret.bin''] = Some (File (replicate 16 (CHR ''q'')) 384)"
    by (simp add: g node_at_def)
  moreover have "replicate 16 (CHR ''q'') \<noteq> replicate 16 (CHR ''k'')" by code_simp
  ultimately show ?thesis
    using other_group_is_refused [of stack_rpc sample_ticket _ ticket_params None group_daemon] w sample_ticket_decodes ticket_params_read
    by (simp add: g ticket_new_def)
qed

text \<open>
  C21: A successful accept-invite leaves the three private files in agreement with the ticket: the
  group's secret, the inviter on the allowlist, in memory and on disk, and its address among the
  bootstrap peers; a daemon that had no secret asks for a restart.
\<close>

theorem accepted_invite_is_stored:
  assumes "rpc_accept_invite rp params n = (Inr j, n')"
    and "decode (pa_codec (rp_peer rp)) ticket = Inr invite" "rp_accept_params rp params = Inr (ticket, label)"
    and "wf_fs (fs n)" "store_layout (fs n) {folder_secret_path (paths_of n), allowlist_path (paths_of n), bootstrap_peers_path (paths_of n)}"
    and "distinct [folder_secret_path (paths_of n), allowlist_path (paths_of n), bootstrap_peers_path (paths_of n)]"
    and "rpc_api_ok rp" "al_wf (allow n)"
  shows "(\<exists>m. node_at (fs n') (folder_secret_path (paths_of n)) = Some (File (it_folder_secret invite) m))
    \<and> al_contains (allow n') (addr_id (it_endpoint invite)) \<and> \<not> is_open_all (allow n')
    \<and> allowlist_file.holds (pa_ids (rp_peer rp)) (rp_allow_codec rp) (fs n') (allowlist_path (paths_of n)) (al_abs (allow n'))
    \<and> (\<exists>ps. bootstrap.holds (rp_boot_codec rp) (fs n') (bootstrap_peers_path (paths_of n)) ps \<and> it_endpoint invite \<in> set ps)
    \<and> (node_at (fs n) (folder_secret_path (paths_of n)) \<noteq> None \<or> status_of n' = InitializedButNotSubscribed)"
proof -
  note s = accept_invite_spec [OF assms(1-6) refl refl refl assms(7,8)]
  have "new \<in> set (replace_or_push new ps)" for new ps by (induction ps) auto
  then show ?thesis using s by (auto simp: al_contains_def is_open_all_def al_add_def)
qed

theorem accepted_invite_is_stored_witness:
  "\<exists>j n'. rpc_accept_invite stack_rpc ticket_params host_daemon = (Inr j, n') \<and> al_contains (allow n') alice
    \<and> node_at (fs n') [''s'', ''folder-secret.bin''] \<noteq> None \<and> status_of n' = InitializedButNotSubscribed"
proof -
  let ?r = "rpc_accept_invite stack_rpc ticket_params host_daemon"
  have "\<not> isl (fst ?r)" by code_simp
  then obtain j n' where r: "?r = (Inr j, n')" by (metis prod.collapse sum.collapse(2))
  have d: "decode (pa_codec (rp_peer stack_rpc)) sample_ticket = Inr (ticket_new \<lparr>addr_id = alice, addr_info = ''relay''\<rparr> (replicate 16 (CHR ''k'')))"
    using sample_ticket_decodes by simp
  have "al_wf alice_only" by (simp add: al_wf_def alice_only_def keys_distinct_def)
  then show ?thesis
    using r accepted_invite_is_stored [OF r d ticket_params_read host_daemon_wf _ _ stack_rpc_ok] host_daemon_layout host_daemon_empty
    by (auto simp: ticket_new_def)
qed



section \<open>State\<close>

text \<open>
  The daemon has a gossip sender exactly when its status is \<open>Active\<close>, in every state it reaches
  through its transitions and after any request; and a restart is asked for exactly when the group is
  initialized but the topic is not subscribed.
\<close>

theorem sender_iff_active:
  assumes "daemon_reachable (daemon_of n)"
  shows "let ds = daemon_of (snd (rpc_dispatch rp env rnd req n)) in
    (gossip_sender_cloned ds \<noteq> None \<longleftrightarrow> gossip_subscribed (current_runtime_status ds))
    \<and> (restart_required (current_runtime_status ds) \<longleftrightarrow>
         group_initialized (current_runtime_status ds) \<and> gossip_sender_cloned ds = None)"
  using rpc_dispatch_invariant [OF daemon_reachable_invariant [OF assms], of rp env rnd req]
  by (cases "current_runtime_status (daemon_of (snd (rpc_dispatch rp env rnd req n)))")
    (simp_all add: Let_def gossip_runtime_invariant_def gossip_sender_cloned_def current_runtime_status_def)

theorem sender_iff_active_witness:
  "gossip_sender_cloned (daemon_of (snd (rpc_dispatch stack_rpc Map.empty (replicate 16 (CHR ''k''))
      \<lparr>rq_method = ''sync.invite'', rq_params = JNull\<rparr> host_daemon))) = None
   \<longleftrightarrow> \<not> gossip_subscribed (current_runtime_status (daemon_of (snd (rpc_dispatch stack_rpc Map.empty (replicate 16 (CHR ''k''))
      \<lparr>rq_method = ''sync.invite'', rq_params = JNull\<rparr> host_daemon))))"
proof -
  have "daemon_reachable host_state"
    by (rule daemon_reachable.start [of host_paths host_pending me None Uninitialized 0])
      (simp add: daemon_state_new_def host_state_def)
  then have "daemon_reachable (daemon_of host_daemon)" by simp
  then show ?thesis
    using sender_iff_active [of host_daemon stack_rpc Map.empty "replicate 16 (CHR ''k'')"
        "\<lparr>rq_method = ''sync.invite'', rq_params = JNull\<rparr>"] unfolding Let_def by blast
qed

text \<open>
  The last-seen time of a peer is the largest time any mark reported for it, in whatever order
  the data-plane events arrive, and marks of other peers do not matter.
\<close>

theorem last_seen_is_the_latest_mark:
  "seen_time (fold (\<lambda>(i, t) ds. mark_peer_seen i t ds) ms ds) j = Max (insert (seen_time ds j) (snd ` (set ms \<inter> {j} \<times> UNIV)))"
proof -
  have "fold (\<lambda>(i, t) m. if i = j then max t m else m) ms x = Max (insert x (snd ` (set ms \<inter> {j} \<times> UNIV)))" for x :: int
  proof (induction ms arbitrary: x)
    case (Cons it ms)
    obtain i t where it: "it = (i, t)" by (cases it)
    have fin: "finite (snd ` (set ms \<inter> {j} \<times> UNIV))" by simp
    show ?case
    proof (cases "i = j")
      case True
      have "set (it # ms) \<inter> {j} \<times> UNIV = insert (j, t) (set ms \<inter> {j} \<times> UNIV)" using it True by auto
      then have "Max (insert x (snd ` (set (it # ms) \<inter> {j} \<times> UNIV))) = Max (insert (max t x) (snd ` (set ms \<inter> {j} \<times> UNIV)))"
        using fin by (cases "snd ` (set ms \<inter> {j} \<times> UNIV) = {}") (simp_all add: Max_insert max.left_commute max.assoc max.commute)
      then show ?thesis using Cons.IH [of "max t x"] it True by simp
    next
      case False
      then have "set (it # ms) \<inter> {j} \<times> UNIV = set ms \<inter> {j} \<times> UNIV" using it by auto
      then show ?thesis using Cons.IH it False by simp
    qed
  qed simp
  then show ?thesis by (simp add: mark_peer_seen_fold)
qed

section \<open>Before the first join\<close>

text \<open>
  C18: No change seen before the first join is lost: in every interleaving of watcher tasks and
  neighbour callbacks, a path that a watcher handed to the queue is still there with a joiner that has
  yet to drain it, or no join has happened, or it was drained for sending.
\<close>

theorem queued_path_is_sent:
  assumes "gate_reachable s" "g_watcher s t = WQueued p"
  shows "p \<in> g_queue s \<and> (\<not> g_flag s \<or> (\<exists>t'. g_neighbor s t' = NFirst)) \<or> p \<in> drained_paths s"
  using no_path_lost [OF assms] .

theorem queued_path_is_sent_witness:
  "\<exists>s p. gate_reachable s \<and> g_watcher s 0 = WQueued p \<and> (p \<in> g_queue s \<or> p \<in> drained_paths s)"
proof -
  let ?s0 = "\<lparr>g_flag = False, g_queue = {}, g_lock = None, g_watcher = \<lambda>_. WIdle, g_neighbor = \<lambda>_. NIdle\<rparr>"
  have r0: "gate_reachable ?s0" by (rule gate_reachable.init)
  have "gate_of host_state ?s0" by (simp add: gate_of_def host_state_def)
  then obtain s where s: "gate_step\<^sup>*\<^sup>* ?s0 s"
    "g_watcher s 0 = (if fst (enqueue_initial_broadcast [''a''] host_state) then WQueued [''a''] else WDirect [''a''])"
    using enqueue_steps [of host_state ?s0 0 "[''a'']"] by auto
  have "gate_reachable s" using s(1) by (induction rule: rtranclp_induct) (auto intro: r0 gate_reachable.step)
  moreover have "g_watcher s 0 = WQueued [''a'']" using s(2) by (simp add: enqueue_initial_broadcast_def host_state_def)
  ultimately show ?thesis using queued_path_is_sent by blast
qed

end
