(* ===== verification/Props_Loop.thy ===== *)
theory Props_Loop
  imports Samples Event_Loop
begin

text \<open>
  The properties of the loop between the watcher and gossip: the daemon does not echo what it has
  received, and announces what changes locally.
\<close>

section \<open>No echo\<close>

text \<open>
  C6: No echo: when the watcher reports a file that the daemon has just written for a peer, at any
  later time before anything else has touched it, nothing is announced and nothing is queued; the
  event uses up the mark, so the next change of the file is announced again.
\<close>

theorem own_update_is_not_announced:
  assumes "dispatch_update pa payload root pt cb n = (Inr Applied, n')"
    and "from_bytes (pa_codec pa) payload = Inr u" "su_body u = Upsert path hash fmt fr" "utf8_valid path"
    and "watch_inv root pt (fs n)" "disjoint_dirs root (pending_dir pt)" "peer_api_ok pa"
    and "fs later = fs n'" "sync later = sync n'" "faults later = []" "ev_paths ev = (root @ path_comps path) # ps"
  shows "let final = watcher_loop root (on_event pa bc root self) [ev] later in
     blobs final = blobs later \<and> fs final = fs later \<and> daemon_of final = daemon_of later
     \<and> sync final = (sync later)\<lparr>last_written := (last_written (sync later))(path_comps path := None)\<rparr>"
proof -
  obtain b where b: "hash_new (pa_blob pa) b = hash" "last_written (sync n') (path_comps path) = Some hash"
      "node_at (fs n') (root @ path_comps path) = Some (File b 384)"
    using dispatch_upsert_applied [OF assms(1-3,5-7)] by blast
  have v: "validate_relative_path path = Inr ()"
    using assms(2,3) by (auto simp: from_bytes_iff su_path_def)
  have i: "watch_inv root pt (fs n')" by (rule dispatch_fs(1) [OF assms(1,5-7)])
  note rc = rel_path_comps [OF v]
  have "fst (self_written pa root (path_comps path) later)"
    by (rule self_written_file [of _ _ _ b _ 384]) (use b assms(8-10) watch_invD(1,2) [OF i] rc(3) in auto)
  then show ?thesis
    using on_event_own_write [of "path_comps path" pa root later] rel_to_str_comps [OF v assms(4)] assms(11) rc(2)
    by (simp add: Let_def)
qed

theorem own_update_is_not_announced_witness:
  "\<exists>n'. dispatch_update stack_peer (msg_upsert ''a.txt'' alice) [''w''] host_pending None live_daemon = (Inr Applied, n')
    \<and> blobs (watcher_loop [''w''] (on_event stack_peer stack_gossip [''w''] \<lparr>peer_id = me\<rparr>)
               [\<lparr>ev_kind = Modify, ev_paths = [[''w'', ''a.txt'']]\<rparr>] n') = blobs n'"
proof -
  let ?r = "dispatch_update stack_peer (msg_upsert ''a.txt'' alice) [''w''] host_pending None live_daemon"
  have "fst ?r = Inr Applied" "faults (snd ?r) = []" by code_simp+
  then obtain n' where r: "?r = (Inr Applied, n')" "faults n' = []" by (metis prod.collapse)
  have "path_comps ''a.txt'' = [''a.txt'']" "utf8_valid ''a.txt''" by code_simp+
  then show ?thesis
    using r own_update_is_not_announced [OF r(1), of "\<lparr>su_version = 2, su_body = Upsert ''a.txt'' (BlobHash ''new'') Raw \<lparr>peer_id = alice\<rparr>\<rparr>"
        "''a.txt''" "BlobHash ''new''" Raw "\<lparr>peer_id = alice\<rparr>" n' "\<lparr>ev_kind = Modify, ev_paths = [[''w'', ''a.txt'']]\<rparr>" "[]" stack_gossip "\<lparr>peer_id = me\<rparr>"]
      host_watch stack_peer_ok by (simp add: sample_parse sample_valid Let_def)
qed

text \<open>
  C8: Nor is a removal echoed: when the watcher reports a path that the daemon has removed for a
  peer's tombstone, and nothing has come back at it, no tombstone goes out and none is queued, under
  any kind of event and any I/O errors; the event uses up the mark.
\<close>

theorem own_removal_is_not_announced:
  assumes "dispatch_update pa payload root pt cb n = (Inr Applied, n')"
    and "from_bytes (pa_codec pa) payload = Inr u" "su_body u = Tombstone path fr" "utf8_valid path"
    and "watch_inv root pt (fs n)" "disjoint_dirs root (pending_dir pt)" "peer_api_ok pa"
    and "node_at (fs n) (root @ path_comps path) \<noteq> None"
    and "fs later = fs n'" "sync later = sync n'" "ev_paths ev = (root @ path_comps path) # ps"
  shows "let final = watcher_loop root (on_event pa bc root self) [ev] later in
     blobs final = blobs later \<and> fs final = fs later \<and> daemon_of final = daemon_of later
     \<and> last_removed (sync final) = last_removed (sync later) - {path_comps path}"
proof -
  obtain nd where nd: "node_at (fs n) (root @ path_comps path) = Some nd" using assms(8) by auto
  note t = dispatch_tombstone_applied [OF assms(1-3,5-7) nd]
  have v: "validate_relative_path path = Inr ()"
    using assms(2,3) by (auto simp: from_bytes_iff su_path_def)
  note rc = rel_path_comps [OF v]
  have wf: "wf_fs (fs later)" using watch_invD(1) [OF dispatch_fs(1) [OF assms(1,5-7)]] assms(9) by simp
  let ?n1 = "later\<lparr>sync := (sync later)\<lparr>last_written := (last_written (sync later))(path_comps path := None)\<rparr>\<rparr>"
  obtain n2 where n2: "fs_step ?n1 n2" "fs n2 = fs later"
    "on_event pa bc root self ev (path_comps path) later = n2\<lparr>sync := (sync n2)\<lparr>last_removed := last_removed (sync n2) - {path_comps path}\<rparr>\<rparr>"
    using on_event_gone [OF rel_to_str_comps [OF v assms(4)] wf, of root pa bc self ev] t assms(9,10) by auto
  then show ?thesis using assms(11) rc(2) fs_step_node [OF n2(1)] by (simp add: Let_def)
qed

theorem own_removal_is_not_announced_witness:
  "\<exists>n'. dispatch_update stack_peer (msg_tombstone ''a.txt'' alice) [''w''] host_pending None live_daemon = (Inr Applied, n')
    \<and> blobs (watcher_loop [''w''] (on_event stack_peer stack_gossip [''w''] \<lparr>peer_id = me\<rparr>)
               [\<lparr>ev_kind = Remove, ev_paths = [[''w'', ''a.txt'']]\<rparr>] n') = blobs n'"
proof -
  let ?r = "dispatch_update stack_peer (msg_tombstone ''a.txt'' alice) [''w''] host_pending None live_daemon"
  have "fst ?r = Inr Applied" by code_simp
  then obtain n' where r: "?r = (Inr Applied, n')" by (metis prod.collapse)
  have "path_comps ''a.txt'' = [''a.txt'']" "utf8_valid ''a.txt''" by code_simp+
  then show ?thesis
    using r own_removal_is_not_announced [OF r, of "\<lparr>su_version = 2, su_body = Tombstone ''a.txt'' \<lparr>peer_id = alice\<rparr>\<rparr>"
        "''a.txt''" "\<lparr>peer_id = alice\<rparr>" n' "\<lparr>ev_kind = Remove, ev_paths = [[''w'', ''a.txt'']]\<rparr>" "[]" stack_gossip "\<lparr>peer_id = me\<rparr>"]
      host_watch stack_peer_ok host_file by (simp add: sample_parse sample_valid Let_def)
qed

section \<open>Local changes\<close>

text \<open>
  C7: A local change is announced exactly once: the debouncer's report of a new or modified file,
  passed through the handler, the loop and the closure, and then the first neighbor, whichever comes
  first, hand gossip one message, which decodes to the upsert of the file's present content.
\<close>

theorem local_change_is_announced:
  assumes n: "faults n = []" "wf_fs (fs n)" "real_dir (fs n) root"
    and v: "validate_relative_path rel = Inr ()" "utf8_valid rel" "\<not> path_is_skippable (path_comps rel)"
    and f: "node_at (fs n) (root @ path_comps rel) = Some (File bytes m)" "length bytes \<le> MAX_FILE_SIZE"
    and lw: "last_written (sync n) (path_comps rel) \<noteq> Some (hash_new (pa_blob pa) bytes)"
    and ev: "ev_kind ev = Create \<or> ev_kind ev = Modify" "ev_paths ev = [root @ path_comps rel]"
    and p: "pending_initial_broadcasts (daemon_of n) = []" and ok: "peer_api_ok pa"
    and a: "bl_add (pa_blob pa) bytes (blobs n) = (Inr hash, b1)"
      "to_bytes (pa_codec pa) \<lparr>su_version = 2, su_body = Upsert rel hash Raw self\<rparr> = Inr payload" "bc payload b1 = (Inr (), b2)"
  shows "let n1 = watcher_loop root (on_event pa bc root self) (watcher_handler root [Inr [ev]]) n;
             (ps, ds) = neighbor_up peer (daemon_of n1);
             n2 = flush_initial pa bc root self ps (peer_node.more_update (\<lambda>_. ds) n1) in
     blobs n2 = b2 \<and> fs n2 = fs n \<and> last_written (sync n2) (path_comps rel) = Some hash
     \<and> hash = hash_new (pa_blob pa) bytes
     \<and> from_bytes (pa_codec pa) payload = Inr \<lparr>su_version = 2, su_body = Upsert rel hash Raw self\<rparr>"
proof -
  let ?pc = "path_comps rel"
  note rc = rel_path_comps [OF v(1)]
  have k: "ev_kind ev \<noteq> Remove" using ev by auto
  have h: "hash = hash_new (pa_blob pa) bytes" using peer_api_okD(2) [OF ok] a(1) by (auto simp: blob_ok_def)
  have d: "from_bytes (pa_codec pa) payload = Inr \<lparr>su_version = 2, su_body = Upsert rel hash Raw self\<rparr>"
    using to_bytes_from_bytes [OF peer_api_okD(3) [OF ok], of "\<lparr>su_version = 2, su_body = Upsert rel hash Raw self\<rparr>"] a(2) v(1)
    by (auto simp: su_path_def)
  have "\<not> should_skip_under_root ev root" using ev v(3) by (auto simp: should_skip_under_root_def)
  then have w: "watcher_loop root (on_event pa bc root self) (watcher_handler root [Inr [ev]]) n = on_event pa bc root self ev ?pc n"
    using ev rc(2) by simp
  note lc = on_event_local_change [OF n v(1,2) f lw k, where bc = bc and me = self]
  show ?thesis
  proof (cases "gossip_joined (daemon_of n)")
    case True
    then show ?thesis
      using lc(2) [OF True a] w h d by (simp add: Let_def neighbor_up_def mark_first_join_def)
  next
    case False
    let ?n1 = "peer_node.more_update (\<lambda>_. (daemon_of n)\<lparr>gossip_joined := True, pending_initial_broadcasts := []\<rparr>)
       (n\<lparr>sync := (sync n)\<lparr>last_written := (last_written (sync n))(?pc := None)\<rparr>\<rparr>)"
    have s: "send_file (pa_blob pa) bc (pa_codec pa) rel root self ?n1 =
        (Inr (), ?n1\<lparr>blobs := b2, sync := (sync ?n1)\<lparr>last_written := (last_written (sync ?n1))(?pc \<mapsto> hash)\<rparr>\<rparr>)"
      by (rule send_file_no_faults) (use n v f a in simp_all)
    have "flush_initial pa bc root self [?pc] ?n1 = snd (send_file (pa_blob pa) bc (pa_codec pa) rel root self ?n1)"
      by (rule flush_initial_file) (use n v f in simp_all)
    then show ?thesis
      using lc(1) [OF False] w h d s p False
      by (simp add: Let_def neighbor_up_def mark_first_join_def drain_pending_initial_def)
  qed
qed

theorem local_change_is_announced_witness:
  "blobs (watcher_loop [''w''] (on_event stack_peer stack_gossip [''w''] \<lparr>peer_id = me\<rparr>)
       (watcher_handler [''w''] [Inr [\<lparr>ev_kind = Create, ev_paths = [[''w'', ''a.txt'']]\<rparr>]]) live_daemon)
     = \<lparr>st_local = [''old''], st_remote = [''new''],
        st_outbox = [put_update \<lparr>su_version = 2, su_body = Upsert ''a.txt'' (BlobHash ''old'') Raw \<lparr>peer_id = me\<rparr>\<rparr>]\<rparr>"
proof -
  let ?p = "put_update \<lparr>su_version = 2, su_body = Upsert ''a.txt'' (BlobHash ''old'') Raw \<lparr>peer_id = me\<rparr>\<rparr>"
  let ?s = "\<lparr>st_local = [''old''], st_remote = [''new''], st_outbox = []\<rparr>"
  have c: "path_comps ''a.txt'' = [''a.txt'']" "utf8_valid ''a.txt''" "\<not> path_is_skippable [''a.txt'']" by code_simp+
  have a: "bl_add stack_blobs ''old'' host_stack = (Inr (BlobHash ''old''), ?s)"
    "stack_gossip ?p ?s = (Inr (), ?s\<lparr>st_outbox := [?p]\<rparr>)"
    "to_bytes wire_codec \<lparr>su_version = 2, su_body = Upsert ''a.txt'' (BlobHash ''old'') Raw \<lparr>peer_id = me\<rparr>\<rparr> = Inr ?p"
    by (simp_all add: stack_blobs_def stack_gossip_def host_stack_def to_bytes_def wire_codec_def)
  have m: "length ''old'' \<le> MAX_FILE_SIZE" by (simp add: MAX_FILE_SIZE_def)
  let ?n1 = "watcher_loop [''w''] (on_event stack_peer stack_gossip [''w''] \<lparr>peer_id = me\<rparr>)
       (watcher_handler [''w''] [Inr [\<lparr>ev_kind = Create, ev_paths = [[''w'', ''a.txt'']]\<rparr>]]) live_daemon"
  have "gossip_joined (daemon_of ?n1)" by code_simp
  then have "neighbor_up alice (daemon_of ?n1) = ([], daemon_of ?n1)" by (simp add: neighbor_up_def mark_first_join_def)
  then show ?thesis
    using local_change_is_announced [of live_daemon "[''w'']" "''a.txt''" "''old''" 420 stack_peer
        "\<lparr>ev_kind = Create, ev_paths = [[''w'', ''a.txt'']]\<rparr>" "BlobHash ''old''" ?s "\<lparr>peer_id = me\<rparr>" ?p stack_gossip
        "?s\<lparr>st_outbox := [?p]\<rparr>" alice] a m c sample_valid host_wf host_root host_file stack_peer_ok
    by (simp add: Let_def sync_state_new_def)
qed

text \<open>
  A rename is announced as a removal at most: of an event that reports the old and the new path,
  gossip gets nothing or the tombstone of the old path; the file under its new path is not announced.
\<close>

theorem rename_announces_only_the_old_path:
  assumes "wf_fs (fs n)" "plain (fs n) (root @ path_comps old)" "node_at (fs n) (root @ path_comps old) = None"
    and "validate_relative_path old = Inr ()" "utf8_valid old" "codec_ok (pa_codec pa)"
    and "ev_paths ev = [root @ path_comps old, root @ new]"
  shows "let final = watcher_loop root (on_event pa bc root self) [ev] n in
     fs final = fs n \<and> (blobs final = blobs n
       \<or> (\<exists>payload. from_bytes (pa_codec pa) payload = Inr \<lparr>su_version = 2, su_body = Tombstone old self\<rparr>
            \<and> blobs final = snd (bc payload (blobs n))))"
proof -
  note rc = rel_path_comps [OF assms(4)]
  obtain n2 where n2: "fs_step (n\<lparr>sync := (sync n)\<lparr>last_written := (last_written (sync n))(path_comps old := None)\<rparr>\<rparr>) n2"
    "fs n2 = fs n" "on_event pa bc root self ev (path_comps old) n =
       (if path_comps old \<in> last_removed (sync n) then n2\<lparr>sync := (sync n2)\<lparr>last_removed := last_removed (sync n2) - {path_comps old}\<rparr>\<rparr>
        else (case enqueue (path_comps old) n2 of
                (True, n3) \<Rightarrow> n3
              | (False, n3) \<Rightarrow> snd (broadcast_tombstone bc (pa_codec pa) old self n3)))"
    using on_event_gone [OF rel_to_str_comps [OF assms(4,5)] assms(1-3)] by blast
  have b2: "blobs n2 = blobs n" using fs_step_node [OF n2(1)] by simp
  obtain q n3 where q: "enqueue (path_comps old) n2 = (q, n3)" by fastforce
  have n3: "fs n3 = fs n" "blobs n3 = blobs n" using q n2(2) b2 by (auto simp: enqueue_def split: prod.splits)
  obtain r n4 where 4: "broadcast_tombstone bc (pa_codec pa) old self n3 = (r, n4)" by fastforce
  have "fs n4 = fs n3"
    using 4 by (auto simp: broadcast_tombstone_eq [OF assms(4)] Let_def split: if_splits sum.splits prod.splits)
  then show ?thesis
    using n2(2,3) b2 q n3 broadcast_tombstone_blobs [OF assms(6) 4] 4 assms(7) rc(2) by (cases q) (auto simp: Let_def)
qed

theorem rename_announces_only_the_old_path_witness:
  "\<exists>payload. from_bytes wire_codec payload = Inr \<lparr>su_version = 2, su_body = Tombstone ''b.txt'' \<lparr>peer_id = me\<rparr>\<rparr>
    \<and> blobs (watcher_loop [''w''] (on_event stack_peer stack_gossip [''w''] \<lparr>peer_id = me\<rparr>)
         [\<lparr>ev_kind = Modify, ev_paths = [[''w'', ''b.txt''], [''w'', ''a.txt'']]\<rparr>] live_daemon) = snd (stack_gossip payload host_stack)"
proof -
  let ?n = "watcher_loop [''w''] (on_event stack_peer stack_gossip [''w''] \<lparr>peer_id = me\<rparr>)
         [\<lparr>ev_kind = Modify, ev_paths = [[''w'', ''b.txt''], [''w'', ''a.txt'']]\<rparr>] live_daemon"
  have c: "path_comps ''b.txt'' = [''b.txt'']" "utf8_valid ''b.txt''" "validate_relative_path ''b.txt'' = Inr ()" by code_simp+
  have m: "node_at host_fs [''w'', ''b.txt''] = None" by (simp add: node_at_def host_fs_def)
  have "q = [] \<or> q = [''w'']" if "[''w'', ''b.txt''] = q @ r" "r \<noteq> []" for q r
    using that by (auto simp: Cons_eq_append_conv)
  then have pl: "plain host_fs [''w'', ''b.txt'']"
    using m by (auto simp: plain_def normal_def dir_at_def node_at_def host_fs_def)
  have "length (st_outbox (blobs ?n)) = 1" by code_simp
  then have "blobs ?n \<noteq> host_stack" by (auto simp: host_stack_def)
  then show ?thesis
    using rename_announces_only_the_old_path [of live_daemon "[''w'']" "''b.txt''" stack_peer
        "\<lparr>ev_kind = Modify, ev_paths = [[''w'', ''b.txt''], [''w'', ''a.txt'']]\<rparr>" "[''a.txt'']" stack_gossip "\<lparr>peer_id = me\<rparr>"]
      c m pl host_wf wire_codec_ok by (simp add: Let_def)
qed

end
