(* ===== verification/Props_Process.thy ===== *)
theory Props_Process
  imports Process_Samples
begin

text \<open>
  The properties of the daemon as a process: who may run, what start-up touches and establishes, the
  socket with its bounds and refusals, and the way from a tool of the MCP server to the handler.
\<close>

section \<open>One daemon\<close>

text \<open>
  C11: However many daemons are started, stopped and killed at any point, in any interleaving and with
  any I/O errors, at most one of them is past the lock; and while one serves, its socket stays in
  place: no other process unlinks it, whatever its probe of the socket says.
\<close>

theorem one_daemon_at_a_time:
  assumes "(claim_step ca na lockp sock)\<^sup>*\<^sup>* (nobody_runs w) s" "net_ok na" "host_ok {lockp, sock} w" "sock \<noteq> lockp"
    and "hp_phase s p \<noteq> Off"
  shows "(hp_phase s p' \<noteq> Off \<longrightarrow> p' = p)
    \<and> (\<forall>h. hp_phase s p = Serving h \<longrightarrow> (\<exists>m. node_at (fs (hp_world s)) sock = Some (Socket m)))"
proof -
  have i: "claim_inv lockp sock s" by (rule claim_steps_inv [OF assms(1,2,4) nobody_runs_inv [OF assms(3)]])
  have o: "hp_owner s lockp = Some p" by (rule owns_unique [OF i assms(5)])
  have "p' = p" if "hp_phase s p' \<noteq> Off" using owns_unique [OF i that] o by simp
  moreover have "\<exists>m. node_at (fs (hp_world s)) sock = Some (Socket m)" if "hp_phase s p = Serving h" for h
    using i that unfolding claim_inv_def by (metis owns.simps(4))
  ultimately show ?thesis by blast
qed

theorem one_daemon_at_a_time_witness:
  "\<exists>s. (claim_step line_rpc dead_net [''s'', ''daemon.lock''] [''s'', ''daemon.sock''])\<^sup>*\<^sup>* (nobody_runs (world.truncate host)) s
     \<and> hp_phase s 1 = Locked [''s'', ''daemon.lock''] \<and> hp_phase s 2 = Off"
proof -
  let ?w = "world.truncate host"
  let ?r = "acquire_daemon_lock (try_lock_of Map.empty) [''s'', ''daemon.lock''] ?w"
  have ok: "host_ok {[''s'', ''daemon.lock''], [''s'', ''daemon.sock'']} ?w"
    using host_ok_main(2) by (simp add: host_ok_def world.truncate_def)
  have "fst ?r = Inr [''s'', ''daemon.lock'']" by code_simp
  then obtain w' where r: "?r = (Inr [''s'', ''daemon.lock''], w')" by (metis prod.collapse)
  let ?s = "(nobody_runs ?w)\<lparr>hp_world := w', hp_owner := [[''s'', ''daemon.lock''] \<mapsto> 1],
      hp_phase := (\<lambda>_. Off)(1 := Locked [''s'', ''daemon.lock''])\<rparr>"
  have "claim_step line_rpc dead_net [''s'', ''daemon.lock''] [''s'', ''daemon.sock''] (nobody_runs ?w) ?s"
    using claim_step.acquired [of "nobody_runs ?w" 1 "[''s'', ''daemon.lock'']" "[''s'', ''daemon.lock'']" w' line_rpc dead_net "[''s'', ''daemon.sock'']"] r
    by (simp add: nobody_runs_def)
  then have st: "(claim_step line_rpc dead_net [''s'', ''daemon.lock''] [''s'', ''daemon.sock''])\<^sup>*\<^sup>* (nobody_runs ?w) ?s" by blast
  then have "hp_phase ?s 2 = Off"
    using one_daemon_at_a_time [OF st dead_net_ok ok, of 1 2] by simp
  then show ?thesis using st by (intro exI [of _ ?s]) simp
qed

text \<open>
  C30: A second daemon does no harm: when the lock is taken, start-up returns an error, and everything
  outside the lock file, the log and the directories that hold them is untouched: no key is made, no
  secret, allowlist or socket is changed, and the endpoint is not bound.
\<close>

theorem second_daemon_touches_nothing:
  assumes "default_lock_path env = Inr lockp" "default_log_path env = Inr logp"
    and "wf_fs (fs w)" "store_layout (fs w) {lockp, logp}" "ma_try_lock api lockp = Inl busy"
  shows "\<exists>e w'. daemon_start api env args rnd w = (Some (Inl e), w')
    \<and> (\<forall>q. q \<in> {lockp, logp} \<or> prefix q (butlast lockp) \<or> prefix q (butlast logp) \<or> node_at (fs w') q = node_at (fs w) q)"
proof -
  obtain e w' where c: "claim_host api env args w = (Inl e, w')" "host_op {lockp, logp} {lockp, logp} w w'"
    using claim_host_refused [OF assms(1,2) _ assms(5), of w args] assms(3,4) by (auto simp: host_ok_def)
  show ?thesis
    using daemon_start_refused [OF c(1), of rnd] c(2) by (auto simp: host_op_def touches_def)
qed

theorem second_daemon_touches_nothing_witness:
  "\<exists>e w'. daemon_start (stack_main True) main_env main_args [] host = (Some (Inl e), w')
    \<and> node_at (fs w') [''s'', ''endpoint.key''] = None"
proof -
  have "ma_try_lock (stack_main True) [''s'', ''daemon.lock''] = Inl ''would block''" by (simp add: stack_main_def)
  then obtain e w' where d: "daemon_start (stack_main True) main_env main_args [] host = (Some (Inl e), w')"
      "\<forall>q. q \<in> {[''s'', ''daemon.lock''], [''s'', ''dirhive.log'']} \<or> prefix q (butlast [''s'', ''daemon.lock''])
        \<or> prefix q (butlast [''s'', ''dirhive.log'']) \<or> node_at (fs w') q = node_at (fs host) q"
    using second_daemon_touches_nothing [OF main_paths(1,2), of host "stack_main True" "''would block''" main_args "[]"]
      host_ok_main(1) unfolding host_ok_def by blast
  have "node_at (fs w') [''s'', ''endpoint.key''] = node_at (fs host) [''s'', ''endpoint.key'']"
    using d(2) [rule_format, of "[''s'', ''endpoint.key'']"] by simp
  then show ?thesis using d(1) host_missing [of "''endpoint.key''"] by simp
qed

text \<open>
  C31: Start-up cannot panic on its own state: in every environment it returns an error or a daemon
  whose status is \<open>Active\<close> exactly when it holds a receiver of the topic, whose sender is that topic,
  which has joined nothing and queued nothing, and which serves on its own socket with its own lock.
\<close>

theorem daemon_starts_consistent:
  "case daemon_start api env args rnd w of
     (None, _) \<Rightarrow> False
   | (Some (Inl e), _) \<Rightarrow> True
   | (Some (Inr st), w') \<Rightarrow>
       gossip_runtime_invariant (gossip_runtime (st_daemon st))
       \<and> (current_runtime_status (st_daemon st) = Active \<longleftrightarrow> st_receiver st \<noteq> None)
       \<and> gossip_sender_cloned (st_daemon st) = st_receiver st
       \<and> \<not> gossip_joined (st_daemon st) \<and> pending_initial_broadcasts (st_daemon st) = []
       \<and> lh_socket_path (st_listener st) = socket_path (ds_paths (st_daemon st))"
proof (cases "daemon_start api env args rnd w")
  case (Pair r w')
  from Pair show ?thesis
  proof (cases rule: daemon_start_cases)
    case (running st paths lf w1 w2 w3 i s al rt t stat pend)
    note ds = daemon_state_new_split [OF running(4), of paths pend i "mono_ms w3"]
    have "lh_socket_path (st_listener st) = socket_path paths"
      using running(6) by (auto simp: bind_listener_with_lock_def and_then_Inr_iff
          split: prod.splits bool.splits dest!: sym [where t = "st_listener st"])
    moreover have "ds_paths (st_daemon st) = paths \<and> \<not> gossip_joined (st_daemon st) \<and> pending_initial_broadcasts (st_daemon st) = []"
      using running(5) by (auto simp: daemon_state_new_def split: if_splits dest!: sym [where t = "st_daemon st"])
    ultimately show ?thesis using Pair running(1,5,7) ds by auto
  qed (use Pair in simp)
qed

section \<open>The socket\<close>

text \<open>
  C27: At any time, the connections in progress and the free permits add up to the cap of 32, no
  connection is counted twice, and the handlers keep the invariant of the daemon state; and all the
  connections in progress can be finished, which answers each of them and frees all permits.
\<close>

theorem connections_are_bounded:
  assumes "(accept_step ca (rpc_dispatch rp env rnd))\<^sup>*\<^sup>* (accept_initial d) s"
    and "gossip_runtime_invariant (gossip_runtime (daemon_of d))"
  shows "as_permits s + length (as_tasks s) = 32
    \<and> distinct (map fst (as_tasks s) @ map fst (as_out s) @ as_dropped s)
    \<and> gossip_runtime_invariant (gossip_runtime (daemon_of (as_state s)))
    \<and> (\<exists>s'. (accept_step ca (rpc_dispatch rp env rnd))\<^sup>*\<^sup>* s s' \<and> as_tasks s' = [] \<and> as_permits s' = 32
         \<and> fst ` set (as_tasks s) \<subseteq> fst ` set (as_out s'))"
proof -
  have i: "accept_inv s" by (rule accept_steps_inv [OF assms(1) accept_initial_inv])
  have k: "gossip_runtime_invariant (gossip_runtime (daemon_of (as_state s)))"
    by (rule rpc.accept_steps_keep [OF assms(1)]) (use assms(2) in \<open>simp add: accept_initial_def\<close>)
  obtain s' where s': "(accept_step ca (rpc_dispatch rp env rnd))\<^sup>*\<^sup>* s s'" "as_tasks s' = []"
      "as_permits s' = as_permits s + length (as_tasks s)" "fst ` set (as_tasks s) \<subseteq> fst ` set (as_out s')"
    using tasks_can_finish [OF refl, where s = s and ca = ca and dispatch = "rpc_dispatch rp env rnd"] by blast
  show ?thesis using i k s' by (auto simp: accept_inv_def MAX_IN_FLIGHT_CONNECTIONS_def)
qed

theorem connections_are_bounded_witness:
  "\<exists>s. (accept_step line_rpc (rpc_dispatch stack_rpc Map.empty []))\<^sup>*\<^sup>* (accept_initial live_daemon) s
     \<and> length (as_tasks s) = 1 \<and> as_permits s = 31"
proof -
  let ?c = "\<lparr>c_read = TimedOut, c_write = Inr (), c_flush = Inr ()\<rparr>"
  let ?s = "(accept_initial live_daemon)\<lparr>as_permits := 31, as_tasks := [(0, ?c)]\<rparr>"
  have "accept_step line_rpc (rpc_dispatch stack_rpc Map.empty []) (accept_initial live_daemon) ?s"
    using accept_step.accepted [of "accept_initial live_daemon" 0 line_rpc "rpc_dispatch stack_rpc Map.empty []" ?c]
    by (simp add: accept_initial_def MAX_IN_FLIGHT_CONNECTIONS_def)
  then have st: "(accept_step line_rpc (rpc_dispatch stack_rpc Map.empty []))\<^sup>*\<^sup>* (accept_initial live_daemon) ?s" by blast
  have "gossip_runtime_invariant (gossip_runtime (daemon_of live_daemon))"
    by (simp add: live_state_def gossip_runtime_invariant_def)
  then have "as_permits ?s + length (as_tasks ?s) = 32" using connections_are_bounded [OF st] by blast
  then show ?thesis using st by (intro exI [of _ ?s]) simp
qed



text \<open>
  C29: A request that times out, cannot be read, is empty, too long or no request reaches no handler:
  the daemon's state stays as it is, and what the client gets, if anything, is one line with an error.
\<close>

theorem bad_request_reaches_no_handler:
  assumes "well_formed_request ca c = None" "rpc_codec_ok ca"
  shows "\<exists>r out. (\<forall>d. handle_one ca dispatch c d = (r, out, d))
    \<and> (out = None \<or> (\<exists>e b. out = Some (b @ [CHR 0x0A]) \<and> CHR 0x0A \<notin> set b \<and> rs_ser ca (rpc_err e) = Inr b))"
proof -
  let ?h = "handle_one ca dispatch c undefined"
  have "handle_one ca dispatch c d = (fst ?h, fst (snd ?h), d)" for d
    by (rule handle_one_refused [OF assms(1)])
  moreover have "fst (snd ?h) = None \<or> (\<exists>e b. fst (snd ?h) = Some (b @ [CHR 0x0A]) \<and> CHR 0x0A \<notin> set b \<and> rs_ser ca (rpc_err e) = Inr b)"
  proof (cases "fst (snd ?h)")
    case (Some out)
    then show ?thesis using handle_one_refused_out [OF assms(1) Some] send_response_out [OF assms(2)] by metis
  qed simp
  ultimately show ?thesis by blast
qed

theorem bad_request_reaches_no_handler_witness:
  "\<exists>r out. (\<forall>d. handle_one line_rpc (rpc_dispatch stack_rpc Map.empty [])
      \<lparr>c_read = ReadLine ''no request'', c_write = Inr (), c_flush = Inr ()\<rparr> d = (r, out, d :: (stack, unit) daemon))"
proof -
  have "isl (rq_de line_rpc (trim_end_newlines ''no request''))" by code_simp
  then have "well_formed_request line_rpc \<lparr>c_read = ReadLine ''no request'', c_write = Inr (), c_flush = Inr ()\<rparr> = None"
    by (auto simp: well_formed_request_def split: sum.splits)
  then show ?thesis using bad_request_reaches_no_handler [OF _ line_rpc_ok] by blast
qed

section \<open>From a tool to the handler\<close>

text \<open>
  C26: A tool of the MCP server shows what the handler answered: when the socket leads to the daemon
  and the request fits into the limit, the result of the method is shown as text, and its error is
  shown as an error of the tool.
\<close>

theorem tool_call_returns_the_answer:
  assumes "rpc_codec_ok ca" "served_by ca (rpc_dispatch rp env rnd) n na sock"
    and "tool_request tool = Some (method, params)"
    and "rq_ser ca \<lparr>rq_method = method, rq_params = params\<rparr> = Inr body" "length body < MAX_REQUEST_BYTES"
    and "rpc_dispatch rp env rnd \<lparr>rq_method = method, rq_params = json_value ca params\<rparr> n = (Some resp, n')"
  shows "(\<forall>j. resp = rpc_ok j \<longrightarrow> j \<noteq> JNull \<longrightarrow> pretty (json_value ca j) = Inr text \<longrightarrow>
       call_tool ca na pretty compact io sock tool = Returned \<lparr>ct_is_error = False, ct_text = text\<rparr>)
    \<and> (\<forall>e. resp = rpc_err e \<longrightarrow>
       call_tool ca na pretty compact io sock tool = Returned \<lparr>ct_is_error = True, ct_text = ''daemon RPC error: '' @ e\<rparr>)"
  using served_call [OF assms(1,2,4,5,6)] assms(3)
  by (auto simp: call_tool_def call_daemon_def response_value_def ok_or_def rpc_ok_def rpc_err_def)

theorem tool_call_returns_the_answer_witness:
  "call_tool line_rpc (served_net (rpc_dispatch stack_rpc Map.empty []) host_daemon) (\<lambda>_. Inr ''{}'') (\<lambda>_. []) (\<lambda>_. [])
     [''s'', ''daemon.sock''] (SyncRevoke \<lparr>rv_peer_id = ''zz''\<rparr>)
   = Returned \<lparr>ct_is_error = True, ct_text = ''daemon RPC error: invalid peer_id '' @ [CHR 0x27] @ ''zz'' @ [CHR 0x27] @ '': invalid length''\<rparr>"
proof -
  let ?e = "''invalid peer_id '' @ [CHR 0x27] @ ''zz'' @ [CHR 0x27] @ '': invalid length''"
  let ?d = "rpc_dispatch stack_rpc Map.empty []"
  let ?q = "\<lparr>rq_method = ''sync.revoke'', rq_params = JObj [(''peer_id'', JStr ''zz'')]\<rparr>"
  obtain n' where r: "?d ?q host_daemon = (Some (rpc_err ?e), n')"
  proof -
    have "fst (?d ?q host_daemon) = Some (rpc_err ?e)" by code_simp
    then show thesis using that by (metis prod.collapse)
  qed
  have b: "rq_ser line_rpc ?q = Inr (text_line (put_request ?q))" by (simp add: line_rpc_def)
  have "length (text_line (put_request ?q)) < 1000" by code_simp
  then have l: "length (text_line (put_request ?q)) < MAX_REQUEST_BYTES" by (simp add: MAX_REQUEST_BYTES_def)
  have v: "json_value line_rpc j = j" for j by (simp add: line_rpc_def)
  show ?thesis
    using tool_call_returns_the_answer [OF line_rpc_ok served_net_serves [of ?d host_daemon "[''s'', ''daemon.sock'']"] _ b l,
        of "SyncRevoke \<lparr>rv_peer_id = ''zz''\<rparr>"] r
    by (simp add: v)
qed

end
