(* ===== verification/Request_Frames.thy ===== *)
theory Request_Frames
  imports Startup_Laws
begin

text \<open>
  What the requests may change on disk, under any I/O errors and for any parameters: the three private
  files of the daemon, their temporary files, and the directories that hold them.
\<close>

definition private_changes :: "path set \<Rightarrow> fs \<Rightarrow> fs \<Rightarrow> bool" where
  "private_changes ps f f' \<longleftrightarrow>
     (\<forall>q. node_at f' q = node_at f q
        \<or> (\<exists>p\<in>ps. prefix q (butlast p)) \<and> dir_at f' q \<and> (node_at f q = None \<or> dir_at f q)
        \<or> q \<in> ps \<or> (\<exists>p\<in>ps. butlast q = butlast p \<and> suffix ''.tmp'' (last q)))"

lemma private_changes_refl [simp]: "private_changes ps f f"
  by (simp add: private_changes_def)

lemma private_changes_trans:
  assumes "private_changes ps f f1" "private_changes ps f1 f2"
  shows "private_changes ps f f2"
  unfolding private_changes_def
proof
  fix q
  consider "node_at f2 q = node_at f1 q" | "\<exists>p\<in>ps. prefix q (butlast p)" "dir_at f2 q" "node_at f1 q = None \<or> dir_at f1 q"
    | "q \<in> ps \<or> (\<exists>p\<in>ps. butlast q = butlast p \<and> suffix ''.tmp'' (last q))"
    using assms(2) unfolding private_changes_def by blast
  then show "node_at f2 q = node_at f q
      \<or> (\<exists>p\<in>ps. prefix q (butlast p)) \<and> dir_at f2 q \<and> (node_at f q = None \<or> dir_at f q)
      \<or> q \<in> ps \<or> (\<exists>p\<in>ps. butlast q = butlast p \<and> suffix ''.tmp'' (last q))"
    using assms(1) unfolding private_changes_def dir_at_def by cases metis+
qed

text \<open>A request acts on a host with the private files \<open>ps\<close>.\<close>

definition private_op :: "path set \<Rightarrow> 'z world_scheme \<Rightarrow> 'z world_scheme \<Rightarrow> bool" where
  "private_op ps w w' \<longleftrightarrow> (host_ok ps w \<longrightarrow> host_ok ps w' \<and> private_changes ps (fs w) (fs w'))"

lemma private_op_same: "fs w' = fs w \<Longrightarrow> private_op ps w w'"
  by (simp add: private_op_def host_ok_def)

lemma private_op_refl [simp]: "private_op ps w w"
  by (simp add: private_op_def)

lemma private_op_trans: "private_op ps w w1 \<Longrightarrow> private_op ps w1 w2 \<Longrightarrow> private_op ps w w2"
  using private_changes_trans by (auto simp: private_op_def)

lemma private_op_and_then:
  assumes "private_op ps w (snd res)" "\<And>x w1. res = (Inr x, w1) \<Longrightarrow> private_op ps w1 (snd (k x w1))"
  shows "private_op ps w (snd (and_then res k))"
proof (cases res)
  case (Pair r w1)
  then show ?thesis using assms private_op_trans by (cases r) auto
qed

text \<open>One write of a private file, successful or not.\<close>

lemma secure_post_private_op:
  assumes "p \<in> ps" "host_ok ps w \<Longrightarrow> secure_post p b w res"
  shows "private_op ps w (snd res)"
proof -
  have "host_ok ps (snd res) \<and> private_changes ps (fs w) (fs (snd res))" if h: "host_ok ps w"
  proof -
    obtain r w' where res: "res = (r, w')" by fastforce
    have c: "secure_post p b w (r, w')" using assms(2) [OF h] res by simp
    have "store_layout (fs w') ps"
      by (rule secure_post_layout [OF _ assms(1) c refl]) (use h in \<open>simp add: host_ok_def\<close>)
    moreover have "store_frame p (fs w) (fs w')" "wf_fs (fs w')" using c by (simp_all add: secure_post_def)
    moreover have "private_changes ps (fs w) (fs w')"
      unfolding private_changes_def
    proof
      fix q
      show "node_at (fs w') q = node_at (fs w) q
        \<or> (\<exists>p\<in>ps. prefix q (butlast p)) \<and> dir_at (fs w') q \<and> (node_at (fs w) q = None \<or> dir_at (fs w) q)
        \<or> q \<in> ps \<or> (\<exists>p\<in>ps. butlast q = butlast p \<and> suffix ''.tmp'' (last q))"
        using \<open>store_frame p (fs w) (fs w')\<close> [unfolded store_frame_def, rule_format, of q] assms(1)
        by (cases "q = p") blast+
    qed
    ultimately show ?thesis using res by (simp add: host_ok_def)
  qed
  then show ?thesis by (simp add: private_op_def)
qed

lemma host_ok_store: "host_ok ps w \<Longrightarrow> p \<in> ps \<Longrightarrow> wf_fs (fs w) \<and> store_path (fs w) p"
  using store_layoutD(1) by (auto simp: host_ok_def)

lemma persist_private_op: "tempfile_ok tf \<Longrightarrow> p \<in> ps \<Longrightarrow> private_op ps w (snd (persist_folder_secret tf p s w))"
  using persist_contract host_ok_store by (intro secure_post_private_op) blast+

lemma write_atomic_private_op: "tempfile_ok tf \<Longrightarrow> p \<in> ps \<Longrightarrow> private_op ps w (snd (write_atomic_0o600 tf p b w))"
  using write_atomic_contract host_ok_store by (intro secure_post_private_op) blast+

lemma save_bootstrap_private_op:
  assumes "tempfile_ok tf" "bootstrap_codec_ok a" "p \<in> ps"
  shows "private_op ps w (snd (save_bootstrap_peers a tf p peers w))"
proof (cases "host_ok ps w")
  case True
  then obtain b where "secure_post p b w (save_bootstrap_peers a tf p peers w)"
    using save_bootstrap_contract [of w p tf a peers] host_ok_store [OF True assms(3)] assms by blast
  then show ?thesis by (intro secure_post_private_op [OF assms(3)])
qed (simp add: private_op_def)

lemma on_allowlist_private_op:
  "private_op ps n (snd (snd (f (allow n) n))) \<Longrightarrow> private_op ps n (snd (on_allowlist f n))"
  by (cases "f (allow n) n") (auto simp: on_allowlist_def private_op_def host_ok_def)

lemma add_and_save_private_op:
  assumes "tempfile_ok tf" "p \<in> ps"
  shows "private_op ps n (snd (on_allowlist (add_and_save ids a tf i info p) n))"
proof (rule on_allowlist_private_op)
  obtain r al where 1: "add_begin ids a i info (allow n) = (r, al)" by fastforce
  show "private_op ps n (snd (snd (add_and_save ids a tf i info p (allow n) n)))"
  proof (cases r)
    case (Inl e)
    then show ?thesis using 1 by (simp add: add_and_save_def)
  next
    case (Inr x)
    obtain b pa pi where x: "x = (b, pa, pi)" by (metis prod_cases3)
    obtain r2 w2 where 2: "write_atomic_0o600 tf p b n = (r2, w2)" by fastforce
    have "private_op ps n w2" using write_atomic_private_op [OF assms, of n b] 2 by simp
    then show ?thesis using 1 2 Inr x by (cases r2) (simp_all add: add_and_save_def)
  qed
qed

lemma remove_and_save_private_op:
  assumes "tempfile_ok tf" "p \<in> ps"
  shows "private_op ps n (snd (on_allowlist (remove_and_save ids a tf i p) n))"
proof (rule on_allowlist_private_op)
  obtain r al where 1: "remove_begin ids a i (allow n) = (r, al)" by fastforce
  show "private_op ps n (snd (snd (remove_and_save ids a tf i p (allow n) n)))"
  proof (cases r)
    case (Inl e)
    then show ?thesis using 1 by (simp add: remove_and_save_def)
  next
    case (Inr x)
    obtain prev b where x: "x = (prev, b)" by (metis surj_pair)
    obtain r2 w2 where 2: "write_atomic_0o600 tf p b n = (r2, w2)" by fastforce
    have "private_op ps n w2" using write_atomic_private_op [OF assms, of n b] 2 by simp
    then show ?thesis using 1 2 Inr x by (cases r2) (simp_all add: remove_and_save_def)
  qed
qed

lemma load_bootstrap_fs: "fs (snd (load_bootstrap_peers a p w)) = fs w"
proof -
  obtain r w1 where 1: "fs_read p w = (r, w1)" by fastforce
  have "fs w1 = fs w" using fs_read_inv [OF 1] by simp
  then show ?thesis using 1 by (cases r) (simp_all add: load_bootstrap_peers_def)
qed

lemma try_load_fs: "fs (snd (try_load_folder_secret p w)) = fs w"
  using try_load_folder_secret_inv(2) by (metis prod.collapse)

lemma add_or_replace_private_op:
  assumes "tempfile_ok tf" "bootstrap_codec_ok a" "p \<in> ps"
  shows "private_op ps w (snd (add_or_replace a tf p x w))"
  unfolding add_or_replace_def
  by (rule private_op_and_then [OF private_op_same [OF load_bootstrap_fs]]) (rule save_bootstrap_private_op [OF assms])

lemma private_op_more: "private_op ps n (peer_node.more_update f n1) \<longleftrightarrow> private_op ps n n1"
  by (simp add: private_op_def host_ok_def)

section \<open>The requests\<close>

definition private_files :: "daemon_paths \<Rightarrow> path set" where
  "private_files paths = {folder_secret_path paths, allowlist_path paths, bootstrap_peers_path paths}"

lemma rpc_frame_paths: "rpc_frame n n' \<Longrightarrow> paths_of n' = paths_of n"
  by (auto simp: rpc_frame_def)

lemma folder_secret_for_invite_private_op:
  assumes "tempfile_ok tf" "folder_secret_path (paths_of n) \<in> ps"
  shows "private_op ps n (snd (folder_secret_for_invite tf rnd n))"
  unfolding folder_secret_for_invite_def
proof (rule private_op_and_then [OF private_op_same [OF try_load_fs]], goal_cases)
  case (1 cur n1)
  have "private_op ps n1 (snd (generate_and_persist_folder_secret rnd tf (folder_secret_path (paths_of n)) n1))"
    unfolding generate_eq by (rule private_op_and_then [OF persist_private_op [OF assms]]) simp
  then have "private_op ps n1 (snd (and_then (generate_and_persist_folder_secret rnd tf (folder_secret_path (paths_of n)) n1)
           (\<lambda>s n2. (Inr s, peer_node.more_update enter_initialized_but_not_subscribed n2))))"
    by (rule private_op_and_then) (simp add: private_op_more)
  then show ?case by (cases cur) simp_all
qed

lemma adopt_folder_secret_private_op:
  assumes "tempfile_ok tf" "folder_secret_path (paths_of n) \<in> ps"
  shows "private_op ps n (snd (adopt_folder_secret tf s n))"
  unfolding adopt_folder_secret_def Let_def
proof (rule private_op_and_then [OF private_op_same [OF try_load_fs]], goal_cases)
  case (1 cur n1)
  have "private_op ps n1 (snd (and_then (persist_folder_secret tf (folder_secret_path (paths_of n)) s n1)
                (\<lambda>_ n2. (Inr (), peer_node.more_update enter_initialized_but_not_subscribed n2))))"
    by (rule private_op_and_then [OF persist_private_op [OF assms]]) (simp add: private_op_more)
  then show ?case by (cases cur) simp_all
qed

lemma rpc_invite_private_op:
  assumes "tempfile_ok (pa_tempfile (rp_peer rp))" "folder_secret_path (paths_of n) \<in> ps"
  shows "private_op ps n (snd (rpc_invite rp rnd n))"
  unfolding rpc_invite_def
  by (rule private_op_and_then [OF folder_secret_for_invite_private_op [OF assms]]) (simp split: sum.split)

lemma rpc_accept_invite_private_op:
  assumes tf: "tempfile_ok (pa_tempfile (rp_peer rp))" and bc: "bootstrap_codec_ok (rp_boot_codec rp)"
    and ps: "private_files (paths_of n) \<subseteq> ps"
  shows "private_op ps n (snd (rpc_accept_invite rp params n))"
proof -
  have "private_op ps n (snd (and_then (adopt_folder_secret (pa_tempfile (rp_peer rp)) s n) (\<lambda>_ n1.
      and_then (on_allowlist (add_and_save ids (rp_allow_codec rp) (pa_tempfile (rp_peer rp)) i (peer_info_new label (epoch_secs n1))
        (allowlist_path (paths_of n1))) n1) (\<lambda>_ n2.
      and_then (with_context (''persist inviter addr to '' @ display (bootstrap_peers_path (paths_of n2)))
        (add_or_replace (rp_boot_codec rp) (pa_tempfile (rp_peer rp)) (bootstrap_peers_path (paths_of n2)) x n2)) (\<lambda>_ n3.
        (Inr (j n3), n3))))))" for s ids i label x and j :: "('a, 'b) daemon \<Rightarrow> json"
  proof (rule private_op_and_then, goal_cases)
    case 1
    show ?case by (rule adopt_folder_secret_private_op [OF tf]) (use ps in \<open>simp add: private_files_def\<close>)
  next
    case (2 u n1)
    have p1: "paths_of n1 = paths_of n"
      using rpc_frame_paths [OF adopt_folder_secret_frame [of n "pa_tempfile (rp_peer rp)" s]] 2 by simp
    show ?case
    proof (rule private_op_and_then, goal_cases)
      case 1
      show ?case by (rule add_and_save_private_op [OF tf]) (use ps p1 in \<open>simp add: private_files_def\<close>)
    next
      case (2 v n2)
      have "paths_of n2 = paths_of n1" using 2 rpc_frame_paths add_and_save_frame by (metis snd_conv)
      then have "bootstrap_peers_path (paths_of n2) \<in> ps" using ps p1 by (simp add: private_files_def)
      then have "private_op ps n2 (snd (add_or_replace (rp_boot_codec rp) (pa_tempfile (rp_peer rp)) (bootstrap_peers_path (paths_of n2)) x n2))"
        by (rule add_or_replace_private_op [OF tf bc])
      then show ?case by (intro private_op_and_then) simp_all
    qed
  qed
  then show ?thesis by (simp add: rpc_accept_invite_def Let_def split: sum.split prod.split)
qed

lemma rpc_allow_peer_private_op:
  assumes "tempfile_ok (pa_tempfile (rp_peer rp))" "allowlist_path (paths_of n) \<in> ps"
  shows "private_op ps n (snd (rpc_allow_peer rp params n))"
  using add_and_save_private_op [OF assms]
  by (auto simp: rpc_allow_peer_def Let_def intro!: private_op_and_then split: sum.split)

lemma rpc_revoke_private_op:
  assumes "tempfile_ok (pa_tempfile (rp_peer rp))" "allowlist_path (paths_of n) \<in> ps"
  shows "private_op ps n (snd (rpc_revoke rp params n))"
  using remove_and_save_private_op [OF assms]
  by (auto simp: rpc_revoke_def intro!: private_op_and_then split: sum.split)

lemma rpc_dispatch_private_op:
  assumes "tempfile_ok (pa_tempfile (rp_peer rp))" "bootstrap_codec_ok (rp_boot_codec rp)" "private_files (paths_of n) \<subseteq> ps"
  shows "private_op ps n (snd (rpc_dispatch rp env rnd req n))"
proof (cases "rq_method req \<in> changing_methods")
  case False
  then have "fs (snd (rpc_dispatch rp env rnd req n)) = fs n"
    using rpc_dispatch_read_only [of req n rp env rnd] read_only_node by blast
  then show ?thesis by (rule private_op_same)
next
  case True
  then show ?thesis
    using assms rpc_invite_private_op [of rp n ps rnd] rpc_accept_invite_private_op [OF assms]
      rpc_allow_peer_private_op [of rp n ps] rpc_revoke_private_op [of rp n ps]
    by (auto simp: rpc_dispatch_snd rpc_handler_def changing_methods_def Let_def private_files_def)
qed

end
