(* ===== verification/Run.thy ===== *)
theory Run
  imports Request_Frames
begin

text \<open>
  The running daemon as a whole: the tasks that \<open>main\<close> of \<open>src/src/bin/dirhive.rs\<close> starts (the receive
  loop with its callbacks, the watcher loop, the flush after the first join), the requests over the
  socket and the blob server, interleaved in any way with the user's own edits and with I/O errors.
  A message, an event, a request or one path of the flush is handled in one step.
\<close>

section \<open>Steps\<close>

text \<open>The node, and the paths that the task of the first neighbor still has to announce.\<close>

inductive run_step ::
  "'b peer_api \<Rightarrow> 'b rpc_api \<Rightarrow> 'b gossip_api \<Rightarrow> env
     \<Rightarrow> (endpoint_id \<Rightarrow> 'b \<Rightarrow> (str + unit) \<times> 'b) \<Rightarrow> ('b, 'g) daemon \<times> path list \<Rightarrow> ('b, 'g) daemon \<times> path list \<Rightarrow> bool"
  for pa rp bc env inner where
  message: "run_step pa rp bc env inner (n, q)
    (snd (dispatch_update pa content (watched_dir_canonical (paths_of n)) (ds_pending (daemon_of n)) (Some mark_peer_seen) n), q)"
| neighbor: "neighbor_up i (daemon_of n) = (ps, ds) \<Longrightarrow>
    run_step pa rp bc env inner (n, q) (peer_node.more_update (\<lambda>_. ds) n, q @ ps)"
| flush: "run_step pa rp bc env inner (n, rel # q)
    (flush_initial pa bc (watched_dir_canonical (paths_of n)) \<lparr>peer_id = self_endpoint_id (daemon_of n)\<rparr> [rel] n, q)"
| event: "ev \<in> set (watcher_handler (watched_dir_canonical (paths_of n)) batches) \<Longrightarrow>
    run_step pa rp bc env inner (n, q)
      (watcher_loop (watched_dir_canonical (paths_of n))
         (on_event pa bc (watched_dir_canonical (paths_of n)) \<lparr>peer_id = self_endpoint_id (daemon_of n)\<rparr>) [ev] n, q)"
| request: "run_step pa rp bc env inner (n, q) (snd (rpc_dispatch rp env rnd req n), q)"
| serve: "run_step pa rp bc env inner (n, q) (snd (snd (blobs_accept (with_serve_callback inner mark_peer_seen) i n)), q)"
| user: "wf_fs f \<Longrightarrow> \<forall>p. strict_prefix (watched_dir_canonical (paths_of n)) p \<or> node_at f p = node_at (fs n) p \<Longrightarrow>
    run_step pa rp bc env inner (n, q) (n\<lparr>fs := f, faults := fl, mono_ms := t, sys_time := st\<rparr>, q)"

section \<open>What the announcing side leaves alone\<close>

definition same_host :: "('b, 'z) peer_node_scheme \<Rightarrow> ('b, 'z) peer_node_scheme \<Rightarrow> bool" where
  "same_host n n' \<longleftrightarrow> fs n' = fs n \<and> allow n' = allow n \<and> peer_node.more n' = peer_node.more n"

lemma same_host_refl [simp]: "same_host n n"
  by (simp add: same_host_def)

lemma same_host_trans: "same_host n n1 \<Longrightarrow> same_host n1 n2 \<Longrightarrow> same_host n n2"
  by (simp add: same_host_def)

lemma same_host_fs_step: "fs_step n n' \<Longrightarrow> fs n' = fs n \<Longrightarrow> same_host n n'"
  using fs_step_node [of n n'] by (simp add: same_host_def)

lemma same_host_and_then:
  assumes "same_host n (snd res)" "\<And>x n1. same_host n1 (snd (k x n1))"
  shows "same_host n (snd (and_then res k))"
  using assms same_host_trans by (cases res; cases "fst res") fastforce+

lemma resolve_same_host: "same_host n (snd (resolve_safe_path root rel n))"
  using resolve_safe_path_inv(1,2) [of root rel n] same_host_fs_step by (metis prod.collapse)

lemma metadata_same_host: "same_host n (snd (metadata p n))"
  using metadata_inv [of p n] same_host_fs_step by (metis prod.collapse)

lemma fs_read_same_host: "same_host n (snd (fs_read p n))"
  using fs_read_inv [of p n] same_host_fs_step by (metis prod.collapse)

lemma path_exists_same_host: "same_host n (snd (path_exists p n))"
  using path_exists_inv [of p n] same_host_fs_step by (metis prod.collapse)

lemmas reads_same_host = resolve_same_host metadata_same_host fs_read_same_host path_exists_same_host

lemma send_file_same_host: "same_host n (snd (send_file ba bc ca rel root me n))"
  unfolding send_file_def
proof (rule same_host_and_then [OF resolve_same_host], goal_cases)
  case (1 p n1)
  show ?case
    by (rule same_host_and_then)
      (auto simp: reads_same_host [unfolded same_host_def] same_host_def
        split: prod.split sum.split intro!: same_host_and_then [unfolded same_host_def])
qed

lemma broadcast_tombstone_same_host: "same_host n (snd (broadcast_tombstone bc ca rel me n))"
  by (auto simp: broadcast_tombstone_def same_host_def Let_def split: sum.split prod.split)

lemma flush_initial_same_host: "same_host n (flush_initial pa bc root me ps n)"
proof (induction ps arbitrary: n)
  case (Cons rel ps)
  obtain b n1 where 1: "path_exists (root @ rel) n = (b, n1)" by fastforce
  have "same_host n n1" using path_exists_same_host [of n "root @ rel"] 1 by simp
  then have "same_host n (case rel_to_str rel of None \<Rightarrow> n | Some s \<Rightarrow>
      (case path_exists (root @ rel) n of
         (False, n1) \<Rightarrow> snd (broadcast_tombstone bc (pa_codec pa) s me n1)
       | (True, n1) \<Rightarrow> snd (send_file (pa_blob pa) bc (pa_codec pa) s root me n1)))"
    using 1 same_host_trans [OF _ send_file_same_host] same_host_trans [OF _ broadcast_tombstone_same_host]
    by (auto split: option.split bool.split)
  then show ?case using Cons.IH same_host_trans by fastforce
qed simp

text \<open>An event may add to the queue; nothing else of the daemon's state changes.\<close>

definition same_daemon :: "('b, 'g) daemon \<Rightarrow> ('b, 'g) daemon \<Rightarrow> bool" where
  "same_daemon n n' \<longleftrightarrow> fs n' = fs n \<and> allow n' = allow n
     \<and> (\<exists>q. daemon_of n' = (daemon_of n)\<lparr>pending_initial_broadcasts := q\<rparr>)"

lemma same_host_daemon: "same_host n n' \<Longrightarrow> same_daemon n n'"
  by (auto simp: same_host_def same_daemon_def intro!: exI [of _ "pending_initial_broadcasts (daemon_of n)"])

lemma same_daemon_trans: "same_daemon n n1 \<Longrightarrow> same_daemon n1 n2 \<Longrightarrow> same_daemon n n2"
  by (auto simp: same_daemon_def)

lemma enqueue_same_daemon: "same_daemon n (snd (enqueue rel n))"
proof (cases "gossip_joined (daemon_of n)")
  case True
  then show ?thesis using same_host_daemon [OF same_host_refl, of n]
    by (simp add: enqueue_def enqueue_initial_broadcast_def same_daemon_def)
next
  case False
  then show ?thesis by (auto simp: enqueue_def enqueue_initial_broadcast_def same_daemon_def)
qed

lemma on_event_same_daemon: "same_daemon n (on_event pa bc root me ev rel n)"
proof (cases "rel_to_str rel")
  case None
  then show ?thesis using same_host_daemon [OF same_host_refl] by (simp add: on_event_def)
next
  case (Some s)
  obtain b n1 where 1: "self_written pa root rel n = (b, n1)" by fastforce
  have s1: "same_host n n1" using self_written_inv(1,4,5) [OF 1] by (simp add: same_host_def)
  obtain r n2 where 2: "is_removal ev (root @ rel) n1 = (r, n2)" by fastforce
  have "same_host n1 n2" using 2 path_exists_same_host [of n1 "root @ rel"]
    by (auto simp: is_removal_def split: if_splits prod.splits)
  then have s2: "same_host n n2" by (rule same_host_trans [OF s1])
  obtain q n3 where 3: "enqueue rel n2 = (q, n3)" by fastforce
  have s3: "same_daemon n n3"
    using same_daemon_trans [OF same_host_daemon [OF s2]] enqueue_same_daemon [of n2 rel] 3 by simp
  have s4: "same_daemon n (snd (broadcast_tombstone bc (pa_codec pa) s me n3))"
    "same_daemon n (snd (send_file (pa_blob pa) bc (pa_codec pa) s root me n3))"
    using same_daemon_trans [OF s3] same_host_daemon broadcast_tombstone_same_host send_file_same_host by blast+
  have "same_daemon n (n2\<lparr>sync := x\<rparr>)" for x
    using same_host_daemon [OF s2] by (simp add: same_daemon_def)
  then show ?thesis using Some 1 2 3 same_host_daemon [OF s1] s3 s4
    by (cases b; cases r; cases q) (simp_all add: on_event_def)
qed

lemma watcher_loop_same_daemon: "same_daemon n (watcher_loop root (on_event pa bc root me) [ev] n)"
  using on_event_same_daemon [of n pa bc root me ev] same_host_daemon [OF same_host_refl [of n]]
  by (simp split: list.split option.split)

section \<open>Where the daemon writes\<close>

text \<open>The watched directory, the change log, and the private files with their temporary files.\<close>

definition log_region :: "path \<Rightarrow> path \<Rightarrow> path \<Rightarrow> bool" where
  "log_region root pd q \<longleftrightarrow> strict_prefix root q \<or> prefix q pd \<or> butlast q = pd"

definition private_region :: "path set \<Rightarrow> path \<Rightarrow> bool" where
  "private_region ps q \<longleftrightarrow>
     (\<exists>p\<in>ps. q = p \<or> prefix q (butlast p) \<or> (butlast q = butlast p \<and> suffix ''.tmp'' (last q)))"

text \<open>The three places do not overlap.\<close>

definition apart :: "path \<Rightarrow> path \<Rightarrow> path set \<Rightarrow> bool" where
  "apart root pd ps \<longleftrightarrow> disjoint_dirs root pd \<and> (\<forall>c\<in>set root \<union> set pd. \<not> suffix ''.tmp'' c)
     \<and> (\<forall>p\<in>ps. \<not> prefix root p \<and> \<not> prefix p root \<and> \<not> prefix p pd \<and> \<not> prefix pd p)"

lemma log_region_keeps_layout:
  assumes "store_layout f ps" "apart root pd ps" "dir_path f' pd"
    and same: "\<And>q. log_region root pd q \<or> node_at f' q = node_at f q"
  shows "store_layout f' ps"
  unfolding store_layout_def
proof (rule ballI, intro conjI)
  fix p assume p: "p \<in> ps"
  have ap: "\<not> prefix root p" "\<not> prefix p pd" "\<not> prefix pd p" using assms(2) p by (auto simp: apart_def)
  have sp: "store_path f p" using assms(1) p by (simp add: store_layout_def)
  show "\<forall>c\<in>set p. \<not> suffix ''.tmp'' c" "\<forall>r\<in>ps. \<not> prefix p (butlast r)" using assms(1) p by (auto simp: store_layout_def)
  have up: "\<not> strict_prefix root r \<and> butlast r \<noteq> pd" if "prefix r p" for r
    using that ap prefix_order.trans prefixeq_butlast [of r] by (metis strict_prefix_def)
  have "node_at f' p = node_at f p" using same [of p] up [of p] ap(2) by (auto simp: log_region_def)
  then show "\<forall>t. node_at f' p \<noteq> Some (Symlink t)" using assms(1) p by (simp add: store_layout_def)
  have "dir_at f' r" if r: "prefix r (butlast p)" "node_at f' r \<noteq> None" for r
  proof (cases "prefix r pd")
    case True
    then show ?thesis using assms(3) r(2) by (simp add: dir_path_def)
  next
    case False
    have "prefix r p" using r(1) prefixeq_butlast prefix_order.trans by blast
    then have "node_at f' r = node_at f r" using same [of r] up [of r] False by (auto simp: log_region_def)
    then show ?thesis using sp r by (simp add: store_path_def dir_path_def dir_at_def)
  qed
  then show "store_path f' p" using sp by (simp add: store_path_def dir_path_def)
qed

lemma private_changes_keep_dirs:
  assumes "private_changes ps f f'" "apart root pd ps" "prefix q root \<or> prefix q pd"
  shows "node_at f' q = node_at f q \<or> dir_at f' q"
proof (cases "q = []")
  case False
  have "\<not> suffix ''.tmp'' (last q)"
    using assms(2,3) False last_in_set [OF False] set_mono_prefix unfolding apart_def by (metis UnI1 UnI2 subsetD)
  moreover have "q \<notin> ps" using assms(2,3) by (auto simp: apart_def)
  ultimately show ?thesis using assms(1) unfolding private_changes_def by blast
qed simp

lemma private_changes_keep_watch:
  assumes "watch_inv root pt f" "private_changes ps f f'" "apart root (pending_dir pt) ps" "wf_fs f'"
  shows "watch_inv root pt f'"
proof -
  have keep: "dir_at f' q" if "prefix q root \<or> prefix q (pending_dir pt)" "node_at f q \<noteq> None \<Longrightarrow> dir_at f q" "node_at f' q \<noteq> None" for q
    using private_changes_keep_dirs [OF assms(2,3) that(1)] that(2,3) unfolding dir_at_def by metis
  have r: "dir_at f root" "\<forall>c\<in>set root. normal c" and d: "dir_path f (pending_dir pt)"
    using assms(1) by (simp_all add: watch_inv_def real_dir_def)
  have "dir_at f' root"
    using private_changes_keep_dirs [OF assms(2,3), of root] r(1) unfolding dir_at_def by auto
  moreover have "dir_path f' (pending_dir pt)" using d keep unfolding dir_path_def by blast
  ultimately show ?thesis using assms(4) r(2) by (simp add: watch_inv_def real_dir_def)
qed

section \<open>The invariant of the run\<close>

text \<open>\<open>ps\<close> are the files whose layout is to be kept: at least the private files.\<close>

definition run_inv :: "path set \<Rightarrow> daemon_paths \<Rightarrow> pending_tracker \<Rightarrow> ('b, 'g) daemon \<Rightarrow> bool" where
  "run_inv ps paths pt n \<longleftrightarrow>
     gossip_runtime_invariant (gossip_runtime (daemon_of n)) \<and> paths_of n = paths \<and> ds_pending (daemon_of n) = pt
     \<and> watch_inv (watched_dir_canonical paths) pt (fs n) \<and> host_ok ps n"

definition run_frame :: "daemon_paths \<Rightarrow> pending_tracker \<Rightarrow> fs \<Rightarrow> fs \<Rightarrow> bool" where
  "run_frame paths pt f f' \<longleftrightarrow>
     (\<forall>q. log_region (watched_dir_canonical paths) (pending_dir pt) q \<or> private_region (private_files paths) q
        \<or> node_at f' q = node_at f q)"

lemma run_frame_refl [simp]: "run_frame paths pt f f"
  by (simp add: run_frame_def)

lemma run_frame_trans: "run_frame paths pt f f1 \<Longrightarrow> run_frame paths pt f1 f2 \<Longrightarrow> run_frame paths pt f f2"
  unfolding run_frame_def by metis

definition run_apart :: "path set \<Rightarrow> daemon_paths \<Rightarrow> pending_tracker \<Rightarrow> bool" where
  "run_apart ps paths pt \<longleftrightarrow> private_files paths \<subseteq> ps \<and> apart (watched_dir_canonical paths) (pending_dir pt) ps"

lemma apart_mono: "apart root pd ps \<Longrightarrow> qs \<subseteq> ps \<Longrightarrow> apart root pd qs"
  unfolding apart_def by blast

lemma run_inv_same:
  "run_inv ps paths pt n \<Longrightarrow> fs n' = fs n \<Longrightarrow> paths_of n' = paths_of n \<Longrightarrow> ds_pending (daemon_of n') = ds_pending (daemon_of n) \<Longrightarrow>
     gossip_runtime (daemon_of n') = gossip_runtime (daemon_of n) \<Longrightarrow> run_inv ps paths pt n' \<and> run_frame paths pt (fs n) (fs n')"
  by (simp add: run_inv_def host_ok_def)

lemma run_inv_same_daemon: "run_inv ps paths pt n \<Longrightarrow> same_daemon n n' \<Longrightarrow> run_inv ps paths pt n' \<and> run_frame paths pt (fs n) (fs n')"
  by (rule run_inv_same) (auto simp: same_daemon_def)

text \<open>Changes below the watched directory and in the log.\<close>

lemma run_inv_log:
  assumes "run_inv ps paths pt n" "run_apart ps paths pt" "watch_inv (watched_dir_canonical paths) pt (fs n')"
    and "\<And>q. log_region (watched_dir_canonical paths) (pending_dir pt) q \<or> node_at (fs n') q = node_at (fs n) q"
    and "paths_of n' = paths_of n" "ds_pending (daemon_of n') = ds_pending (daemon_of n)"
    and "gossip_runtime (daemon_of n') = gossip_runtime (daemon_of n)"
  shows "run_inv ps paths pt n' \<and> run_frame paths pt (fs n) (fs n')"
proof -
  have "store_layout (fs n') ps"
    by (rule log_region_keeps_layout [OF _ conjunct2 [OF assms(2) [unfolded run_apart_def]] watch_invD(3) [OF assms(3)] assms(4)])
      (use assms(1) in \<open>simp add: run_inv_def host_ok_def\<close>)
  moreover have "run_frame paths pt (fs n) (fs n')" using assms(4) unfolding run_frame_def by blast
  ultimately show ?thesis
    using assms(1,3,5-7) watch_invD(1) [OF assms(3)] unfolding run_inv_def host_ok_def by simp
qed

lemma dispatch_daemon:
  assumes "dispatch_update pa payload root pt (Some mark_peer_seen) n = (r, n')"
  shows "paths_of n' = paths_of n" "ds_pending (daemon_of n') = ds_pending (daemon_of n)"
    "gossip_runtime (daemon_of n') = gossip_runtime (daemon_of n)"
proof -
  have m: "ds_paths (mark_peer_seen i t ds) = ds_paths ds \<and> ds_pending (mark_peer_seen i t ds) = ds_pending ds
      \<and> gossip_runtime (mark_peer_seen i t ds) = gossip_runtime ds" for i t and ds :: "'b daemon_state"
    by (simp add: mark_peer_seen_def Let_def)
  have "paths_of n' = paths_of n \<and> ds_pending (daemon_of n') = ds_pending (daemon_of n)
      \<and> gossip_runtime (daemon_of n') = gossip_runtime (daemon_of n)"
    using assms
  proof (cases rule: dispatch_cases)
    case (upsert u path hash fmt fr n1)
    then show ?thesis
      using m handle_upsert_sync(4) [OF upsert(4)]
        fs_step_node [OF record_receive_logged_fs_step [of n1 pa pt "upsert_entry pa path hash fr (epoch_secs n) (blobs n1)"]]
      by simp
  next
    case (tombstone u path fr n1)
    then show ?thesis
      using m handle_tombstone_node(2) [OF tombstone(4)]
        fs_step_node [OF record_receive_logged_fs_step [of n1 pa pt "tombstone_entry pa path fr (epoch_secs n)"]]
      by simp
  qed simp
  then show "paths_of n' = paths_of n" "ds_pending (daemon_of n') = ds_pending (daemon_of n)"
    "gossip_runtime (daemon_of n') = gossip_runtime (daemon_of n)" by simp_all
qed

lemma neighbor_up_keeps:
  assumes "neighbor_up i ds = (ps, ds')"
  shows "ds_paths ds' = ds_paths ds" "ds_pending ds' = ds_pending ds" "gossip_runtime ds' = gossip_runtime ds"
  using assms by (auto simp: neighbor_up_def mark_first_join_def drain_pending_initial_def split: if_splits prod.splits bool.splits)

lemma serve_keeps:
  assumes "n' = snd (snd (blobs_accept (with_serve_callback inner mark_peer_seen) i n))"
  shows "paths_of n' = paths_of n" "ds_pending (daemon_of n') = ds_pending (daemon_of n)"
    "gossip_runtime (daemon_of n') = gossip_runtime (daemon_of n)"
  unfolding assms
  by (auto simp: blobs_accept_def with_serve_callback_def call_seen_def mark_peer_seen_def Let_def split: prod.splits sum.splits)

text \<open>One step, of whatever kind.\<close>

lemma run_step_inv:
  assumes step: "run_step pa rp bc env inner s s'" and inv: "run_inv ps paths pt (fst s)" and ap: "run_apart ps paths pt"
    and pa: "peer_api_ok pa" and tf: "tempfile_ok (pa_tempfile (rp_peer rp))" and boot: "bootstrap_codec_ok (rp_boot_codec rp)"
  shows "run_inv ps paths pt (fst s') \<and> run_frame paths pt (fs (fst s)) (fs (fst s'))"
  using step inv
proof (cases rule: run_step.cases)
  case (message n q content)
  have i: "run_inv ps paths pt n" and pp: "paths_of n = paths" "ds_pending (daemon_of n) = pt" using message(1) inv by (simp_all add: run_inv_def)
  obtain r n' where d: "dispatch_update pa content (watched_dir_canonical paths) pt (Some mark_peer_seen) n = (r, n')" by fastforce
  have w: "watch_inv (watched_dir_canonical paths) pt (fs n)" using i by (simp add: run_inv_def)
  have dj: "disjoint_dirs (watched_dir_canonical paths) (pending_dir pt)" using ap by (simp add: run_apart_def apart_def)
  have "run_inv ps paths pt n' \<and> run_frame paths pt (fs n) (fs n')"
    by (rule run_inv_log [OF i ap dispatch_fs(1) [OF d w dj pa]])
      (use dispatch_fs(2) [OF d w dj pa] dispatch_daemon [OF d] in \<open>auto simp: log_region_def\<close>)
  then show ?thesis using message d pp by simp
next
  case (neighbor i n drained ds q)
  then show ?thesis using run_inv_same [of ps paths pt n "peer_node.more_update (\<lambda>_. ds) n"] neighbor_up_keeps [OF neighbor(3)] inv
    by simp
next
  case (flush n rel q)
  then show ?thesis
    using run_inv_same_daemon [OF _ same_host_daemon [OF flush_initial_same_host]] inv by (simp del: flush_initial.simps)
next
  case (event ev n batches q)
  then show ?thesis using run_inv_same_daemon [OF _ watcher_loop_same_daemon] inv by (simp del: watcher_loop.simps)
next
  case (request n q rnd req)
  let ?n' = "snd (rpc_dispatch rp env rnd req n)"
  have i: "run_inv ps paths pt n" and pp: "paths_of n = paths" "ds_pending (daemon_of n) = pt" using request(1) inv by (simp_all add: run_inv_def)
  have sub: "private_files paths \<subseteq> ps" using ap by (simp add: run_apart_def)
  have ok: "host_ok ps n" "host_ok (private_files paths) n"
    using i host_ok_mono [of ps n, OF _ sub] by (simp_all add: run_inv_def)
  have op: "host_ok ps ?n'" "private_changes (private_files paths) (fs n) (fs ?n')"
    using rpc_dispatch_private_op [OF tf boot, of n ps env rnd req] rpc_dispatch_private_op [OF tf boot, of n "private_files paths" env rnd req]
      ok pp(1) sub by (simp_all add: private_op_def)
  have w: "watch_inv (watched_dir_canonical paths) pt (fs ?n')"
    by (rule private_changes_keep_watch [OF _ op(2)]) (use i ap op(1) apart_mono [OF _ sub] in \<open>simp_all add: run_inv_def run_apart_def host_ok_def\<close>)
  have fr: "rpc_frame n ?n'" by (rule rpc_dispatch_frame)
  have "ds_pending (daemon_of ?n') = pt" using fr pp(2) by (auto simp: rpc_frame_def enter_initialized_but_not_subscribed_def)
  then have "run_inv ps paths pt ?n'"
    using i op(1) w rpc_frame_paths [OF fr] pp(1) rpc_dispatch_invariant [of n rp env rnd req] by (simp add: run_inv_def)
  moreover have "run_frame paths pt (fs n) (fs ?n')"
    using op(2) unfolding private_changes_def run_frame_def private_region_def by blast
  ultimately show ?thesis using request by simp
next
  case (serve n q i)
  let ?n' = "snd (snd (blobs_accept (with_serve_callback inner mark_peer_seen) i n))"
  have "run_inv ps paths pt ?n' \<and> run_frame paths pt (fs n) (fs ?n')"
    by (rule run_inv_same) (use inv serve(1) serve_keeps [OF refl] in \<open>simp_all add: blobs_accept_node(1)\<close>)
  then show ?thesis using serve by simp
next
  case (user f n q st t fl)
  let ?n' = "n\<lparr>fs := f, faults := fl, mono_ms := t, sys_time := st\<rparr>"
  have i: "run_inv ps paths pt n" and pp: "paths_of n = paths" using user(1) inv by (simp_all add: run_inv_def)
  have out: "strict_prefix (watched_dir_canonical paths) p \<or> node_at f p = node_at (fs n) p" for p using user(4) pp by auto
  have w: "watch_inv (watched_dir_canonical paths) pt f"
    by (rule watch_inv_keep [of _ _ "fs n", OF _ user(3)]) (use i ap out in \<open>auto simp: run_inv_def run_apart_def apart_def\<close>)
  have "run_inv ps paths pt ?n' \<and> run_frame paths pt (fs n) (fs ?n')"
    by (rule run_inv_log [OF i ap]) (use w out in \<open>auto simp: log_region_def\<close>)
  then show ?thesis using user by simp
qed

text \<open>Any number of steps.\<close>

lemma run_steps_inv:
  assumes "(run_step pa rp bc env inner)\<^sup>*\<^sup>* s s'" "run_inv ps paths pt (fst s)" "run_apart ps paths pt"
    and "peer_api_ok pa" "tempfile_ok (pa_tempfile (rp_peer rp))" "bootstrap_codec_ok (rp_boot_codec rp)"
  shows "run_inv ps paths pt (fst s') \<and> run_frame paths pt (fs (fst s)) (fs (fst s'))"
  using assms(1)
proof (induction rule: rtranclp_induct)
  case base
  then show ?case using assms(2) by simp
next
  case (step s1 s2)
  then have "run_inv ps paths pt (fst s2) \<and> run_frame paths pt (fs (fst s1)) (fs (fst s2))"
    using run_step_inv [OF step(2) _ assms(3-6)] by blast
  then show ?case using step.IH run_frame_trans by blast
qed

end
