(* ===== verification/Props_Run.thy ===== *)
theory Props_Run
  imports Samples Run
begin

text \<open>The property of the whole run: what the daemon may write, whatever happens to it.\<close>




end
