(* ===== verification/Receive_Progress.thy ===== *)
theory Receive_Progress
  imports Event_Loop
begin

text \<open>
  Progress of the receiving side: on a host without I/O errors, an update that may be applied is
  applied.  Each operation of \<open>Receive\<close> returns a success here, so these lemmas complement the
  inversions of \<open>Receive_Laws\<close>, which say what a result implies.
\<close>

section \<open>Single operations\<close>

text \<open>A missing or regular target below real directories is a safe path.\<close>

lemma walk_components_reaches:
  "faults w = [] \<Longrightarrow> wf_fs (fs w) \<Longrightarrow> real_dir (fs w) cur \<Longrightarrow> \<forall>c\<in>set cs. CHR ''/'' \<notin> set c \<Longrightarrow>
     plain (fs w) (cur @ cs) \<Longrightarrow> walk_components cur cs w = (Inr (), w)"
proof (induction cs arbitrary: cur)
  case (Cons c cs)
  have n: "normal c" using Cons.prems(5) by (simp add: plain_def)
  have j: "path_join cur c = cur @ [c]" using path_join_normal n Cons.prems(4) by simp
  have p: "plain (fs w) (cur @ [c])" using plain_prefix [of "fs w" "cur @ [c]" cs] Cons.prems(5) by simp
  have s: "symlink_metadata (cur @ [c]) w
      = (case node_at (fs w) (cur @ [c]) of None \<Rightarrow> Inl NotFound | Some nd \<Rightarrow> Inr nd, w)"
    using k_stat_plain [OF Cons.prems(2) p, of False] Cons.prems(1) by (simp add: symlink_metadata_def syscall_no_fault)
  show ?case
  proof (cases "node_at (fs w) (cur @ [c])")
    case None
    then show ?thesis using s j by (simp add: Let_def)
  next
    case (Some nd)
    have ns: "\<not> is_symlink nd" using p Some by (auto simp: plain_def is_symlink_iff)
    show ?thesis
    proof (cases "cs = []")
      case True
      then show ?thesis using s j Some ns by (simp add: Let_def)
    next
      case False
      have d: "dir_at (fs w) (cur @ [c])" using plain_dirD [of "fs w" "cur @ [c]" cs nd] Cons.prems(5) False Some by simp
      then have "walk_components (cur @ [c]) cs w = (Inr (), w)"
        using Cons.IH [of "cur @ [c]"] Cons.prems n by (simp add: real_dir_def)
      then show ?thesis using s j Some ns d by (auto simp: Let_def dir_at_def)
    qed
  qed
qed simp

lemma resolve_safe_path_plain:
  assumes "faults w = []" "wf_fs (fs w)" "real_dir (fs w) root" "validate_relative_path rel = Inr ()"
    and "plain (fs w) (root @ path_comps rel)"
  shows "resolve_safe_path root rel w = (Inr (root @ path_comps rel), w)"
proof -
  note rc = rel_path_comps [OF assms(4)]
  obtain d where d: "node_at (fs w) root = Some (Dir d)" using assms(3) by (auto simp: real_dir_def dir_at_def)
  have "symlink_metadata root w = (Inr (Dir d), w)"
    using d k_stat_plain [OF assms(2) real_dir_plain [OF assms(2,3)], of False] assms(1)
    by (simp add: symlink_metadata_def syscall_no_fault)
  moreover have "walk_components root (split_on (CHR ''/'') rel) w = (Inr (), w)"
    using walk_components_reaches [OF assms(1-3), of "path_comps rel"] rc(1) assms(5) split_on_no_sep by metis
  ultimately show ?thesis using assms(4) rc(4) by (simp add: resolve_safe_path_def)
qed

lemma path_is_dir_ok:
  assumes "faults w = []" "wf_fs (fs w)" "plain (fs w) p" "dir_at (fs w) p"
  shows "fst (path_is_dir p w)"
  using assms k_stat_plain [OF assms(2,3), of True]
  by (auto simp: path_is_dir_def metadata_def syscall_no_fault dir_at_def)

lemma fs_mkdir_result:
  assumes "faults w = []" "wf_fs (fs w)" "plain (fs w) p"
  shows "fst (fs_mkdir p w) =
    (if node_at (fs w) p \<noteq> None then Inl AlreadyExists else if dir_at (fs w) (butlast p) then Inr () else Inl NotFound)"
  using k_mkdir_plain [OF assms(2,3)] assms(1) by (auto simp: fs_mkdir_def syscall_no_fault)

lemma mkdir_or_dir_ok:
  assumes "faults w = []" "wf_fs (fs w)" "plain (fs w) p"
    and "dir_at (fs w) p \<or> node_at (fs w) p = None \<and> dir_at (fs w) (butlast p)"
  shows "fst (mkdir_or_dir p w) = Inr ()"
proof -
  obtain r w1 where 1: "fs_mkdir p w = (r, w1)" by fastforce
  show ?thesis
  proof (cases r)
    case (Inr u)
    then show ?thesis using 1 by (simp add: mkdir_or_dir_def)
  next
    case (Inl e)
    have w1: "fs w1 = fs w" "faults w1 = []"
      using fs_mkdir_plain [OF 1 assms(2,3)] Inl fs_step_quiet [OF _ assms(1)] by auto
    have "dir_at (fs w) p" using fs_mkdir_result [OF assms(1-3)] 1 Inl assms(4) by (auto split: if_splits)
    then have "fst (path_is_dir p w1)" using path_is_dir_ok [of w1 p] w1 assms(2,3) by simp
    then show ?thesis using 1 Inl by (auto simp: mkdir_or_dir_def split: prod.splits bool.splits)
  qed
qed

lemma create_dir_all_rev_ok:
  "faults w = [] \<Longrightarrow> wf_fs (fs w) \<Longrightarrow> dir_path (fs w) (rev rc) \<Longrightarrow> fst (create_dir_all_rev rc w) = Inr ()"
proof (induction rc arbitrary: w)
  case Nil
  then show ?case using mkdir_or_dir_ok [of w "[]"] by simp
next
  case (Cons c rc)
  let ?p = "rev (c # rc)"
  have pl: "plain (fs w) ?p" by (rule dir_path_plain [OF Cons.prems(3)])
  have dp: "dir_path (fs w) (rev rc)" using dir_path_prefix [OF Cons.prems(3), of "rev rc"] by simp
  obtain r1 w1 where 1: "fs_mkdir ?p w = (r1, w1)" by fastforce
  note m = fs_mkdir_result [OF Cons.prems(1,2) pl]
  show ?case
  proof (cases r1)
    case (Inr u)
    then show ?thesis using 1 by simp
  next
    case (Inl e)
    have w1: "fs w1 = fs w" "faults w1 = []"
      using fs_mkdir_plain [OF 1 Cons.prems(2) pl] Inl fs_step_quiet [OF _ Cons.prems(1)] by auto
    show ?thesis
    proof (cases "node_at (fs w) ?p = None")
      case True
      then have e: "e = NotFound" using m 1 Inl by (auto split: if_splits)
      obtain r2 w2 where 2: "create_dir_all_rev rc w1 = (r2, w2)" by fastforce
      have r2: "r2 = Inr ()" using Cons.IH [of w1] w1 Cons.prems(2) dp 2 by simp
      have "mkdirs_post (rev rc) w1 (create_dir_all_rev rc w1)"
        by (rule create_dir_all_rev_post) (use w1 Cons.prems(2) dp in simp_all)
      then have po: "wf_fs (fs w2)" "dirs_added (rev rc) (fs w) (fs w2)" "dir_at (fs w2) (rev rc)" "fs_step w1 w2"
        using 2 r2 w1 by (simp_all add: mkdirs_post_def)
      have dp2: "dir_path (fs w2) ?p"
        by (rule dir_path_dirs_added [OF Cons.prems(3) po(2)])
      have "fst (mkdir_or_dir ?p w2) = Inr ()"
        by (rule mkdir_or_dir_ok [OF fs_step_quiet [OF po(4) w1(2)] po(1) dir_path_plain [OF dp2]])
          (use po(3) dp2 in \<open>auto simp: dir_path_def\<close>)
      then show ?thesis using 1 2 Inl e r2 by simp
    next
      case False
      then have e: "e \<noteq> NotFound" using m 1 Inl by auto
      have "dir_at (fs w) ?p" using Cons.prems(3) False by (simp add: dir_path_def)
      then have "fst (path_is_dir ?p w1)" using path_is_dir_ok [of w1 ?p] w1 Cons.prems(2) pl by simp
      then show ?thesis using 1 Inl e by (auto split: prod.splits bool.splits)
    qed
  qed
qed

text \<open>What the writer needs of the crate tempfile beyond \<open>tempfile_ok\<close>: a file can be made in a directory.\<close>

definition tempfile_creates :: "tempfile_api \<Rightarrow> bool" where
  "tempfile_creates tf \<longleftrightarrow> (\<forall>d pre suf f l. locate True f d = Inr l \<longrightarrow> dir_at f l \<longrightarrow> \<not> isl (tf_create tf d pre suf f))"

lemma write_via_tempfile_ok:
  assumes tf: "tempfile_ok tf" "tempfile_creates tf" and w: "faults w = []" "wf_fs (fs w)" "real_dir (fs w) d"
    and n: "normal n" "\<not> dir_at (fs w) (d @ [n])"
  shows "fst (write_via_tempfile tf d pre None b (d @ [n]) w) = Inr ()"
proof -
  obtain r1 w1 where 1: "tempfile_in tf d pre ''.tmp'' w = (r1, w1)" by fastforce
  have f1: "faults w1 = []" using fs_step_quiet [OF conjunct1 [OF tempfile_in_inv [OF 1]] w(1)] .
  have "locate True (fs w) d = Inr d" by (rule locate_plain_dir [OF w(2,3)])
  then have "\<not> isl (tf_create tf d pre ''.tmp'' (fs w))" using tf(2) w(3) unfolding tempfile_creates_def real_dir_def by blast
  then have "\<not> isl r1" using 1 w(1) by (auto simp: tempfile_in_def syscall_no_fault split: sum.splits)
  then obtain mid where r1: "r1 = Inr (d @ [pre @ mid @ ''.tmp''], d @ [pre @ mid @ ''.tmp''])"
      and t1: "with_temp (fs w) (d @ [pre @ mid @ ''.tmp'']) '''' 384 (fs w1)"
    using tempfile_in_ok [OF tf(1) w(2,3) 1] by (cases r1) auto
  define t where "t = pre @ mid @ ''.tmp''"
  have nt: "normal t" by (simp add: t_def temp_normal)
  note r1 = r1 [folded t_def] and t1 = t1 [folded t_def]
  let ?f2 = "AList.update (d @ [t]) (File b 384) (fs w1)"
  have 2: "fs_write (d @ [t]) b w1 = (Inr (), w1\<lparr>fs := ?f2\<rparr>)"
    using f1 t1 by (simp add: fs_write_def syscall_no_fault k_write_def with_temp_def)
  have t2: "with_temp (fs w) (d @ [t]) b 384 ?f2" by (rule with_temp_again [OF w(2) t1])
  obtain r3 w3 where 3: "tempfile_persist tf (d @ [t]) (d @ [n]) (w1\<lparr>fs := ?f2\<rparr>) = (r3, w3)" by fastforce
  have "r3 = fst (k_rename (d @ [t]) (d @ [n]) ?f2)"
    using 3 f1 tf(1) by (auto simp: tempfile_persist_def syscall_no_fault tempfile_ok_def)
  moreover have "fst (k_rename (d @ [t]) (d @ [n]) ?f2) = Inr ()"
  proof -
    have rd: "real_dir ?f2 d" by (rule with_temp_dir [OF t2 w(3)])
    have wf: "wf_fs ?f2" using t2 by (simp add: with_temp_def)
    have "locate False ?f2 (d @ [t]) = Inr (d @ [t])" "locate False ?f2 (d @ [n]) = Inr (d @ [n])"
      using wf rd nt n(1) by (auto intro: locate_child)
    moreover have "\<not> dir_at ?f2 (d @ [n])" using t2 n(2) by (auto simp: with_temp_def dir_at_def)
    moreover have "node_at ?f2 (d @ [t]) = Some (File b 384)" using t2 by (simp add: with_temp_def)
    ultimately have "fst (k_rename (d @ [t]) (d @ [n]) g) = Inr ()" if "g = ?f2" for g
      using that by (auto simp: k_rename_def dir_at_def simp del: node_at_update split: option.splits node.splits)
    then show ?thesis by blast
  qed
  ultimately show ?thesis using 1 2 3 r1 by (simp add: write_via_tempfile_def)
qed

section \<open>An upsert\<close>

text \<open>The old content can be moved away unless a directory is where the backup goes.\<close>

lemma backup_local_ok:
  assumes "faults w = []" "wf_fs (fs w)" "plain (fs w) (d @ [n])" "\<not> dir_at (fs w) (d @ [n])"
    and "\<not> dir_at (fs w) (backup_path ids d n i)"
  shows "fst (backup_local ids (d @ [n]) b i w) = Inr ()" "faults (snd (backup_local ids (d @ [n]) b i w)) = []"
proof -
  have n: "normal n" using assms(3) by (simp add: plain_def)
  obtain c w1 where 1: "compute_conflict_backup_path ids (d @ [n]) b i w = (c, w1)" by fastforce
  note ci = compute_conflict_backup_path_inv [OF 1 n]
  have q1: "faults w1 = []" by (rule fs_step_quiet [OF ci(1) assms(1)])
  have "fst (backup_local ids (d @ [n]) b i w) = Inr () \<and> faults (snd (backup_local ids (d @ [n]) b i w)) = []"
  proof (cases c)
    case None
    then show ?thesis using 1 q1 by (simp add: backup_local_def)
  next
    case (Some bp)
    then have bp: "bp = backup_path ids d n i" using ci(3) by simp
    obtain old where "fst (k_read (d @ [n]) (fs w)) = Inr old" using ci(4) Some by auto
    then obtain m where f: "node_at (fs w) (d @ [n]) = Some (File old m)"
      using k_read_plain [OF assms(2,3)] by (auto split: option.splits node.splits)
    have rd: "real_dir (fs w) d" using plain_parent_real [OF assms(2,3)] f by simp
    have l: "locate False (fs w) (d @ [n]) = Inr (d @ [n])" "locate False (fs w) bp = Inr bp"
      unfolding bp by (rule locate_child [OF assms(2) rd n], rule locate_child [OF assms(2) rd conflict_backup_normal])
    have nd: "node_at (fs w) bp \<noteq> Some (Dir m)" for m using assms(5) bp by (auto simp: dir_at_def)
    obtain r2 w2 where 2: "fs_rename (d @ [n]) bp w1 = (r2, w2)" by fastforce
    have "r2 = fst (k_rename (d @ [n]) bp (fs w))" using 2 q1 ci(2) by (auto simp: fs_rename_def syscall_no_fault)
    also have "\<dots> = Inr ()" using l f nd by (auto simp: k_rename_def split: option.splits node.splits)
    finally show ?thesis using 1 2 Some fs_step_quiet [OF syscall_fs_step [OF 2 [unfolded fs_rename_def]] q1] by (simp add: backup_local_def)
  qed
  then show "fst (backup_local ids (d @ [n]) b i w) = Inr ()" "faults (snd (backup_local ids (d @ [n]) b i w)) = []" by simp_all
qed

lemma write_upsert_ok:
  assumes tf: "tempfile_ok tf" "tempfile_creates tf"
    and w: "faults w = []" "wf_fs (fs w)" "plain (fs w) (d @ [n])" "\<not> dir_at (fs w) (d @ [n])"
    and bp: "\<not> dir_at (fs w) (backup_path ids d n i)"
  shows "fst (write_upsert ids tf (d @ [n]) b i w) = Inr ()"
proof -
  have n: "normal n" using w(3) by (simp add: plain_def)
  obtain r1 w1 where 1: "backup_local ids (d @ [n]) b i w = (r1, w1)" by fastforce
  have r1: "r1 = Inr ()" "faults w1 = []" using backup_local_ok [OF w bp, of b] 1 by simp_all
  note p1 = backup_local_post [OF 1 w(2,3)]
  have same: "node_at (fs w1) q = node_at (fs w) q \<or> q = d @ [n] \<and> node_at (fs w1) q = None
      \<or> q = backup_path ids d n i \<and> (\<exists>b m. node_at (fs w1) q = Some (File b m))" for q
    using p1(3) by (auto split: if_splits)
  have dp: "dir_path (fs w1) d"
    unfolding dir_path_def
  proof (intro conjI ballI allI impI)
    show "normal c" if "c \<in> set d" for c using that w(3) by (auto simp: plain_def)
    fix q assume q: "prefix q d" "node_at (fs w1) q \<noteq> None"
    then have "q \<noteq> d @ [x]" for x by (auto simp: prefix_def)
    then have "node_at (fs w1) q = node_at (fs w) q" using same [of q] by blast
    then show "dir_at (fs w1) q" using plain_dir_path [OF w(3)] q by (simp add: dir_path_def dir_at_def)
  qed
  obtain r2 w2 where 2: "create_dir_all d w1 = (r2, w2)" by fastforce
  have r2: "r2 = Inr ()" "faults w2 = []"
    using create_dir_all_rev_ok [of w1 "rev d"] fs_step_quiet [OF create_dir_all_fs_step [OF 2]] r1(2) p1(2) dp 2
    by (simp_all add: create_dir_all_def)
  note p2 = create_dir_all_inv [OF 2 p1(2) dp]
  have "\<not> dir_at (fs w1) (d @ [n])" using same [of "d @ [n]"] w(4) by (auto simp: dir_at_def)
  moreover have "\<not> prefix (d @ [n]) d" by (simp add: prefix_def)
  ultimately have "\<not> dir_at (fs w2) (d @ [n])" using p2(3) unfolding dirs_added_def dir_at_def by metis
  then have "fst (write_via_tempfile tf d ''.dirhive.'' None b (d @ [n]) w2) = Inr ()"
    by (intro write_via_tempfile_ok [OF tf r2(2) p2(2) p2(5) [OF r2(1)] n])
  then show ?thesis using 1 2 r1 r2 by (auto simp: write_upsert_def path_parent_def split: prod.splits)
qed

text \<open>The sender can be reached and serves a complete blob of the right size.\<close>

definition blob_available :: "'b peer_api \<Rightarrow> endpoint_id \<Rightarrow> blob_hash \<Rightarrow> blob_format \<Rightarrow> bytes \<Rightarrow> 'b \<Rightarrow> bool" where
  "blob_available pa i hash fmt bytes b \<longleftrightarrow>
     (case ensure_blob_local (pa_ids pa) (pa_blob pa) i hash fmt b of
        (Inl _, _) \<Rightarrow> False
      | (Inr _, b1) \<Rightarrow> bl_size (pa_blob pa) hash b1 = Inr (length bytes) \<and> bl_read (pa_blob pa) hash b1 = Inr bytes)"

text \<open>A place where a file may be written: not reached through a link, no directory, nor is its backup.\<close>

definition writable_target :: "id_api \<Rightarrow> path \<Rightarrow> str \<Rightarrow> endpoint_id \<Rightarrow> fs \<Rightarrow> bool" where
  "writable_target ids root rel i f \<longleftrightarrow>
     validate_relative_path rel = Inr () \<and> plain f (root @ path_comps rel) \<and> \<not> dir_at f (root @ path_comps rel)
     \<and> \<not> dir_at f (backup_path ids (target_dir root rel) (target_name rel) i)"

lemma handle_upsert_ok:
  assumes pa: "peer_api_ok pa" "tempfile_creates (pa_tempfile pa)"
    and n: "faults n = []" "wf_fs (fs n)" "real_dir (fs n) root"
    and t: "writable_target (pa_ids pa) root rel i (fs n)"
    and b: "blob_available pa i hash fmt bytes (blobs n)" "length bytes \<le> MAX_FILE_SIZE"
  shows "\<exists>n'. handle_upsert pa rel hash fmt i root n = (Inr Applied, n')
    \<and> node_at (fs n') (root @ path_comps rel) = Some (File bytes 384)"
proof -
  have v: "validate_relative_path rel = Inr ()" and pl: "plain (fs n) (root @ path_comps rel)"
    using t by (simp_all add: writable_target_def)
  have tp: "root @ path_comps rel = target_dir root rel @ [target_name rel]" by (rule target_path [OF rel_path_comps(2) [OF v]])
  obtain b1 where b1: "ensure_blob_local (pa_ids pa) (pa_blob pa) i hash fmt (blobs n) = (Inr (), b1)"
    "bl_size (pa_blob pa) hash b1 = Inr (length bytes)" "bl_read (pa_blob pa) hash b1 = Inr bytes"
    using b(1) by (auto simp: blob_available_def split: prod.splits sum.splits)
  let ?n1 = "n\<lparr>sync := guard_new rel hash (sync n), blobs := b1\<rparr>"
  obtain r n2 where w: "write_upsert (pa_ids pa) (pa_tempfile pa) (root @ path_comps rel) bytes i ?n1 = (r, n2)" by fastforce
  have r: "r = Inr ()"
    using write_upsert_ok [of "pa_tempfile pa" ?n1 "target_dir root rel" "target_name rel" "pa_ids pa" i bytes] w pa n t tp
    by (simp add: writable_target_def peer_api_okD)
  have "node_at (fs n2) (root @ path_comps rel) = Some (File bytes 384)"
    using write_upsert_post(4) [OF w [unfolded tp]] r n(2) pl peer_api_okD(1,4) [OF pa(1)] by (simp add: tp)
  moreover have "upsert_guarded pa (root @ path_comps rel) hash fmt i (n\<lparr>sync := guard_new rel hash (sync n)\<rparr>) = (Inr (), n2)"
    using b1 b(2) w r by (simp add: upsert_guarded_def Let_def blob_size_def read_blob_bytes_def)
  ultimately show ?thesis
    using resolve_safe_path_plain [OF n v pl] by (simp add: handle_upsert_def Let_def)
qed

section \<open>A tombstone\<close>

lemma handle_tombstone_ok:
  assumes "faults n = []" "wf_fs (fs n)" "real_dir (fs n) root" "validate_relative_path rel = Inr ()"
    and "plain (fs n) (root @ path_comps rel)" "\<not> dir_at (fs n) (root @ path_comps rel)"
  shows "\<exists>n'. handle_tombstone rel root n = (Inr Applied, n') \<and> node_at (fs n') (root @ path_comps rel) = None"
proof -
  obtain r n' where h: "handle_tombstone rel root n = (r, n')" by fastforce
  let ?n1 = "n\<lparr>sync := (sync n)\<lparr>last_removed := insert (path_comps rel) (last_removed (sync n))\<rparr>\<rparr>"
  have k: "k_remove_file (root @ path_comps rel) (fs n) =
      (case node_at (fs n) (root @ path_comps rel) of None \<Rightarrow> (Inl NotFound, fs n)
       | Some nd \<Rightarrow> if is_dir nd then (Inl IsADirectory, fs n) else (Inr (), AList.delete (root @ path_comps rel) (fs n)))"
    by (rule k_remove_file_plain [OF assms(2,5)])
  have "r = Inr Applied"
    using h resolve_safe_path_plain [OF assms(1-5)] k assms(1,6)
    by (auto simp: handle_tombstone_def Let_def remove_file_def syscall_no_fault dir_at_def is_dir_iff
        split: option.splits if_splits)
  then show ?thesis using h handle_tombstone_fs(3) [OF h assms(2) real_dir_plain [OF assms(2,3)]] by simp
qed

section \<open>A message\<close>

lemma dispatch_upsert_ok:
  assumes pa: "peer_api_ok pa" "tempfile_creates (pa_tempfile pa)"
    and n: "faults n = []" "watch_inv root pt (fs n)" "disjoint_dirs root (pending_dir pt)"
    and u: "from_bytes (pa_codec pa) payload = Inr u" "su_body u = Upsert rel hash fmt fr" "al_contains (allow n) (peer_id fr)"
    and t: "writable_target (pa_ids pa) root rel (peer_id fr) (fs n)"
    and b: "blob_available pa (peer_id fr) hash fmt bytes (blobs n)" "length bytes \<le> MAX_FILE_SIZE"
  shows "\<exists>n'. dispatch_update pa payload root pt cb n = (Inr Applied, n')
    \<and> node_at (fs n') (root @ path_comps rel) = Some (File bytes 384)"
proof -
  obtain n1 where h: "handle_upsert pa rel hash fmt (peer_id fr) root n = (Inr Applied, n1)"
      "node_at (fs n1) (root @ path_comps rel) = Some (File bytes 384)"
    using handle_upsert_ok [OF pa n(1) watch_invD(1,2) [OF n(2)] t b] by blast
  obtain n' where d: "dispatch_update pa payload root pt cb n = (Inr Applied, n')"
    and e: "n' = call_seen cb (peer_id fr) (epoch_secs n) (record_receive_logged pa pt (upsert_entry pa rel hash fr (epoch_secs n) (blobs n1)) n1)"
    using dispatch_upsert_eq [OF u h(1), of pt cb] by simp
  have i1: "watch_inv root pt (fs n1)"
    by (rule watch_inv_keep [OF n(2) handle_upsert_fs(1) [OF h(1) watch_invD(1,4) [OF n(2)] pa(1)] n(3)
          handle_upsert_outside [OF h(1) watch_invD(1,4) [OF n(2)] pa(1)]])
  have "node_at (fs n') (root @ path_comps rel) = node_at (fs n1) (root @ path_comps rel)"
    unfolding e using log_keeps_target [OF i1 n(3) pa(1), of _ "root @ path_comps rel"] id_hex [OF pa(1)] rel_path_comps(2) t
    by (simp add: writable_target_def)
  then show ?thesis using d h(2) by auto
qed

text \<open>A tombstone of a peer that may write, for a path that is no directory.\<close>

lemma dispatch_tombstone_ok:
  assumes pa: "peer_api_ok pa"
    and n: "faults n = []" "watch_inv root pt (fs n)" "disjoint_dirs root (pending_dir pt)"
    and u: "from_bytes (pa_codec pa) payload = Inr u" "su_body u = Tombstone rel fr" "al_contains (allow n) (peer_id fr)"
    and t: "plain (fs n) (root @ path_comps rel)" "\<not> dir_at (fs n) (root @ path_comps rel)"
  shows "\<exists>n'. dispatch_update pa payload root pt cb n = (Inr Applied, n') \<and> node_at (fs n') (root @ path_comps rel) = None"
proof -
  have v: "validate_relative_path rel = Inr ()" using u(1,2) by (auto simp: from_bytes_iff su_path_def)
  obtain n1 where h: "handle_tombstone rel root n = (Inr Applied, n1)" "node_at (fs n1) (root @ path_comps rel) = None"
    using handle_tombstone_ok [OF n(1) watch_invD(1,2) [OF n(2)] v t] by blast
  obtain n' where d: "dispatch_update pa payload root pt cb n = (Inr Applied, n')"
    and e: "n' = call_seen cb (peer_id fr) (epoch_secs n) (record_receive_logged pa pt (tombstone_entry pa rel fr (epoch_secs n)) n1)"
    using dispatch_tombstone_eq [OF u h(1), of pt cb] by simp
  have i1: "watch_inv root pt (fs n1)"
    by (rule watch_inv_keep [OF n(2) handle_tombstone_fs(1) [OF h(1) watch_invD(1,4) [OF n(2)]] n(3)
          handle_tombstone_fs(4) [OF h(1) watch_invD(1,4) [OF n(2)]]])
  have "node_at (fs n') (root @ path_comps rel) = node_at (fs n1) (root @ path_comps rel)"
    unfolding e using log_keeps_target [OF i1 n(3) pa, of _ "root @ path_comps rel"] id_hex [OF pa] rel_path_comps(2) [OF v]
    by simp
  then show ?thesis using d h(2) by auto
qed

section \<open>A message that arrives twice\<close>

text \<open>Writing what is there already leaves no backup and no change, at most a temporary file after an error.\<close>

lemma write_upsert_again:
  assumes "write_upsert ids tf (d @ [n]) b i w = (r, w')" "wf_fs (fs w)" "plain (fs w) (d @ [n])" "tempfile_ok tf"
    and "node_at (fs w) (d @ [n]) = Some (File b 384)"
  shows "leftover d ''.dirhive.'' (fs w) (fs w')"
proof -
  have n: "normal n" using assms(3) by (simp add: plain_def)
  obtain r1 w1 where 1: "backup_local ids (d @ [n]) b i w = (r1, w1)" by fastforce
  have w1: "fs w1 = fs w" using backup_local_post(3) [OF 1 assms(2,3)] assms(5) by auto
  have rd: "real_dir (fs w) d" using plain_parent_real [OF assms(2,3)] assms(5) by simp
  have dp: "dir_path (fs w1) d" using plain_dir_path [OF assms(3)] w1 by simp
  obtain r2 w2 where 2: "create_dir_all d w1 = (r2, w2)" by fastforce
  note p2 = create_dir_all_inv [OF 2 _ dp]
  have "node_at (fs w) q \<noteq> None" if "prefix q d" for q
  proof -
    obtain z where z: "d = q @ z" using \<open>prefix q d\<close> by (auto simp: prefix_def)
    show ?thesis using rd z wf_fs_prefix_dir [OF assms(2), of q z] by (cases "z = []") (auto simp: real_dir_def dir_at_def)
  qed
  then have w2: "wf_fs (fs w2)" "node_at (fs w2) = node_at (fs w)"
    using p2(2,3) w1 assms(2) unfolding dirs_added_def by (simp, simp add: fun_eq_iff) (metis option.distinct(1))
  have rd2: "real_dir (fs w2) d" using rd w2(2) by (simp add: real_dir_def dir_at_def)
  obtain r3 w3 where 3: "write_via_tempfile tf d ''.dirhive.'' None b (d @ [n]) w2 = (r3, w3)" by fastforce
  have "write_post d ''.dirhive.'' None b (d @ [n]) w2 (r3, w3)"
    using write_via_tempfile_post [OF assms(4) w2(1) rd2 n, of "''.dirhive.''" None b] 3 by simp
  then have w3: "leftover d ''.dirhive.'' (fs w) (fs w3)"
    using w2(2) assms(5) by (auto simp: write_post_def leftover_def fun_eq_iff split: sum.splits)
  have "fs w' = fs w \<or> node_at (fs w') = node_at (fs w) \<or> w' = w3"
    using assms(1) 1 2 3 w1 w2(2)
    by (cases r1; cases r2; cases r3) (auto simp: write_upsert_def path_parent_def)
  then show ?thesis using w3 by (auto simp: leftover_def)
qed

lemma handle_upsert_again:
  assumes "handle_upsert pa rel hash fmt i root n = (r, n')" "wf_fs (fs n)" "plain (fs n) root" "peer_api_ok pa"
    and "inj (hash_new (pa_blob pa))" "hash_new (pa_blob pa) b = hash" "node_at (fs n) (root @ path_comps rel) = Some (File b 384)"
  shows "leftover (target_dir root rel) ''.dirhive.'' (fs n) (fs n')"
proof -
  obtain r1 n1 where 1: "resolve_safe_path root rel n = (r1, n1)" by fastforce
  note rs = resolve_safe_path_inv [OF 1]
  show ?thesis
  proof (cases r1)
    case (Inl e)
    then have "n' = n1" using assms(1) 1 by (simp add: handle_upsert_def)
    then show ?thesis using rs(2) by (simp add: leftover_def)
  next
    case (Inr p)
    note sp = rs(3) [OF Inr] rs(4) [OF Inr assms(2,3)]
    have tp: "root @ path_comps rel = target_dir root rel @ [target_name rel]"
      by (rule target_path [OF rel_path_comps(2)]) (use sp in blast)
    obtain r2 n2 where 2: "upsert_guarded pa p hash fmt i (n1\<lparr>sync := guard_new rel hash (sync n1)\<rparr>) = (r2, n2)" by fastforce
    have f: "fs n' = fs n2" using assms(1) 1 2 Inr by (cases r2) (auto simp: handle_upsert_def Let_def)
    show ?thesis
      using 2
    proof (cases rule: upsert_guarded_inv)
      case no_write
      then show ?thesis using f rs(2) by (simp add: leftover_def)
    next
      case (wrote b' b1 sz rw)
      have "hash_new (pa_blob pa) b' = hash" using wrote(1) peer_api_okD(2) [OF assms(4)] unfolding blob_ok_def by blast
      then have "b' = b" using assms(5,6) by (auto dest: injD)
      then show ?thesis
        using write_upsert_again [OF wrote(5) [folded tp [symmetric], unfolded sp(1) [THEN conjunct1] tp]] wrote sp rs(2) f tp assms
          peer_api_okD(4) [OF assms(4)] by simp
    qed
  qed
qed

section \<open>Two edits at the same time\<close>

text \<open>
  A host on which the file \<open>rel\<close> has the content \<open>x\<close>, and which can receive the content \<open>y\<close> from the
  peer \<open>fr\<close>; and a host that announces nothing when the watcher reports the file.
\<close>

definition edited_host ::
  "'b peer_api \<Rightarrow> path \<Rightarrow> pending_tracker \<Rightarrow> str \<Rightarrow> bytes \<times> mode \<Rightarrow> peer_ref \<Rightarrow> bytes \<Rightarrow> ('b, 'g) daemon \<Rightarrow> bool" where
  "edited_host pa root pt rel x fr y n \<longleftrightarrow>
     faults n = [] \<and> watch_inv root pt (fs n) \<and> disjoint_dirs root (pending_dir pt) \<and> al_contains (allow n) (peer_id fr)
     \<and> node_at (fs n) (root @ path_comps rel) = Some (File (fst x) (snd x))
     \<and> writable_target (pa_ids pa) root rel (peer_id fr) (fs n)
     \<and> blob_available pa (peer_id fr) (hash_new (pa_blob pa) y) Raw y (blobs n) \<and> length y \<le> MAX_FILE_SIZE"

definition quiet_about ::
  "'b peer_api \<Rightarrow> 'b gossip_api \<Rightarrow> path \<Rightarrow> peer_ref \<Rightarrow> str \<Rightarrow> ('b, 'g) daemon \<Rightarrow> bool" where
  "quiet_about pa bc root self rel n \<longleftrightarrow>
     (\<forall>ev ps later. fs later = fs n \<longrightarrow> sync later = sync n \<longrightarrow> faults later = [] \<longrightarrow>
        ev_paths ev = (root @ path_comps rel) # ps \<longrightarrow>
        blobs (watcher_loop root (on_event pa bc root self) [ev] (later :: ('b, 'g) daemon)) = blobs later
        \<and> fs (watcher_loop root (on_event pa bc root self) [ev] later) = fs later)"

lemma dispatch_upsert_backup:
  assumes d: "dispatch_update pa payload root pt cb n = (Inr Applied, n')"
    and u: "from_bytes (pa_codec pa) payload = Inr u" "su_body u = Upsert rel hash fmt fr"
    and i: "watch_inv root pt (fs n)" and dj: "disjoint_dirs root (pending_dir pt)" and ok: "peer_api_ok pa"
    and f: "faults n = []" "node_at (fs n) (root @ path_comps rel) = Some (File old m)" "hash_new (pa_blob pa) old \<noteq> hash"
  shows "node_at (fs n') (backup_path (pa_ids pa) (target_dir root rel) (target_name rel) (peer_id fr)) = Some (File old m)"
  using d
proof (cases rule: dispatch_cases)
  case (upsert u' path' hash' fmt' fr' n1)
  then have eq: "u' = u" "path' = rel" "hash' = hash" "fr' = fr" using u by auto
  note up = upsert(4) [unfolded eq]
  let ?bp = "backup_path (pa_ids pa) (target_dir root rel) (target_name rel) (peer_id fr)"
  have b: "node_at (fs n1) ?bp = Some (File old m)"
    using handle_upsert_fs(3) [OF up watch_invD(1,4) [OF i] ok] f by blast
  have i1: "watch_inv root pt (fs n1)"
    by (rule watch_inv_keep [OF i handle_upsert_fs(1) [OF up watch_invD(1,4) [OF i] ok] dj
          handle_upsert_outside [OF up watch_invD(1,4) [OF i] ok]])
  have p: "prefix root ?bp" "?bp \<noteq> root" by (simp_all add: target_dir_def)
  show ?thesis
    using log_keeps_target [OF i1 dj ok _ p, of "upsert_entry pa rel hash fr (epoch_secs n) (blobs n1)"]
      id_hex [OF ok] b upsert(5) eq by simp
qed (use u in auto)

lemma applied_upsert_quiet:
  assumes "dispatch_update pa payload root pt cb n = (Inr Applied, n')"
    and "from_bytes (pa_codec pa) payload = Inr u" "su_body u = Upsert rel hash fmt fr" "utf8_valid rel"
    and "watch_inv root pt (fs n)" "disjoint_dirs root (pending_dir pt)" "peer_api_ok pa"
  shows "quiet_about pa bc root self rel n'"
  unfolding quiet_about_def
proof (intro allI impI)
  fix ev :: debounced_event and ps and later :: "('a, 'b) daemon"
  assume l: "fs later = fs n'" "sync later = sync n'" "faults later = []" "ev_paths ev = (root @ path_comps rel) # ps"
  obtain b where b: "hash_new (pa_blob pa) b = hash" "last_written (sync n') (path_comps rel) = Some hash"
      "node_at (fs n') (root @ path_comps rel) = Some (File b 384)"
    using dispatch_upsert_applied [OF assms(1-3,5-7)] by blast
  have v: "validate_relative_path rel = Inr ()" using assms(2,3) by (auto simp: from_bytes_iff su_path_def)
  have i: "watch_inv root pt (fs n')" by (rule dispatch_fs(1) [OF assms(1,5-7)])
  note rc = rel_path_comps [OF v]
  have "fst (self_written pa root (path_comps rel) later)"
    by (rule self_written_file [of _ _ _ b _ 384]) (use b l watch_invD(1,2) [OF i] rc(3) in auto)
  then show "blobs (watcher_loop root (on_event pa bc root self) [ev] later) = blobs later
      \<and> fs (watcher_loop root (on_event pa bc root self) [ev] later) = fs later"
    using on_event_own_write [of "path_comps rel" pa root later] rel_to_str_comps [OF v assms(4)] l(4) rc(2) by (simp add: Let_def)
qed

lemma edited_host_receives:
  assumes pa: "peer_api_ok pa" "tempfile_creates (pa_tempfile pa)"
    and e: "edited_host pa root pt rel x fr y n" and u: "from_bytes (pa_codec pa) payload = Inr u"
      "su_body u = Upsert rel (hash_new (pa_blob pa) y) Raw fr" "utf8_valid rel"
    and d: "hash_new (pa_blob pa) (fst x) \<noteq> hash_new (pa_blob pa) y"
  shows "\<exists>n'. dispatch_update pa payload root pt cb n = (Inr Applied, n')
    \<and> node_at (fs n') (root @ path_comps rel) = Some (File y 384)
    \<and> node_at (fs n') (backup_path (pa_ids pa) (target_dir root rel) (target_name rel) (peer_id fr)) = Some (File (fst x) (snd x))
    \<and> quiet_about pa bc root self rel n'"
proof -
  have h: "faults n = []" "watch_inv root pt (fs n)" "disjoint_dirs root (pending_dir pt)" "al_contains (allow n) (peer_id fr)"
      "writable_target (pa_ids pa) root rel (peer_id fr) (fs n)" "node_at (fs n) (root @ path_comps rel) = Some (File (fst x) (snd x))"
      "blob_available pa (peer_id fr) (hash_new (pa_blob pa) y) Raw y (blobs n)" "length y \<le> MAX_FILE_SIZE"
    using e by (simp_all add: edited_host_def)
  obtain n' where n': "dispatch_update pa payload root pt cb n = (Inr Applied, n')"
      "node_at (fs n') (root @ path_comps rel) = Some (File y 384)"
    using dispatch_upsert_ok [OF pa h(1-3) u(1,2) h(4,5,7,8), where cb = cb] by blast
  show ?thesis
    using n' dispatch_upsert_backup [OF n'(1) u(1,2) h(2,3) pa(1) h(1,6) d] applied_upsert_quiet [OF n'(1) u h(2,3) pa(1)]
    by blast
qed

end
