(* ===== verification/Props_Delivery.thy ===== *)
theory Props_Delivery
  imports Samples Receive_Progress
begin

text \<open>
  Delivery from one peer to another: an announced change arrives, on every host where it may, and a
  message that arrives twice does no harm.
\<close>

lemma tmp_files_creates: "tempfile_creates tmp_files"
  by (auto simp: tempfile_creates_def tmp_files_def tmp_create_def Let_def dir_at_def)

section \<open>Changes\<close>

text \<open>
  C13: A changed file reaches the peer: without I/O errors, and with a gossip layer that takes the
  message, \<open>send_file\<close> of a regular file within the limit succeeds, and a peer that allows the sender,
  can fetch the blob and has no directory or link in the way applies the message; its file then has
  exactly the sender's bytes.
\<close>

theorem changed_file_reaches_the_peer:
  assumes api: "peer_api_ok pa" "tempfile_creates (pa_tempfile pa)"
    and a: "faults a = []" "wf_fs (fs a)" "real_dir (fs a) rootA" "validate_relative_path rel = Inr ()"
      "node_at (fs a) (rootA @ path_comps rel) = Some (File bytes mode)" "length bytes \<le> MAX_FILE_SIZE"
      "bl_add (pa_blob pa) bytes (blobs a) = (Inr hash, b1)" "\<forall>m. fst (bc m b1) = Inr ()"
    and b: "faults b = []" "watch_inv rootB pt (fs b)" "disjoint_dirs rootB (pending_dir pt)"
      "al_contains (allow b) (peer_id self)" "writable_target (pa_ids pa) rootB rel (peer_id self) (fs b)"
      "blob_available pa (peer_id self) (hash_new (pa_blob pa) bytes) Raw bytes (blobs b)"
  shows "\<exists>payload a' b'. send_file (pa_blob pa) bc (pa_codec pa) rel rootA self a = (Inr (), a')
    \<and> blobs a' = snd (bc payload b1)
    \<and> dispatch_update pa payload rootB pt cb b = (Inr Applied, b')
    \<and> node_at (fs b') (rootB @ path_comps rel) = Some (File bytes 384)"
proof -
  let ?u = "\<lparr>su_version = 2, su_body = Upsert rel hash Raw self\<rparr>"
  have h: "hash = hash_new (pa_blob pa) bytes" using peer_api_okD(2) [OF api(1)] a(7) by (auto simp: blob_ok_def)
  obtain payload where p: "to_bytes (pa_codec pa) ?u = Inr payload" "from_bytes (pa_codec pa) payload = Inr ?u"
    using to_bytes_from_bytes [OF peer_api_okD(3) [OF api(1)], of ?u] a(4) by (auto simp: su_path_def)
  have "bc payload b1 = (Inr (), snd (bc payload b1))" using a(8) by (metis prod.collapse)
  then have s: "send_file (pa_blob pa) bc (pa_codec pa) rel rootA self a = (Inr (),
      a\<lparr>blobs := snd (bc payload b1), sync := (sync a)\<lparr>last_written := (last_written (sync a))(path_comps rel \<mapsto> hash)\<rparr>\<rparr>)"
    by (rule send_file_no_faults [OF a(1-7) p(1)])
  have "\<exists>b'. dispatch_update pa payload rootB pt cb b = (Inr Applied, b')
      \<and> node_at (fs b') (rootB @ path_comps rel) = Some (File bytes 384)"
    by (rule dispatch_upsert_ok [OF api b(1-3) p(2) _ b(4,5) _ a(6)]) (use b(6) h in simp_all)
  then show ?thesis using s by auto
qed

theorem changed_file_reaches_the_peer_witness:
  "\<exists>payload a' b'. send_file stack_blobs stack_gossip wire_codec ''a.txt'' [''w''] \<lparr>peer_id = alice\<rparr> sender_host = (Inr (), a')
    \<and> st_outbox (blobs a') = [payload]
    \<and> dispatch_update stack_peer payload [''w''] host_pending None host = (Inr Applied, b')
    \<and> node_at (fs b') [''w'', ''a.txt''] = Some (File ''new'' 384)"
proof -
  have pc: "path_comps ''a.txt'' = [''a.txt'']" by code_simp
  have root: "real_dir (fs sender_host) [''w'']"
    by (simp add: real_dir_def dir_at_def node_at_def sender_host_def normal_def)
  have t: "writable_target hex_ids [''w''] ''a.txt'' alice (fs host)"
    using present_file_plain [OF host_wf host_root(1), of "[''a.txt'']"] host_file sample_valid
    by (simp add: writable_target_def pc normal_def dir_at_def target_dir_def) (simp add: node_at_def host_fs_def)
  have av: "blob_available stack_peer alice (hash_new stack_blobs ''new'') Raw ''new'' (blobs host)"
    by (simp add: blob_available_def ensure_blob_local_def stack_blobs_def host_stack_def)
  have al: "al_contains (allow host) alice" by (simp add: al_contains_def alice_only_def)
  show ?thesis
    using changed_file_reaches_the_peer [of stack_peer sender_host "[''w'']" "''a.txt''" "''new''" 420 "BlobHash ''new''"
        "host_stack\<lparr>st_local := [''new'']\<rparr>" stack_gossip host "[''w'']" host_pending "\<lparr>peer_id = alice\<rparr>" None]
      stack_peer_ok tmp_files_creates root sender_host_facts sample_valid t av al host_watch
    by (auto simp: pc sender_host_def stack_gossip_def stack_blobs_def host_stack_def MAX_FILE_SIZE_def)
qed

text \<open>
  C15: So does a removal: without I/O errors, outside the two seconds after the last attempt, and with
  a gossip layer that takes the message, \<open>broadcast_tombstone\<close> reports that it was sent, and a peer
  that allows the sender and has no directory or link in the way applies it; nothing is left at the path.
\<close>

theorem removal_reaches_the_peer:
  assumes api: "peer_api_ok pa"
    and a: "validate_relative_path rel = Inr ()" "\<not> in_dedup_window a (path_comps rel)" "\<forall>m. fst (bc m (blobs a)) = Inr ()"
    and b: "faults b = []" "watch_inv rootB pt (fs b)" "disjoint_dirs rootB (pending_dir pt)"
      "al_contains (allow b) (peer_id self)" "plain (fs b) (rootB @ path_comps rel)" "\<not> dir_at (fs b) (rootB @ path_comps rel)"
  shows "\<exists>payload a' b'. broadcast_tombstone bc (pa_codec pa) rel self a = (Inr True, a')
    \<and> blobs a' = snd (bc payload (blobs a))
    \<and> dispatch_update pa payload rootB pt cb b = (Inr Applied, b')
    \<and> node_at (fs b') (rootB @ path_comps rel) = None"
proof -
  let ?u = "\<lparr>su_version = 2, su_body = Tombstone rel self\<rparr>"
  obtain payload where p: "to_bytes (pa_codec pa) ?u = Inr payload" "from_bytes (pa_codec pa) payload = Inr ?u"
    using to_bytes_from_bytes [OF peer_api_okD(3) [OF api], of ?u] a(1) by (auto simp: su_path_def)
  have "bc payload (blobs a) = (Inr (), snd (bc payload (blobs a)))" using a(3) by (metis prod.collapse)
  then have s: "fst (broadcast_tombstone bc (pa_codec pa) rel self a) = Inr True"
    "blobs (snd (broadcast_tombstone bc (pa_codec pa) rel self a)) = snd (bc payload (blobs a))"
    using broadcast_tombstone_eq [OF a(1), of bc "pa_codec pa" self a] a(2) p(1)
    by (auto simp: in_dedup_window_def Let_def split: sum.splits prod.splits)
  have "\<exists>b'. dispatch_update pa payload rootB pt cb b = (Inr Applied, b') \<and> node_at (fs b') (rootB @ path_comps rel) = None"
    by (rule dispatch_tombstone_ok [OF api b(1-3) p(2) _ _ b(5,6)]) (use b(4) in simp_all)
  then show ?thesis using s by (metis prod.collapse)
qed

theorem removal_reaches_the_peer_witness:
  "\<exists>payload a' b'. broadcast_tombstone stack_gossip wire_codec ''a.txt'' \<lparr>peer_id = alice\<rparr> sender_host = (Inr True, a')
    \<and> st_outbox (blobs a') = [payload]
    \<and> dispatch_update stack_peer payload [''w''] host_pending None host = (Inr Applied, b')
    \<and> node_at (fs b') [''w'', ''a.txt''] = None"
proof -
  have pc: "path_comps ''a.txt'' = [''a.txt'']" by code_simp
  have "plain (fs host) [''w'', ''a.txt'']"
    using present_file_plain [OF host_wf host_root(1), of "[''a.txt'']"] host_file by (simp add: normal_def)
  moreover have "al_contains (allow host) alice" by (simp add: al_contains_def alice_only_def)
  moreover have "\<not> in_dedup_window sender_host [''a.txt'']" by (simp add: in_dedup_window_def sender_host_def sync_state_new_def)
  ultimately obtain payload a' b' where r: "broadcast_tombstone stack_gossip wire_codec ''a.txt'' \<lparr>peer_id = alice\<rparr> sender_host = (Inr True, a')"
    "blobs a' = snd (stack_gossip payload (blobs sender_host))"
    "dispatch_update stack_peer payload [''w''] host_pending None host = (Inr Applied, b')" "node_at (fs b') [''w'', ''a.txt''] = None"
    using removal_reaches_the_peer [OF stack_peer_ok sample_valid, of sender_host stack_gossip host "[''w'']" host_pending "\<lparr>peer_id = alice\<rparr>" None]
      host_watch host_file by (auto simp: pc stack_gossip_def dir_at_def)
  then show ?thesis by (auto simp: stack_gossip_def sender_host_def host_stack_def)
qed

section \<open>Repetition\<close>



section \<open>Two edits at the same time\<close>







end
