(* ===== verification/Lifetime.thy ===== *)
theory Lifetime
  imports Run
begin

text \<open>
  From start-up to shutdown: what \<open>main\<close> of \<open>src/src/bin/dirhive.rs\<close> leaves behind before its tasks
  start, which is the invariant of \<open>Run\<close>, and that it starts from what an earlier daemon has stored.
\<close>

section \<open>The files of a daemon\<close>

text \<open>Everything the process itself creates, with one file of the blob store for its directory.\<close>

definition own_files :: "daemon_paths \<Rightarrow> path set" where
  "own_files paths = private_files paths
     \<union> {lock_path paths, log_path paths, socket_path paths, key_path paths, blobs_dir paths @ [''blobs.db'']}"

text \<open>One part of start-up: the layout stays, only own files change, and files other than \<open>A\<close> are kept.\<close>

definition start_op :: "path set \<Rightarrow> path set \<Rightarrow> 'z world_scheme \<Rightarrow> 'z world_scheme \<Rightarrow> bool" where
  "start_op ps A w w' \<longleftrightarrow> fs_step w w' \<and> host_ok ps w' \<and> private_changes ps (fs w) (fs w')
     \<and> (\<forall>q b m. q \<notin> A \<longrightarrow> node_at (fs w) q = Some (File b m) \<longrightarrow> node_at (fs w') q = Some (File b m))"

lemma start_op_trans: "start_op ps A w w1 \<Longrightarrow> start_op ps A w1 w2 \<Longrightarrow> start_op ps A w w2"
  unfolding start_op_def using fs_step_trans private_changes_trans by blast

lemma start_op_mono: "start_op ps A w w' \<Longrightarrow> A \<subseteq> B \<Longrightarrow> start_op ps B w w'"
  unfolding start_op_def by blast

lemma start_op_same: "host_ok ps w \<Longrightarrow> fs_step w w' \<Longrightarrow> fs w' = fs w \<Longrightarrow> start_op ps A w w'"
  by (simp add: start_op_def host_ok_def)

lemma touches_private: "touches A f f' \<Longrightarrow> A \<subseteq> ps \<Longrightarrow> private_changes ps f f'"
  unfolding touches_def private_changes_def by blast

lemma host_op_start: "host_op ps A w w' \<Longrightarrow> A \<subseteq> ps \<Longrightarrow> start_op ps A w w'"
  unfolding start_op_def host_op_def using touches_private touches_keeps [of A "fs w" "fs w'"] by fastforce

lemma persist_start_op:
  assumes "host_ok ps w" "p \<in> ps" "tempfile_ok tf"
  shows "start_op ps {p} w (snd (persist_folder_secret tf p s w))"
proof -
  have "secure_post p s w (persist_folder_secret tf p s w)"
    using persist_contract [of w p tf s] host_ok_store [OF assms(1,2)] assms(3) by blast
  then have "fs_step w (snd (persist_folder_secret tf p s w))"
    "store_frame p (fs w) (fs (snd (persist_folder_secret tf p s w)))" by (simp_all add: secure_post_def)
  then show ?thesis
    using persist_private_op [OF assms(3,2), of w s] assms(1) store_frame_file by (auto simp: start_op_def private_op_def)
qed

section \<open>The order of start-up\<close>

lemmas start_iffs = and_then_Inr_iff io_err_Inr_iff with_context_Inr_iff

lemma claim_host_ok:
  assumes "claim_host api env args w = (Inr (paths, lf), w')" "host_ok ps w" "own_files paths \<subseteq> ps"
  shows "start_op ps {log_path paths, lock_path paths, socket_path paths} w w'"
    "build_daemon_paths env (watched_dir_canonical paths) = Inr paths"
    "fst (k_canonicalize (cli_watch args) (fs w)) = Inr (watched_dir_canonical paths)"
proof -
  let ?A = "{log_path paths, lock_path paths, socket_path paths}"
  have sub: "log_path paths \<in> ps" "lock_path paths \<in> ps" "socket_path paths \<in> ps" using assms(3) by (auto simp: own_files_def)
  obtain watched0 w0 where claim: "canonicalize (cli_watch args) w = (Inr watched0, w0)"
    "(case build_daemon_paths env watched0 of Inl e \<Rightarrow> (Inl e, w0)
       | Inr paths \<Rightarrow>
           and_then (init_tracing (ma_tracing api) (log_path paths) w0) (\<lambda>_ w2.
             case (ma_sigint api, ma_sigterm api) of
               (Inl e, _) \<Rightarrow> (Inl (Ctx ''install SIGINT handler'' (Msg e)), w2)
             | (Inr _, Inl e) \<Rightarrow> (Inl (Ctx ''install SIGTERM handler'' (Msg e)), w2)
             | (Inr _, Inr _) \<Rightarrow>
                 and_then (with_context ''acquire daemon.lock (another daemon may already be running)''
                             (acquire_daemon_lock (ma_try_lock api) (lock_path paths) w2)) (\<lambda>lock_file w3.
                 and_then (recover_stale_socket (ma_rpc_codec api) (ma_net api) (socket_path paths) w3) (\<lambda>_ w4.
                   (Inr (paths, lock_file), w4))))) = (Inr (paths, lf), w')"
    using assms(1) unfolding claim_host_def start_iffs by blast
  then obtain watched w1 u w2 w3 v where
    1: "canonicalize (cli_watch args) w = (Inr watched, w1)" "build_daemon_paths env watched = Inr paths" and
    2: "init_tracing (ma_tracing api) (log_path paths) w1 = (Inr u, w2)" and
    3: "acquire_daemon_lock (ma_try_lock api) (lock_path paths) w2 = (Inr lf, w3)" and
    4: "recover_stale_socket (ma_rpc_codec api) (ma_net api) (socket_path paths) w3 = (Inr v, w')"
    using claim
    by (cases "build_daemon_paths env watched0"; cases "ma_sigint api"; cases "ma_sigterm api")
      (fastforce simp: start_iffs)+
  have wd: "watched_dir_canonical paths = watched" using build_daemon_paths_fields [OF 1(2)] by simp
  note c = syscall_readonly [OF 1(1) [unfolded canonicalize_def] k_canonicalize_readonly]
  show "build_daemon_paths env (watched_dir_canonical paths) = Inr paths"
    "fst (k_canonicalize (cli_watch args) (fs w)) = Inr (watched_dir_canonical paths)" using 1(2) c(3) wd by simp_all
  have s1: "start_op ps ?A w w1" by (rule start_op_same [OF assms(2) c(1,2)])
  have "host_op ps {log_path paths} w1 w2" using init_tracing_host_op [of ps w1 "log_path paths" "ma_tracing api"] s1 sub 2
    by (simp add: start_op_def)
  then have s2: "start_op ps ?A w1 w2" by (rule start_op_mono [OF host_op_start]) (use sub in auto)
  have "host_op ps {lock_path paths} w2 w3"
    using acquire_host_op(1) [of ps w2 "lock_path paths" "ma_try_lock api"] s2 sub 3 by (simp add: start_op_def)
  then have s3: "start_op ps ?A w2 w3" by (rule start_op_mono [OF host_op_start]) (use sub in auto)
  have "host_op ps {socket_path paths} w3 w'"
    using recover_host_op [of ps w3 "socket_path paths" "ma_rpc_codec api" "ma_net api"] s3 sub 4 by (simp add: start_op_def)
  then have s4: "start_op ps ?A w3 w'" by (rule start_op_mono [OF host_op_start]) (use sub in auto)
  show "start_op ps ?A w w'" by (rule start_op_trans [OF s1 start_op_trans [OF s2 start_op_trans [OF s3 s4]]])
qed

lemma join_network_cases:
  assumes "join_network api args rnd paths w = (Inr (i, s, al, rt), w')"
  obtains k w1 w2 w3 w4 bs u where
    "load_or_create_endpoint_key rnd (pa_tempfile (ma_peer api)) (key_path paths) w = (Inr k, w1)"
    "try_load_folder_secret (folder_secret_path paths) w1 = (Inr s, w2)"
    "ensure_dir_700 (blobs_dir paths) w2 = (Inr u, w3)"
    "load_allowlist api args paths w3 = (Inr al, w4)"
    "load_bootstrap_peers (ma_boot_codec api) (bootstrap_peers_path paths) w4 = (Inr bs, w')"
    "build_with_serve_callback (ma_runtime api) (blobs_dir paths) s bs (Some serve_callback) = Inr rt"
proof -
  obtain k w1 s0 w2 where a: "load_or_create_endpoint_key rnd (pa_tempfile (ma_peer api)) (key_path paths) w = (Inr k, w1)"
    "try_load_folder_secret (folder_secret_path paths) w1 = (Inr s0, w2)"
    and r: "(case ma_endpoint api k of
         Inl e \<Rightarrow> (Inl (Ctx ''Endpoint::bind'' (Msg e)), w2)
       | Inr endpoint \<Rightarrow>
           and_then (ensure_dir_700 (blobs_dir paths) w2) (\<lambda>_ w3.
           and_then (load_allowlist api args paths w3) (\<lambda>allowlist w4.
           and_then (with_context ''load bootstrap-peers.json''
                       (load_bootstrap_peers (ma_boot_codec api) (bootstrap_peers_path paths) w4)) (\<lambda>bootstrap w5.
             case build_with_serve_callback (ma_runtime api) (blobs_dir paths) s0 bootstrap (Some serve_callback) of
               Inl e \<Rightarrow> (Inl (Ctx ''SyncRuntime::build'' e), w5)
             | Inr runtime \<Rightarrow> (Inr (endpoint, s0, allowlist, runtime), w5))))) = (Inr (i, s, al, rt), w')"
    using assms unfolding join_network_def start_iffs by blast
  obtain e where "ma_endpoint api k = Inr e" using r by (cases "ma_endpoint api k") simp_all
  then obtain u w3 al0 w4 bs w5 where b: "ensure_dir_700 (blobs_dir paths) w2 = (Inr u, w3)"
    "load_allowlist api args paths w3 = (Inr al0, w4)"
    "load_bootstrap_peers (ma_boot_codec api) (bootstrap_peers_path paths) w4 = (Inr bs, w5)"
    and r2: "(case build_with_serve_callback (ma_runtime api) (blobs_dir paths) s0 bs (Some serve_callback) of
               Inl e \<Rightarrow> (Inl (Ctx ''SyncRuntime::build'' e), w5)
             | Inr runtime \<Rightarrow> (Inr (e, s0, al0, runtime), w5)) = (Inr (i, s, al, rt), w')"
    using r by (simp add: start_iffs) blast
  then have "build_with_serve_callback (ma_runtime api) (blobs_dir paths) s0 bs (Some serve_callback) = Inr rt" "s0 = s" "al0 = al" "w5 = w'"
    by (auto split: sum.splits)
  then show thesis using that a b by blast
qed

lemma load_or_create_start_op:
  assumes "host_ok ps w" "p \<in> ps" "tempfile_ok tf"
  shows "start_op ps {p} w (snd (load_or_create_endpoint_key rnd tf p w))"
proof -
  obtain r1 w1 where 1: "fs_read p w = (r1, w1)" by fastforce
  note i = fs_read_inv [OF 1]
  have s1: "start_op ps {p} w w1" by (rule start_op_same [OF assms(1)]) (use i in simp_all)
  have "start_op ps {p} w1 (snd (generate_and_persist_key rnd tf p w1))"
    using persist_start_op [of ps w1 p tf rnd] s1 assms(2,3) unfolding generate_eq(1)
    by (cases "persist_folder_secret tf p rnd w1"; cases "fst (persist_folder_secret tf p rnd w1)") (simp_all add: start_op_def)
  then show ?thesis using start_op_trans [OF s1] s1 1 by (cases r1) (simp_all add: load_or_create_endpoint_key_def)
qed

lemma load_or_strict_empty_same:
  "fs_step w (snd (load_or_strict_empty ids a p w))" "fs (snd (load_or_strict_empty ids a p w)) = fs w"
proof -
  obtain r w1 where 1: "fs_read p w = (r, w1)" by fastforce
  have "fs_step w w1" "fs w1 = fs w" using fs_read_inv [OF 1] by simp_all
  then have "fs_step w (snd (load_or_strict_empty ids a p w)) \<and> fs (snd (load_or_strict_empty ids a p w)) = fs w"
    using 1 by (cases r) (simp_all add: load_or_strict_empty_def)
  then show "fs_step w (snd (load_or_strict_empty ids a p w))" "fs (snd (load_or_strict_empty ids a p w)) = fs w" by simp_all
qed

lemma load_bootstrap_same:
  "fs_step w (snd (load_bootstrap_peers a p w))" "fs (snd (load_bootstrap_peers a p w)) = fs w"
proof -
  obtain r w1 where 1: "fs_read p w = (r, w1)" by fastforce
  have "fs_step w w1" "fs w1 = fs w" using fs_read_inv [OF 1] by simp_all
  then have "fs_step w (snd (load_bootstrap_peers a p w)) \<and> fs (snd (load_bootstrap_peers a p w)) = fs w"
    using 1 by (cases r) (simp_all add: load_bootstrap_peers_def)
  then show "fs_step w (snd (load_bootstrap_peers a p w))" "fs (snd (load_bootstrap_peers a p w)) = fs w" by simp_all
qed

lemma load_allowlist_same:
  "fs_step w (snd (load_allowlist api args paths w))" "fs (snd (load_allowlist api args paths w)) = fs w"
  by (simp_all add: load_allowlist_def load_or_strict_empty_same)

lemma join_network_steps:
  assumes "join_network api args rnd paths w = (Inr (i, s, al, rt), w')" "host_ok ps w" "own_files paths \<subseteq> ps"
    and "tempfile_ok (pa_tempfile (ma_peer api))"
  obtains k w1 w2 w3 w4 bs u where
    "load_or_create_endpoint_key rnd (pa_tempfile (ma_peer api)) (key_path paths) w = (Inr k, w1)"
    "try_load_folder_secret (folder_secret_path paths) w1 = (Inr s, w2)"
    "ensure_dir_700 (blobs_dir paths) w2 = (Inr u, w3)"
    "load_allowlist api args paths w3 = (Inr al, w4)"
    "load_bootstrap_peers (ma_boot_codec api) (bootstrap_peers_path paths) w4 = (Inr bs, w')"
    "build_with_serve_callback (ma_runtime api) (blobs_dir paths) s bs (Some serve_callback) = Inr rt"
    "start_op ps {key_path paths} w w1" "start_op ps {key_path paths} w w3" "start_op ps {key_path paths} w w4"
    "start_op ps {key_path paths} w w'"
  using assms(1)
proof (cases rule: join_network_cases)
  case (1 k w1 w2 w3 w4 bs u)
  let ?A = "{key_path paths}"
  have sub: "key_path paths \<in> ps" "blobs_dir paths @ [''blobs.db''] \<in> ps" using assms(3) by (auto simp: own_files_def)
  have s1: "start_op ps ?A w w1" using load_or_create_start_op [OF assms(2) sub(1) assms(4), of rnd] 1(1) by simp
  then have s2: "start_op ps ?A w1 w2"
    using start_op_same try_load_folder_secret_inv(1,2) [OF 1(2)] by (auto simp: start_op_def host_ok_def)
  have "host_op ps {blobs_dir paths @ [''blobs.db'']} w2 w3"
    using ensure_parent_host_op [of ps w2 "blobs_dir paths @ [''blobs.db'']" "{blobs_dir paths @ [''blobs.db'']}"] s2 sub 1(3)
    by (simp add: start_op_def ensure_parent_700_def path_parent_def)
  then have "fs_step w2 w3" "host_ok ps w3" "touches {blobs_dir paths @ [''blobs.db'']} (fs w2) (fs w3)" by (simp_all add: host_op_def)
  moreover have "dirs_secured (blobs_dir paths) (fs w2) (fs w3)"
    using ensure_dir_700_post(3) [OF 1(3)] s2 host_plain [of ps w2, OF _ sub(2)] by (simp add: start_op_def host_ok_def)
  ultimately have s3: "start_op ps ?A w2 w3"
    using touches_private [of _ "fs w2" "fs w3" ps] sub(2) dirs_secured_keeps(1) by (fastforce simp: start_op_def)
  have s4: "start_op ps ?A w3 w4"
    by (rule start_op_same) (use s3 load_allowlist_same [where w = w3 and api = api and args = args and paths = paths] 1(4) in \<open>simp_all add: start_op_def\<close>)
  have s5: "start_op ps ?A w4 w'"
    by (rule start_op_same) (use s4 load_bootstrap_same [where w = w4 and a = "ma_boot_codec api" and p = "bootstrap_peers_path paths"] 1(5) in \<open>simp_all add: start_op_def\<close>)
  have t3: "start_op ps ?A w w3" by (rule start_op_trans [OF s1 start_op_trans [OF s2 s3]])
  have t4: "start_op ps ?A w w4" by (rule start_op_trans [OF t3 s4])
  show ?thesis by (rule that [OF 1 s1 t3 t4 start_op_trans [OF t4 s5]])
qed

lemma pending_tracker_new_same:
  assumes "pending_tracker_new a env d w = (r, w')"
  shows "fs_step w w'" "fs w' = fs w"
proof -
  obtain r1 w1 where 1: "canonicalize d w = (r1, w1)" by fastforce
  have "fs_step w w1" "fs w1 = fs w" using syscall_readonly [OF 1 [unfolded canonicalize_def] k_canonicalize_readonly] by simp_all
  then have "fs_step w w' \<and> fs w' = fs w"
    using assms 1 by (cases r1) (auto simp: pending_tracker_new_def split: sum.splits)
  then show "fs_step w w'" "fs w' = fs w" by simp_all
qed

section \<open>A daemon that has started\<close>

text \<open>The files that start-up itself may write.\<close>

definition start_files :: "daemon_paths \<Rightarrow> path set" where
  "start_files paths = {log_path paths, lock_path paths, socket_path paths, key_path paths}"

lemma daemon_start_op:
  assumes "daemon_start api env args rnd w = (Some (Inr st), w')"
    and "host_ok ps w" "own_files (ds_paths (st_daemon st)) \<subseteq> ps"
    and "tempfile_ok (pa_tempfile (ma_peer api))" "net_ok (ma_net api)"
  shows "start_op ps (start_files (ds_paths (st_daemon st))) w w'"
    "gossip_runtime_invariant (gossip_runtime (st_daemon st))"
  using assms(1)
proof (atomize(full), cases rule: daemon_start_cases)
  case (running st' paths lf w1 w2 w3 i s al rt t stat pend)
  let ?A = "start_files paths"
  have st: "st' = st" using running(1) by simp
  have p: "ds_paths (st_daemon st) = paths" and g: "gossip_runtime_invariant (gossip_runtime (st_daemon st))"
    using running(5) daemon_state_new_split [OF running(4), of paths pend i "mono_ms w3"] st
    by (auto simp: daemon_state_new_def split: if_splits dest!: sym [where t = "st_daemon st"])
  note sub = assms(3) [unfolded p]
  have s1: "start_op ps ?A w w1" by (rule start_op_mono [OF claim_host_ok(1) [OF running(2) assms(2) sub]]) (auto simp: start_files_def)
  have "start_op ps {key_path paths} w1 w2"
    using join_network_steps [OF running(3) _ sub assms(4)] s1 by (metis start_op_def)
  then have s2: "start_op ps ?A w1 w2" by (rule start_op_mono) (simp add: start_files_def)
  note pt = pending_tracker_new_same [OF running(9)]
  have s3: "start_op ps ?A w2 w3" by (rule start_op_same [OF _ pt]) (use s2 in \<open>simp add: start_op_def\<close>)
  have so: "socket_path paths \<in> ps" using sub by (auto simp: own_files_def)
  have "host_op ps {socket_path paths} w3 w'"
    using bind_host_op(1) [of ps w3 "socket_path paths" "ma_net api" lf, OF _ so assms(5)] s3 running(6) by (simp add: start_op_def)
  then have s4: "start_op ps ?A w3 w'" by (rule start_op_mono [OF host_op_start]) (use so in \<open>auto simp: start_files_def\<close>)
  show "start_op ps (start_files (ds_paths (st_daemon st))) w w'
     \<and> gossip_runtime_invariant (gossip_runtime (st_daemon st))"
    unfolding p using start_op_trans [OF s1 start_op_trans [OF s2 start_op_trans [OF s3 s4]]] g by simp
qed simp

lemma private_changes_region: "private_changes ps f f' \<Longrightarrow> private_region ps q \<or> node_at f' q = node_at f q"
  unfolding private_changes_def private_region_def by blast

lemma private_region_mono: "private_region A q \<Longrightarrow> A \<subseteq> B \<Longrightarrow> private_region B q"
  unfolding private_region_def by blast

text \<open>The node whose memory is what start-up returns, on the file system that start-up left.\<close>

lemma started_run_inv:
  assumes "start_op ps A w w'" "gossip_runtime_invariant (gossip_runtime (daemon_of n))"
    and "watch_inv (watched_dir_canonical (paths_of n)) (ds_pending (daemon_of n)) (fs w)"
    and "run_apart ps (paths_of n) (ds_pending (daemon_of n))" "fs n = fs w'"
  shows "run_inv ps (paths_of n) (ds_pending (daemon_of n)) n"
proof -
  let ?root = "watched_dir_canonical (paths_of n)" and ?pt = "ds_pending (daemon_of n)"
  have s: "private_changes ps (fs w) (fs n)" "host_ok ps n"
    using assms(1,5) by (simp_all add: start_op_def host_ok_def)
  have "apart ?root (pending_dir ?pt) ps" using assms(4) by (simp add: run_apart_def)
  then have "watch_inv ?root ?pt (fs n)"
    using private_changes_keep_watch [OF assms(3) s(1)] s(2) by (simp add: host_ok_def)
  then show ?thesis using assms(2) s(2) by (simp add: run_inv_def)
qed

lemma listener_drop_host_op:
  assumes "host_ok ps w" "lh_socket_path h \<in> ps"
  shows "host_op ps {lh_socket_path h} w (listener_drop h w)"
  using remove_host_op [OF assms(1), of "lh_socket_path h" "{lh_socket_path h}"] assms(2) by (simp add: listener_drop_def)

lemma daemon_stop_snd: "snd (daemon_stop api st w) = listener_drop (st_listener st) w"
  by (simp add: daemon_stop_def)

lemma started_listener:
  assumes "daemon_start api env args rnd w = (Some (Inr st), w')"
  shows "lh_socket_path (st_listener st) = socket_path (ds_paths (st_daemon st))"
  using assms
proof (cases rule: daemon_start_cases)
  case (running st' paths lf w1 w2 w3 i s al rt t stat pend)
  have "st' = st" using running(1) by simp
  moreover have "lh_socket_path (st_listener st') = socket_path paths"
    using running(6) by (auto simp: bind_listener_with_lock_def and_then_Inr_iff
        split: prod.splits bool.splits dest!: sym [where t = "st_listener st'"])
  moreover have "ds_paths (st_daemon st') = paths"
    using running(5) by (auto simp: daemon_state_new_def split: if_splits dest!: sym [where t = "st_daemon st'"])
  ultimately show ?thesis by simp
qed simp

section \<open>The whole life\<close>

lemma life_frame:
  assumes "daemon_start api env args rnd w = (Some (Inr st), w0)" "fs n = fs w0" "daemon_of n = st_daemon st"
    and "(run_step (ma_peer api) rp bc env inner)\<^sup>*\<^sup>* (n, q) (n', q')"
    and "host_ok (own_files (paths_of n)) w" "run_apart (own_files (paths_of n)) (paths_of n) (ds_pending (daemon_of n))"
    and "watch_inv (watched_dir_canonical (paths_of n)) (ds_pending (daemon_of n)) (fs w)"
    and "peer_api_ok (ma_peer api)" "net_ok (ma_net api)" "tempfile_ok (pa_tempfile (rp_peer rp))" "bootstrap_codec_ok (rp_boot_codec rp)"
  shows "run_inv (own_files (paths_of n)) (paths_of n) (ds_pending (daemon_of n)) n'"
    "log_region (watched_dir_canonical (paths_of n)) (pending_dir (ds_pending (daemon_of n))) p
       \<or> private_region (own_files (paths_of n)) p \<or> node_at (fs (snd (daemon_stop api st n'))) p = node_at (fs w) p"
proof -
  let ?ps = "own_files (paths_of n)"
  have s: "start_op ?ps (start_files (paths_of n)) w w0" "gossip_runtime_invariant (gossip_runtime (daemon_of n))"
    using daemon_start_op [OF assms(1,5)] assms(3) peer_api_okD [OF assms(8)] assms(9) by simp_all
  have "run_inv ?ps (paths_of n) (ds_pending (daemon_of n)) n" by (rule started_run_inv [OF s assms(7,6,2)])
  then have run: "run_inv ?ps (paths_of n) (ds_pending (daemon_of n)) n'
      \<and> run_frame (paths_of n) (ds_pending (daemon_of n)) (fs n) (fs n')"
    using run_steps_inv [OF assms(4) _ assms(6,8,10,11)] by simp
  then show i: "run_inv ?ps (paths_of n) (ds_pending (daemon_of n)) n'" by blast
  have sock: "lh_socket_path (st_listener st) = socket_path (paths_of n)" using started_listener [OF assms(1)] assms(3) by simp
  have "host_op ?ps {socket_path (paths_of n)} n' (snd (daemon_stop api st n'))"
    using listener_drop_host_op [of ?ps n' "st_listener st"] i unfolding daemon_stop_snd sock
    by (simp add: run_inv_def own_files_def)
  then have e: "private_changes ?ps (fs n') (fs (snd (daemon_stop api st n')))"
    by (auto simp: host_op_def own_files_def intro: touches_private)
  have b: "private_changes ?ps (fs w) (fs n)" using s(1) assms(2) by (simp add: start_op_def)
  have m: "run_frame (paths_of n) (ds_pending (daemon_of n)) (fs n) (fs n')" using run by blast
  have sub: "private_files (paths_of n) \<subseteq> ?ps" by (auto simp: own_files_def)
  show "log_region (watched_dir_canonical (paths_of n)) (pending_dir (ds_pending (daemon_of n))) p
       \<or> private_region ?ps p \<or> node_at (fs (snd (daemon_stop api st n'))) p = node_at (fs w) p"
    using private_changes_region [OF b, of p] private_changes_region [OF e, of p] m private_region_mono [OF _ sub, of p]
    unfolding run_frame_def by metis
qed

section \<open>From one life to the next\<close>

text \<open>What the private files say: the group's secret, the allowlist and the known peers.\<close>

definition stored_group ::
  "('b, 'g) main_api \<Rightarrow> daemon_paths \<Rightarrow> fs \<Rightarrow> bytes \<Rightarrow> bool \<times> (endpoint_id \<rightharpoonup> peer_info) \<Rightarrow> endpoint_addr list \<Rightarrow> bool" where
  "stored_group api paths f secret al bs \<longleftrightarrow>
     (\<exists>m. node_at f (folder_secret_path paths) = Some (File secret m))
     \<and> allowlist_file.holds (pa_ids (ma_peer api)) (ma_allow_codec api) f (allowlist_path paths) al
     \<and> bootstrap.holds (ma_boot_codec api) f (bootstrap_peers_path paths) bs"

lemma start_op_holds:
  assumes "start_op ps A w w'" "p \<notin> A"
  shows "allowlist_file.holds ids a (fs w) p x \<Longrightarrow> allowlist_file.holds ids a (fs w') p x"
    "bootstrap.holds b (fs w) p y \<Longrightarrow> bootstrap.holds b (fs w') p y"
  using assms unfolding start_op_def allowlist_file.holds_def bootstrap.holds_def by blast+

lemma start_op_group:
  "start_op ps A w w' \<Longrightarrow> A \<inter> private_files paths = {} \<Longrightarrow> stored_group api paths (fs w) secret al bs \<Longrightarrow>
     stored_group api paths (fs w') secret al bs"
  unfolding stored_group_def private_files_def using start_op_holds [of ps A w w']
  by (auto simp: start_op_def)

lemma start_op_quiet: "start_op ps A w w' \<Longrightarrow> faults w = [] \<Longrightarrow> faults w' = []"
  using fs_step_quiet by (auto simp: start_op_def)

lemma load_strict_abs:
  assumes "allowlist_file.holds ids a (fs w) p x" "wf_fs (fs w)" "\<forall>c\<in>set p. normal c" "faults w = []"
    and "load_or_strict_empty ids a p w = (Inr al, w')"
  shows "al_abs al = x"
  using allowlist_file.load_holds [OF assms(2,3,1,4)] assms(5) by (simp add: load_abs_def)

text \<open>The network a daemon joins is the one that its private files describe.\<close>

lemma join_network_loads:
  assumes "join_network api args rnd paths w = (Inr (i, s, al, rt), w')" "host_ok ps w" "own_files paths \<subseteq> ps"
    and "tempfile_ok (pa_tempfile (ma_peer api))" "faults w = []" "key_path paths \<notin> private_files paths"
    and "stored_group api paths (fs w) secret x bs" "\<not> cli_allow_open_all args"
  shows "s = Some secret" "al_abs al = x"
    "build_with_serve_callback (ma_runtime api) (blobs_dir paths) (Some secret) bs (Some serve_callback) = Inr rt"
proof (atomize(full), rule join_network_steps [OF assms(1-4)], goal_cases)
  case (1 k w1 w2 w3 w4 bs' u)
  have sub: "folder_secret_path paths \<in> ps" "allowlist_path paths \<in> ps" "bootstrap_peers_path paths \<in> ps"
    using assms(3) by (auto simp: own_files_def private_files_def)
  have st: "stored_group api paths (fs v) secret x bs" "faults v = []" "wf_fs (fs v)" "host_ok ps v"
    if "start_op ps {key_path paths} w v" for v
    using that start_op_group [OF that _ assms(7)] start_op_quiet [OF that assms(5)] assms(6)
    by (simp_all add: start_op_def host_ok_def)
  have n: "\<forall>c\<in>set p. normal c" if "start_op ps {key_path paths} w v" "p \<in> ps" for v p
    using st(4) [OF that(1)] that(2) store_layoutD(5) by (auto simp: host_ok_def)
  obtain m where "node_at (fs w1) (folder_secret_path paths) = Some (File secret m)"
    using st(1) [OF 1(7)] by (auto simp: stored_group_def)
  then have "try_load_folder_secret (folder_secret_path paths) w1 = (dec_folder_secret (folder_secret_path paths) secret, w1)"
    using folder_secret.load_file [OF st(3) [OF 1(7)] n [OF 1(7) sub(1)]] st(2) [OF 1(7)] by blast
  then have s: "s = Some secret" using 1(2) by (auto simp: dec_folder_secret_def split: if_splits)
  have "load_or_strict_empty (pa_ids (ma_peer api)) (ma_allow_codec api) (allowlist_path paths) w3 = (Inr al, w4)"
    using 1(4) assms(8) by (simp add: load_allowlist_def with_context_Inr_iff)
  then have al: "al_abs al = x"
    by (rule load_strict_abs [OF _ st(3) [OF 1(8)] n [OF 1(8) sub(2)] st(2) [OF 1(8)], rotated])
      (use st(1) [OF 1(8)] in \<open>simp add: stored_group_def\<close>)
  have "load_bootstrap_peers (ma_boot_codec api) (bootstrap_peers_path paths) w4 = (Inr bs, w4)"
    using bootstrap.load_holds [OF st(3) [OF 1(9)] n [OF 1(9) sub(3)] _ st(2) [OF 1(9)]] st(1) [OF 1(9)]
    by (auto simp: stored_group_def)
  then have "bs' = bs" using 1(5) by simp
  then show ?case using s al 1(6) by simp
qed

lemma started_group:
  assumes "daemon_start api env args rnd w = (Some (Inr st), w')" "paths = ds_paths (st_daemon st)"
    and "host_ok ps w" "own_files paths \<subseteq> ps" "tempfile_ok (pa_tempfile (ma_peer api))" "faults w = []"
    and "start_files paths \<inter> private_files paths = {}"
    and "stored_group api paths (fs w) secret x bs" "\<not> cli_allow_open_all args"
  shows "current_runtime_status (st_daemon st) = Active"
    "sr_topic_id (st_runtime st) = Some (derive_topic_id (rt_blake3 (ma_runtime api)) secret)"
    "al_abs (st_allow st) = x"
    "rt_lookup (ma_runtime api) = Inr () \<longrightarrow> sr_known (st_runtime st) = bs"
  using assms(1)
proof (atomize(full), cases rule: daemon_start_cases)
  case (running st' paths' lf w1 w2 w3 i s al rt t stat pend)
  have st: "st' = st" using running(1) by simp
  have p: "paths' = paths"
    using running(5) st assms(2) by (auto simp: daemon_state_new_def split: if_splits dest!: sym [where t = "st_daemon st"])
  let ?A = "{log_path paths, lock_path paths, socket_path paths}"
  have s1: "start_op ps ?A w w1" by (rule claim_host_ok(1) [OF running(2) [unfolded p] assms(3,4)])
  have "stored_group api paths (fs w1) secret x bs"
    by (rule start_op_group [OF s1 _ assms(8)]) (use assms(7) in \<open>auto simp: start_files_def\<close>)
  note j = join_network_loads [OF running(3) [unfolded p] _ assms(4,5) start_op_quiet [OF s1 assms(6)] _ this assms(9)]
  have j1: "s = Some secret" "al_abs al = x"
      "build_with_serve_callback (ma_runtime api) (blobs_dir paths) (Some secret) bs (Some serve_callback) = Inr rt"
    using j s1 assms(7) by (auto simp: start_op_def start_files_def)
  have r: "sr_topic_id (st_runtime st) = sr_topic_id rt" "sr_known (st_runtime st) = sr_known rt" "t \<noteq> None"
    using running(4) j1(1) st by (auto simp: split_topic_def take_topic_def split: option.splits
        dest!: sym [where t = "st_runtime st"] sym [where s = "Some _"])
  have "rt_lookup (ma_runtime api) = Inr () \<Longrightarrow> sr_known rt = bs"
    using j1(3) by (auto simp: build_with_serve_callback_def Let_def split: sum.splits option.splits if_splits)
  moreover have "current_runtime_status (st_daemon st) = Active"
    using daemon_state_new_split [OF running(4), of paths' pend i "mono_ms w3"] running(5) st r(3) by auto
  ultimately show "(current_runtime_status (st_daemon st) = Active
     \<and> sr_topic_id (st_runtime st) = Some (derive_topic_id (rt_blake3 (ma_runtime api)) secret))
     \<and> al_abs (st_allow st) = x \<and> (rt_lookup (ma_runtime api) = Inr () \<longrightarrow> sr_known (st_runtime st) = bs)"
    using r build_topic(2) [OF j1(3)] running(8) st j1(2) by simp
qed simp

end
