(* ===== verification/Props_Lifetime.thy ===== *)
theory Props_Lifetime
  imports Process_Samples Lifetime
begin

text \<open>The properties of a daemon from its start to its end, and from one start to the next.\<close>

section \<open>One life\<close>

text \<open>
  C10: From the start of the process to its end, with any sequence of messages, neighbors, watcher
  events, requests, served connections, user edits and I/O errors in between, the daemon changes
  nothing outside the watched directory, its change log, and its own files (the private files, the
  lock, the log, the socket, the key and the directory of the blobs) with the directories above them.
\<close>

theorem daemon_life_stays_inside:
  assumes "daemon_start api env args rnd w = (Some (Inr st), w0)"
    and "paths = ds_paths (st_daemon st)" "pt = ds_pending (st_daemon st)"
    and "fs n = fs w0" "daemon_of n = st_daemon st"
    and "(run_step (ma_peer api) rp bc env inner)\<^sup>*\<^sup>* (n, q) (n', q')"
    and "daemon_stop api st n' = (r, w')"
    and "wf_fs (fs w)" "store_layout (fs w) (own_files paths)" "watch_inv (watched_dir_canonical paths) pt (fs w)"
    and "run_apart (own_files paths) paths pt"
    and "peer_api_ok (ma_peer api)" "net_ok (ma_net api)" "tempfile_ok (pa_tempfile (rp_peer rp))" "bootstrap_codec_ok (rp_boot_codec rp)"
  shows "run_inv (own_files paths) paths pt n'
    \<and> (\<forall>p. log_region (watched_dir_canonical paths) (pending_dir pt) p \<or> private_region (own_files paths) p
         \<or> node_at (fs w') p = node_at (fs w) p)"
proof -
  have p: "paths = paths_of n" "pt = ds_pending (daemon_of n)" using assms(2,3,5) by simp_all
  have ok: "host_ok (own_files (paths_of n)) w" using assms(8,9) p by (simp add: host_ok_def)
  note life = life_frame [OF assms(1,4,5,6) ok assms(11,10) [unfolded p] assms(12-15)]
  have "w' = snd (daemon_stop api st n')" using assms(7) by simp
  then show ?thesis using life p by blast
qed

lemma stack_main_starts:
  obtains st w0 where "daemon_start (stack_main False) main_env main_args (replicate 32 CHR ''k'') host = (Some (Inr st), w0)"
    "ds_paths (st_daemon st) = host_paths" "ds_pending (st_daemon st) = \<lparr>pt_pending_root = [''s'', ''pending''], pt_repo_hash = ''2f77000000000000''\<rparr>"
proof -
  let ?d = "daemon_start (stack_main False) main_env main_args (replicate 32 CHR ''k'') host"
  have "(case ?d of (Some (Inr st), _) \<Rightarrow> ds_paths (st_daemon st) = host_paths
      \<and> ds_pending (st_daemon st) = \<lparr>pt_pending_root = [''s'', ''pending''], pt_repo_hash = ''2f77000000000000''\<rparr> | _ \<Rightarrow> False)"
    by code_simp
  then show thesis using that by (auto split: prod.splits option.splits sum.splits)
qed

lemma host_life:
  "store_layout host_fs (own_files host_paths)"
  "watch_inv [''w''] \<lparr>pt_pending_root = [''s'', ''pending''], pt_repo_hash = ''2f77000000000000''\<rparr> host_fs"
  "run_apart (own_files host_paths) host_paths \<lparr>pt_pending_root = [''s'', ''pending''], pt_repo_hash = ''2f77000000000000''\<rparr>"
proof -
  let ?pt = "\<lparr>pt_pending_root = [''s'', ''pending''], pt_repo_hash = ''2f77000000000000''\<rparr>"
  have t: "\<not> suffix ''.tmp'' ''s''" "\<not> suffix ''.tmp'' ''w''" "\<not> suffix ''.tmp'' ''pending''" "\<not> suffix ''.tmp'' ''2f77000000000000''"
    "\<not> suffix ''.tmp'' ''daemon.lock''" "\<not> suffix ''.tmp'' ''daemon.sock''" "\<not> suffix ''.tmp'' ''dirhive.log''"
    "\<not> suffix ''.tmp'' ''endpoint.key''" "\<not> suffix ''.tmp'' ''blobs''" "\<not> suffix ''.tmp'' ''blobs.db''"
    by code_simp+
  have pd: "pending_dir ?pt = [''s'', ''pending'', ''2f77000000000000'']" unfolding pending_dir_def by code_simp
  have "dir_path host_fs (pending_dir ?pt)" unfolding pd using host_dir_path
    by (auto simp: dir_path_def normal_def prefix_Cons node_at_def host_fs_def)
  then show "watch_inv [''w''] ?pt host_fs" using host_watch(1) by (simp add: watch_inv_def)
  have "dir_path host_fs [''s'', ''blobs'']" using host_state_dir
    by (auto simp: dir_path_def normal_def prefix_Cons node_at_def host_fs_def)
  then have "store_path host_fs [''s'', ''blobs'', ''blobs.db'']" using t by (simp add: store_path_def normal_def)
  then show "store_layout host_fs (own_files host_paths)"
    using t host_store_path host_missing file_names
    by (auto simp: store_layout_def own_files_def private_files_def host_paths_def prefix_Cons normal_def node_at_def host_fs_def)
  show "run_apart (own_files host_paths) host_paths ?pt"
    using t by (auto simp: run_apart_def apart_def disjoint_dirs_def own_files_def private_files_def host_paths_def pd)
qed

text \<open>The daemon starts, a file arrives from a peer, and it stops: no log appears for another directory.\<close>

theorem daemon_life_stays_inside_witness:
  "\<exists>st w0 n n'. daemon_start (stack_main False) main_env main_args (replicate 32 CHR ''k'') host = (Some (Inr st), w0)
     \<and> fs n = fs w0 \<and> daemon_of n = st_daemon st
     \<and> (run_step stack_peer stack_rpc stack_gossip main_env (\<lambda>_ s. (Inr (), s)))\<^sup>*\<^sup>* (n, []) (n', [])
     \<and> n' = snd (dispatch_update stack_peer (msg_upsert ''a.txt'' alice) [''w''] (ds_pending (st_daemon st)) (Some mark_peer_seen) n)
     \<and> node_at (fs (snd (daemon_stop (stack_main False) st n'))) [''s'', ''pending'', ''00ff''] = None"
proof -
  let ?pt = "\<lparr>pt_pending_root = [''s'', ''pending''], pt_repo_hash = ''2f77000000000000''\<rparr>"
  obtain st w0 where st: "daemon_start (stack_main False) main_env main_args (replicate 32 CHR ''k'') host = (Some (Inr st), w0)"
    "host_paths = ds_paths (st_daemon st)" "?pt = ds_pending (st_daemon st)" using stack_main_starts by metis
  let ?n = "\<lparr>fs = fs w0, faults = [], umask = 18, mono_ms = 5, sys_time = Some (9, 3), blobs = host_stack,
      sync = sync_state_new, allow = st_allow st, \<dots> = st_daemon st\<rparr> :: (stack, unit) daemon"
  let ?n' = "snd (dispatch_update stack_peer (msg_upsert ''a.txt'' alice) [''w''] (ds_pending (st_daemon st)) (Some mark_peer_seen) ?n)"
  let ?step = "run_step stack_peer stack_rpc stack_gossip main_env (\<lambda>_ s. (Inr (), s))"
  have m: "ma_peer (stack_main False) = stack_peer" "ma_net (stack_main False) = dead_net" by (simp_all add: stack_main_def)
  have "watched_dir_canonical (ds_paths (st_daemon st)) = [''w'']" by (simp add: st(2) [symmetric] host_paths_def)
  then have "?step (?n, []) (?n', [])"
    using run_step.message [of stack_peer stack_rpc stack_gossip main_env "\<lambda>_ s. (Inr (), s)" ?n "[]" "msg_upsert ''a.txt'' alice"] by simp
  then have r: "?step\<^sup>*\<^sup>* (?n, []) (?n', [])" by blast
  then have run: "(run_step (ma_peer (stack_main False)) stack_rpc stack_gossip main_env (\<lambda>_ s. (Inr (), s)))\<^sup>*\<^sup>* (?n, []) (?n', [])"
    by (simp add: m)
  have ok: "peer_api_ok (ma_peer (stack_main False))" "net_ok (ma_net (stack_main False))"
    "tempfile_ok (pa_tempfile (rp_peer stack_rpc))" "bootstrap_codec_ok (rp_boot_codec stack_rpc)"
    using stack_peer_ok dead_net_ok peer_api_okD [OF stack_peer_ok] instances_ok m by simp_all
  obtain e w' where stop: "daemon_stop (stack_main False) st ?n' = (e, w')" by fastforce
  have w: "wf_fs (fs host)" "store_layout (fs host) (own_files host_paths)" "watch_inv (watched_dir_canonical host_paths) ?pt (fs host)"
    using host_wf host_life by (simp_all add: host_paths_def)
  have pd: "pending_dir ?pt = [''s'', ''pending'', ''2f77000000000000'']" unfolding pending_dir_def by code_simp
  have q: "\<not> log_region (watched_dir_canonical host_paths) (pending_dir ?pt) [''s'', ''pending'', ''00ff'']"
    "\<not> private_region (own_files host_paths) [''s'', ''pending'', ''00ff'']"
    by (auto simp: log_region_def pd host_paths_def private_region_def own_files_def private_files_def)
  have "node_at (fs w') [''s'', ''pending'', ''00ff''] = node_at (fs host) [''s'', ''pending'', ''00ff'']"
    using daemon_life_stays_inside [OF st _ _ run stop w host_life(3) ok] q by auto
  then have "node_at (fs w') [''s'', ''pending'', ''00ff''] = None" by (simp add: node_at_def host_fs_def)
  then show ?thesis using st(1) r stop by (intro exI [of _ st] exI [of _ w0] exI [of _ ?n] exI [of _ ?n']) simp
qed

section \<open>From one life to the next\<close>

text \<open>
  C22: An accepted invite makes the daemon a member of the group at its next start: a start on the
  files that a successful accept-invite has left, with the same paths, is \<open>Active\<close> on the topic of the
  ticket's secret, allows the inviter and nobody by default, and knows the inviter's address.
\<close>

theorem accepted_invite_joins_after_restart:
  assumes "rpc_accept_invite rp params n = (Inr j, n')"
    and "decode (pa_codec (rp_peer rp)) ticket = Inr invite" "rp_accept_params rp params = Inr (ticket, label)"
    and "wf_fs (fs n)" "store_layout (fs n) (own_files paths)" "paths = paths_of n"
    and "distinct [folder_secret_path paths, allowlist_path paths, bootstrap_peers_path paths,
           key_path paths, lock_path paths, log_path paths, socket_path paths]"
    and "rpc_api_ok rp" "al_wf (allow n)"
    and "daemon_start api env args rnd w = (Some (Inr st), w')" "ds_paths (st_daemon st) = paths"
    and "fs w = fs n'" "faults w = []" "\<not> cli_allow_open_all args" "rt_lookup (ma_runtime api) = Inr ()"
    and "ma_peer api = rp_peer rp" "ma_allow_codec api = rp_allow_codec rp" "ma_boot_codec api = rp_boot_codec rp"
  shows "current_runtime_status (st_daemon st) = Active
    \<and> sr_topic_id (st_runtime st) = Some (derive_topic_id (rt_blake3 (ma_runtime api)) (it_folder_secret invite))
    \<and> al_contains (st_allow st) (addr_id (it_endpoint invite)) \<and> \<not> is_open_all (st_allow st)
    \<and> it_endpoint invite \<in> set (sr_known (st_runtime st))"
proof -
  let ?ps = "own_files paths"
  have sub: "private_files paths \<subseteq> ?ps" "{folder_secret_path paths, allowlist_path paths, bootstrap_peers_path paths} \<subseteq> ?ps"
    by (auto simp: own_files_def private_files_def)
  have n: "host_ok ?ps n" using assms(4,5) by (simp add: host_ok_def)
  have tf: "tempfile_ok (pa_tempfile (rp_peer rp))" "bootstrap_codec_ok (rp_boot_codec rp)"
    using assms(8) by (auto simp: rpc_api_ok_def peer_api_okD)
  have l: "store_layout (fs n) {folder_secret_path paths, allowlist_path paths, bootstrap_peers_path paths}"
    using host_ok_mono [OF n sub(2)] by (simp add: host_ok_def)
  note a = accept_invite_spec [OF assms(1-4) l [unfolded assms(6)] _ refl refl refl assms(8,9), folded assms(6)]
  have d: "distinct [folder_secret_path paths, allowlist_path paths, bootstrap_peers_path paths]" using assms(7) by simp
  obtain ps where b: "bootstrap.holds (rp_boot_codec rp) (fs n') (bootstrap_peers_path paths) (replace_or_push (it_endpoint invite) ps)"
    using a(4) d by blast
  then have g: "stored_group api paths (fs w) (it_folder_secret invite) (al_abs (allow n')) (replace_or_push (it_endpoint invite) ps)"
    using a(1,3) d assms(12,16-18) by (simp add: stored_group_def)
  have "host_ok ?ps n'"
    using rpc_accept_invite_private_op [OF tf, of n ?ps params] sub(1) n assms(1,6) by (simp add: private_op_def)
  then have w: "host_ok ?ps w" using assms(12) by (simp add: host_ok_def)
  have i: "start_files paths \<inter> private_files paths = {}" using assms(7) by (auto simp: start_files_def private_files_def)
  note s = started_group [OF assms(10) assms(11) [symmetric] w subset_refl _ assms(13) i g assms(14)]
  have "new \<in> set (replace_or_push new qs)" for new qs by (induction qs) auto
  moreover have "allow n' = al_add (addr_id (it_endpoint invite)) (peer_info_new label (epoch_secs n)) (allow n)"
    using a(2) d by blast
  ultimately show ?thesis
    using s tf(1) assms(15,16) by (auto simp: al_contains_def is_open_all_def al_add_def al_abs_def)
qed

lemma host_daemon_life: "store_layout (fs host_daemon) (own_files host_paths)"
proof -
  have t: "\<not> suffix ''.tmp'' ''s''" "\<not> suffix ''.tmp'' ''daemon.lock''" "\<not> suffix ''.tmp'' ''daemon.sock''" "\<not> suffix ''.tmp'' ''dirhive.log''"
    "\<not> suffix ''.tmp'' ''endpoint.key''" "\<not> suffix ''.tmp'' ''blobs''" "\<not> suffix ''.tmp'' ''blobs.db''"
    by code_simp+
  have "dir_path (fs host_daemon) [''s'', ''blobs'']" using host_daemon_state_dir
    by (auto simp: dir_path_def normal_def prefix_Cons node_at_def host_fs_def)
  then have "store_path (fs host_daemon) [''s'', ''blobs'', ''blobs.db'']" using t by (simp add: store_path_def normal_def)
  then show ?thesis
    using t host_daemon_state_dir file_names
    by (auto simp: store_layout_def store_path_def own_files_def private_files_def host_paths_def prefix_Cons normal_def node_at_def host_fs_def)
qed

text \<open>The invite is accepted by a daemon that has no group yet, and the daemon is started again.\<close>

theorem accepted_invite_joins_after_restart_witness:
  "\<exists>j n' st w'. rpc_accept_invite stack_rpc ticket_params host_daemon = (Inr j, n')
     \<and> daemon_start (stack_main False) main_env main_args (replicate 32 CHR ''k'') n' = (Some (Inr st), w')
     \<and> current_runtime_status (daemon_of host_daemon) = Uninitialized \<and> current_runtime_status (st_daemon st) = Active
     \<and> al_contains (st_allow st) alice"
proof -
  let ?start = "daemon_start (stack_main False) main_env main_args (replicate 32 CHR ''k'')"
  have "(case rpc_accept_invite stack_rpc ticket_params host_daemon of
       (Inr j, n') \<Rightarrow> faults n' = [] \<and> (case ?start n' of (Some (Inr st), _) \<Rightarrow> ds_paths (st_daemon st) = host_paths | _ \<Rightarrow> False)
     | _ \<Rightarrow> False)"
    by code_simp
  then obtain j n' st w' where r: "rpc_accept_invite stack_rpc ticket_params host_daemon = (Inr j, n')" "faults n' = []"
      "?start n' = (Some (Inr st), w')" "ds_paths (st_daemon st) = host_paths"
    by (auto split: prod.splits sum.splits option.splits) (metis sum.exhaust)
  have d: "decode (pa_codec (rp_peer stack_rpc)) sample_ticket = Inr (ticket_new \<lparr>addr_id = alice, addr_info = ''relay''\<rparr> (replicate 16 (CHR ''k'')))"
    using sample_ticket_decodes by simp
  have al: "al_wf (allow host_daemon)" by (simp add: al_wf_def alice_only_def keys_distinct_def)
  have p: "host_paths = paths_of host_daemon" by simp
  have "distinct [folder_secret_path host_paths, allowlist_path host_paths, bootstrap_peers_path host_paths,
           key_path host_paths, lock_path host_paths, log_path host_paths, socket_path host_paths]"
    by (simp add: host_paths_def)
  note j = accepted_invite_joins_after_restart [OF r(1) d ticket_params_read host_daemon_wf host_daemon_life p this stack_rpc_ok al r(3,4) refl r(2)]
  have "current_runtime_status (st_daemon st) = Active \<and> al_contains (st_allow st) alice"
    using j by (simp add: stack_main_def stack_runtime_def main_args_def ticket_new_def)
  then show ?thesis using r by (intro exI [of _ j] exI [of _ n'] exI [of _ st] exI [of _ w'])
    (simp add: host_state_def current_runtime_status_def)
qed

end
