(* ===== verification/Spec2Isabelle.thy ===== *)
theory Spec2Isabelle
  imports Props_Sync Props_Storage Props_Daemon Props_Loop Props_Process Props_Run Props_Delivery Props_Lifetime
begin

text \<open>
  A model of dirhive, a daemon that keeps one directory in step between peers, with the theorems that
  make it correct.  The daemon watches the directory and announces changes on a gossip topic
  (\<open>send.rs\<close>, \<open>watcher.rs\<close>); it receives the announcements of its peers, fetches the announced blob
  and writes it (\<open>receive.rs\<close>, \<open>conflict.rs\<close>), if the sender is on the allowlist (\<open>allowlist.rs\<close>);
  it keeps a key, a group secret, the allowlist, the addresses of the inviting peers and a log of
  received changes as private files (\<open>keystore.rs\<close>, \<open>bootstrap_peers.rs\<close>, \<open>pending_log.rs\<close>); and it
  answers requests on a socket (\<open>daemon/\<close>).

  \<^bold>\<open>What stands for what.\<close>  All theories translate files under \<open>src/src\<close>.

  \<^item> \<open>Prelude\<close>: strings and bytes (both are lists of characters, one per byte), UTF-8, ASCII case,
    decimal and hexadecimal rendering, hash maps as association lists.
  \<^item> \<open>Std_Fs\<close>, \<open>Fs_Laws\<close>: the part of \<open>std::fs\<close> and \<open>std::path\<close> that the program uses.  A file system
    is a list of nodes by their canonical path (files with content and mode, directories,
    symbolic links); \<open>walk\<close> resolves a path as the kernel does, with at most 40 links.  The record
    \<open>world\<close> holds the file system, the umask, the clocks and a list of faults, from which every
    system call takes one: so every theorem is about every pattern of I/O errors, except those that
    assume an empty list, which say what happens when the system refuses nothing.
  \<^item> \<open>Externals\<close>: anyhow errors, and the crates that are not in the repository as parameters:
    endpoint identities, the blob store, gossip, \<open>tempfile\<close>; with the documented laws of each.
    \<open>write_via_tempfile\<close> is the sequence create, write, chmod, rename that four modules repeat;
    \<open>Tempfile\<close> proves what it does in every case.
  \<^item> \<open>Message\<close> (\<open>message.rs\<close>), \<open>Paths\<close> (\<open>paths.rs\<close>), \<open>Sync_State\<close> (\<open>state.rs\<close>), \<open>Conflict\<close>
    (\<open>conflict.rs\<close>), \<open>Send\<close> (\<open>send.rs\<close>), \<open>Receive\<close> and \<open>Receive_Laws\<close> (\<open>receive.rs\<close>), \<open>Watcher\<close>
    (\<open>watcher.rs\<close>).
  \<^item> \<open>Secure_Store\<close>: the contract of the private files as a locale; \<open>Keystore\<close> (\<open>keystore.rs\<close>),
    \<open>Bootstrap_Peers\<close> (\<open>bootstrap_peers.rs\<close>) and \<open>Allowlist\<close> (\<open>allowlist.rs\<close>) interpret it.
    \<open>Allowlist_Lock\<close> is the two-lock discipline of the allowlist as a step relation.
    \<open>Pending_Log\<close> is \<open>pending_log.rs\<close>.
  \<^item> \<open>Daemon_State\<close> (\<open>daemon/state.rs\<close>), \<open>Join_Gate\<close> (its queue before the first join, as a step
    relation), \<open>Redact\<close>, \<open>Rpc\<close>, \<open>Dispatch\<close> and \<open>Dispatch_Laws\<close> (\<open>daemon/dispatch.rs\<close> and
    \<open>lib.rs\<close>).
  \<^item> \<open>Runtime\<close> (\<open>runtime.rs\<close> and \<open>allowlist_blobs.rs\<close>), \<open>Listener\<close> (\<open>daemon/listener.rs\<close>: the daemon
    lock, the socket file, one request per connection, the accept loop), \<open>Client\<close>
    (\<open>daemon/client.rs\<close> and \<open>bin/dirhive-mcp.rs\<close>), \<open>Event_Loop\<close> and \<open>Startup\<close> (\<open>bin/dirhive.rs\<close>: the
    closures that connect the watcher, the receiver and the queue; start-up and the end).
  \<^item> Over these: \<open>Startup_Laws\<close> (what start-up may touch), \<open>Daemon_Lock\<close> (several processes that
    claim the lock, as a step relation), \<open>Request_Frames\<close> (what a request may change on disk),
    \<open>Run\<close> (messages, neighbors, events, requests, connections and user edits in any order, as a
    step relation over the whole daemon, with its invariant), \<open>Lifetime\<close> (start-up establishes that
    invariant and joins the group that the private files describe; the end) and \<open>Receive_Progress\<close>
    (when receiving an update cannot fail).
  \<^item> \<open>Instances\<close> defines functions that satisfy the laws of all parameters, and \<open>Samples\<close> and
    \<open>Process_Samples\<close> concrete hosts; the witnesses of the properties run on them.
  \<^item> \<open>Props_Sync\<close>, \<open>Props_Storage\<close>, \<open>Props_Daemon\<close>, \<open>Props_Loop\<close>, \<open>Props_Process\<close>, \<open>Props_Run\<close>,
    \<open>Props_Delivery\<close>, \<open>Props_Lifetime\<close>: the properties.

  The state of a running program is a record that grows: \<open>world\<close>, extended by \<open>peer_node\<close> (the blob
  store, the registries and the allowlist), extended by \<open>daemon_state\<close>.  An operation takes the
  record and returns a result, an error or a value, with the new record.

  \<^bold>\<open>What the properties show.\<close>  \<open>Props_Sync\<close>: received and sent files (paths stay inside the watched
  directory, an applied update is on disk, a conflict keeps the old version, a failure loses
  nothing, strangers are ignored).  \<open>Props_Delivery\<close>: when the sender can read a file and the receiver
  can write it, the file arrives; so does a removal; an update delivered again changes nothing; and what two edits at the same time
  come to.
  \<open>Props_Loop\<close>: the daemon does not announce
  what it has itself received, and announces what changes locally.  \<open>Props_Storage\<close>: the private
  files and the change log (round trips, atomicity, modes, concurrent writers of the allowlist).
  \<open>Props_Daemon\<close>: the requests, the redaction, the queue before the first join.
  \<open>Props_Process\<close>: start-up, the daemon lock, the socket and its clients.  \<open>Props_Run\<close>: the whole
  running daemon.  \<open>Props_Lifetime\<close>: the daemon from its start to its end, and from an accepted invite
  to the next start.

  \<^bold>\<open>Granularity.\<close>  Where the program interleaves, the model has a step relation: \<open>lock_step\<close>
  (writers of the allowlist under its two locks), \<open>gate_step\<close> (the queue and the first neighbor),
  \<open>claim_step\<close> (processes that start on one host), \<open>accept_step\<close> (the accept loop and its tasks) and
  \<open>run_step\<close> (the tasks of the daemon).  Within one step of \<open>run_step\<close> a message, an event, one path of
  the flush or one request runs without interruption; \<open>run_step\<close> also has the steps of a daemon whose
  topic is not subscribed, so what it shows holds there as well.

  \<^bold>\<open>Bounds.\<close>  The limits of the program are definitions with its values (\<open>MAX_FILE_SIZE\<close>,
  \<open>MAX_REQUEST_BYTES\<close>, \<open>MAX_IN_FLIGHT_CONNECTIONS\<close>, \<open>TOMBSTONE_DEDUP_TTL\<close>, \<open>MIN_REDACT_HEX_LEN\<close>).  The
  only bound of the model's own is the kernel's: \<open>walk\<close> follows 40 symbolic links and then fails with
  an error, as the system call does.  Loops over strings and lists are total functions with a measure;
  no result depends on fuel.

  \<^bold>\<open>Not modelled.\<close>  The test modules of the source files; the lines written to the log and the file
  writer behind them; the poisoning of locks by a panic; the inside of tokio, iroh, rmcp, serde and
  the other crates, whose operations are parameters with named laws (\<open>Externals\<close>); the plugin files and
  scripts beside the Rust code.
\<close>

end
